(* ===== verification/Prelude.thy ===== *)
theory Prelude
  imports Main "HOL-Library.AList" "HOL-Library.Sublist" "HOL-Library.Word"
begin

text \<open>
  The vocabulary shared by every component of the client.

  A Go \<^verbatim>\<open>string\<close> and a Go \<^verbatim>\<open>[]byte\<close> are both byte sequences and the source converts
  freely between them, so both are \<^typ>\<open>string\<close> here (a \<^typ>\<open>char\<close> is one byte); a
  slice whose \<^verbatim>\<open>nil\<close> value is told apart from the empty one is a \<^typ>\<open>string option\<close>.
  A function that returns \<^verbatim>\<open>(v, err)\<close> returns a result of type \<open>'a res\<close>: a value,
  an error value, or a run-time panic (a failed type assertion, an index out of range,
  a violated precondition of a library call).

  A Go map is an association list with distinct keys.  The order of the list is the
  order in which \<^verbatim>\<open>range\<close> visits the map: Go leaves that order open, and a theorem about
  every such list is a theorem about every order.
\<close>

named_theorems dove_simps "equations that evaluate the operations of the client"
named_theorems dove_inv "facts that an operation keeps an invariant"

type_synonym bytes = string

datatype goerr =
    ErrText string
  | ErrWrap string goerr
  | ErrClosed
  | ErrNotFound
  | DbError nat string
  | ErrorHandleNotExists string

datatype 'a res = Ok 'a | Err goerr | Panic string

text \<open>The text a Go error prints.\<close>

fun err_text :: "goerr \<Rightarrow> string" where
  "err_text (ErrText s) = s"
| "err_text (ErrWrap s e) = s @ err_text e"
| "err_text ErrClosed = ''leveldb: closed''"
| "err_text ErrNotFound = ''leveldb: not found''"
| "err_text (DbError c m) = m"
| "err_text (ErrorHandleNotExists m) = m"

definition res_bind :: "'a res \<Rightarrow> ('a \<Rightarrow> 'b res) \<Rightarrow> 'b res" where
  "res_bind r f = (case r of Ok v \<Rightarrow> f v | Err e \<Rightarrow> Err e | Panic m \<Rightarrow> Panic m)"

lemma res_bind_simps [simp]:
  "res_bind (Ok v) f = f v"
  "res_bind (Err e) f = Err e"
  "res_bind (Panic m) f = Panic m"
  by (simp_all add: res_bind_def)

lemma res_bind_eq_Ok:
  "res_bind r f = Ok w \<longleftrightarrow> (\<exists>v. r = Ok v \<and> f v = Ok w)"
  by (cases r) simp_all

definition is_panic :: "'a res \<Rightarrow> bool" where
  "is_panic r = (case r of Panic _ \<Rightarrow> True | _ \<Rightarrow> False)"

lemma is_panic_simps [simp]:
  "\<not> is_panic (Ok v)" "\<not> is_panic (Err e)" "is_panic (Panic m)"
  by (simp_all add: is_panic_def)

section \<open>Go maps\<close>

type_synonym ('k, 'v) gomap = "('k \<times> 'v) list"

abbreviation mget :: "('k, 'v) gomap \<Rightarrow> 'k \<Rightarrow> 'v option" where
  "mget m k \<equiv> map_of m k"

abbreviation mset :: "('k, 'v) gomap \<Rightarrow> 'k \<Rightarrow> 'v \<Rightarrow> ('k, 'v) gomap" where
  "mset m k v \<equiv> AList.update k v m"

abbreviation mdel :: "('k, 'v) gomap \<Rightarrow> 'k \<Rightarrow> ('k, 'v) gomap" where
  "mdel m k \<equiv> AList.delete k m"

definition wf_map :: "('k, 'v) gomap \<Rightarrow> bool" where
  "wf_map m \<longleftrightarrow> distinct (map fst m)"

lemma wf_map_Nil [simp, dove_inv]: "wf_map []"
  by (simp add: wf_map_def)

lemma wf_map_mset [simp, dove_inv]: "wf_map m \<Longrightarrow> wf_map (mset m k v)"
  by (simp add: wf_map_def distinct_update)

lemma wf_map_mdel [simp, dove_inv]: "wf_map m \<Longrightarrow> wf_map (mdel m k)"
  by (simp add: wf_map_def distinct_delete)

lemma mget_mset [simp]: "mget (mset m k v) k' = (if k' = k then Some v else mget m k')"
  by (simp add: update_conv')

lemma mget_mdel [simp]: "mget (mdel m k) k' = (if k' = k then None else mget m k')"
  by (simp add: delete_conv')

lemma mget_in_set: "wf_map m \<Longrightarrow> (k, v) \<in> set m \<longleftrightarrow> mget m k = Some v"
  by (simp add: wf_map_def)

lemma mget_NoneI: "k \<notin> fst ` set m \<Longrightarrow> mget m k = None"
  by (simp add: map_of_eq_None_iff)

lemma mset_new: "k \<notin> fst ` set m \<Longrightarrow> mset m k v = m @ [(k, v)]"
  by (induction m) auto

lemma keys_mset: "fst ` set (mset m k v) = insert k (fst ` set m)"
  by (simp add: dom_update)

section \<open>Lists\<close>

lemma fold_invariant:
  assumes "P s" and "\<And>x s. x \<in> set xs \<Longrightarrow> P s \<Longrightarrow> P (f x s)"
  shows "P (fold f xs s)"
  using assms by (induction xs arbitrary: s) auto

section \<open>Bytes\<close>

type_synonym byte = "8 word"

definition byte_of :: "char \<Rightarrow> byte" where
  "byte_of c = word_of_nat (of_char c)"

definition char_of_byte :: "byte \<Rightarrow> char" where
  "char_of_byte b = char_of (unat b)"

lemma of_char_less_256: "(of_char c :: nat) < 256"
  using of_char_of [of "of_char c :: nat"] by (simp add: mod_eq_self_iff_div_eq_0)

lemma char_of_byte_of [simp]: "char_of_byte (byte_of c) = c"
  by (simp add: char_of_byte_def byte_of_def unat_of_nat of_char_less_256)

lemma byte_of_char_of [simp]: "byte_of (char_of_byte b) = b"
proof -
  have "unat b < 2 ^ LENGTH(8)" by (rule unsigned_less)
  then have "unat b < 256" by simp
  then have "(of_char (char_of (unat b) :: char) :: nat) = unat b"
    by (simp add: of_char_of)
  then show ?thesis by (simp add: char_of_byte_def byte_of_def)
qed

end
