(* ===== verification/Binary.thy ===== *)
theory Binary
  imports Prelude
begin

text \<open>
  Go's \<^verbatim>\<open>encoding/binary\<close> in big-endian order, for the widths the client writes: \<^verbatim>\<open>uint16\<close>
  and \<^verbatim>\<open>uint32\<close> as lists of bytes, most significant first.
\<close>

unbundle bit_operations_syntax

type_synonym u16 = "16 word"
type_synonym u32 = "32 word"

definition PutUint16 :: "u16 \<Rightarrow> byte list" where
  "PutUint16 w = [ucast (drop_bit 8 w), ucast w]"

definition Uint16 :: "byte \<Rightarrow> byte \<Rightarrow> u16" where
  "Uint16 a b = push_bit 8 (ucast a) OR ucast b"

definition PutUint32 :: "u32 \<Rightarrow> byte list" where
  "PutUint32 w = [ucast (drop_bit 24 w), ucast (drop_bit 16 w), ucast (drop_bit 8 w), ucast w]"

definition Uint32 :: "byte \<Rightarrow> byte \<Rightarrow> byte \<Rightarrow> byte \<Rightarrow> u32" where
  "Uint32 a b c d =
     push_bit 24 (ucast a) OR push_bit 16 (ucast b) OR push_bit 8 (ucast c) OR ucast d"

lemma Uint16_PutUint16 [simp]:
  "Uint16 (ucast (drop_bit 8 w)) (ucast w) = (w :: u16)"
proof (rule bit_word_eqI)
  fix n assume "n < LENGTH(16)"
  then show "bit (Uint16 (ucast (drop_bit 8 w)) (ucast w)) n \<longleftrightarrow> bit w n"
    by (cases "n < 8") (auto simp: Uint16_def bit_simps)
qed

lemma PutUint16_Uint16 [simp]: "PutUint16 (Uint16 a b) = [a, b]"
proof -
  have "(ucast (drop_bit 8 (Uint16 a b)) :: byte) = a"
    by (rule bit_word_eqI) (auto simp: Uint16_def bit_simps dest: bit_imp_le_length)
  moreover have "(ucast (Uint16 a b) :: byte) = b"
    by (rule bit_word_eqI) (auto simp: Uint16_def bit_simps dest: bit_imp_le_length)
  ultimately show ?thesis by (simp add: PutUint16_def)
qed

lemma Uint32_PutUint32 [simp]:
  "Uint32 (ucast (drop_bit 24 w)) (ucast (drop_bit 16 w)) (ucast (drop_bit 8 w)) (ucast w)
     = (w :: u32)"
proof (rule bit_word_eqI)
  fix n assume n: "n < LENGTH(32)"
  consider "n < 8" | "8 \<le> n" "n < 16" | "16 \<le> n" "n < 24" | "24 \<le> n" by linarith
  then show "bit (Uint32 (ucast (drop_bit 24 w)) (ucast (drop_bit 16 w))
      (ucast (drop_bit 8 w)) (ucast w)) n \<longleftrightarrow> bit w n"
    using n by cases (auto simp: Uint32_def bit_simps)
qed

lemma bit_byte_ge: "8 \<le> n \<Longrightarrow> \<not> bit (b :: byte) n"
  by (auto dest: bit_imp_le_length)

lemma PutUint32_Uint32 [simp]: "PutUint32 (Uint32 a b c d) = [a, b, c, d]"
proof -
  have "(ucast (drop_bit 24 (Uint32 a b c d)) :: byte) = a"
    by (rule bit_word_eqI) (auto simp: Uint32_def bit_simps bit_byte_ge)
  moreover have "(ucast (drop_bit 16 (Uint32 a b c d)) :: byte) = b"
    by (rule bit_word_eqI) (auto simp: Uint32_def bit_simps bit_byte_ge)
  moreover have "(ucast (drop_bit 8 (Uint32 a b c d)) :: byte) = c"
    by (rule bit_word_eqI) (auto simp: Uint32_def bit_simps bit_byte_ge)
  moreover have "(ucast (Uint32 a b c d) :: byte) = d"
    by (rule bit_word_eqI) (auto simp: Uint32_def bit_simps bit_byte_ge)
  ultimately show ?thesis by (simp add: PutUint32_def)
qed

lemma length_PutUint [simp]: "length (PutUint16 v) = 2" "length (PutUint32 w) = 4"
  by (simp_all add: PutUint16_def PutUint32_def)

text \<open>The bitwise exclusive or of two bytes, on the bytes of a string.\<close>

definition xor_char :: "char \<Rightarrow> char \<Rightarrow> char" where
  "xor_char a b = char_of_byte (byte_of a XOR byte_of b)"

definition xor_str :: "string \<Rightarrow> string \<Rightarrow> string" where
  "xor_str s t = map2 xor_char s t"

lemma xor_char_cancel [simp]: "xor_char a (xor_char a b) = b"
  by (simp add: xor_char_def xor.assoc [symmetric])

lemma xor_str_cancel:
  "length b \<le> length a \<Longrightarrow> xor_str a (xor_str a b) = b"
proof (induction b arbitrary: a)
  case Nil
  then show ?case by (simp add: xor_str_def)
next
  case (Cons x xs)
  then show ?case by (cases a) (simp_all add: xor_str_def)
qed

lemma length_xor_str [simp]: "length (xor_str a b) = min (length a) (length b)"
  by (simp add: xor_str_def)

end
