(* ===== verification/GoStrings.thy ===== *)
theory GoStrings
  imports Prelude
begin

text \<open>
  What the client uses of Go's packages \<^verbatim>\<open>strings\<close>, \<^verbatim>\<open>bytes\<close> and \<^verbatim>\<open>strconv\<close>, on byte
  sequences.  Every separator and cut set of the source is ASCII, so working on bytes
  gives what Go's rune-wise functions give: an ASCII byte is never part of a longer
  UTF-8 sequence.
\<close>

section \<open>Prefixes, suffixes, positions\<close>

definition HasPrefix :: "string \<Rightarrow> string \<Rightarrow> bool" where
  "HasPrefix s p = prefix p s"

definition HasSuffix :: "string \<Rightarrow> string \<Rightarrow> bool" where
  "HasSuffix s p = suffix p s"

text \<open>\<^verbatim>\<open>strings.Index\<close>: the first position of \<open>sep\<close>, -1 in Go and \<open>None\<close> here if there is none.\<close>

fun Index :: "'a list \<Rightarrow> 'a list \<Rightarrow> nat option" where
  "Index [] sep = (if sep = [] then Some 0 else None)"
| "Index (x # xs) sep =
     (if prefix sep (x # xs) then Some 0 else map_option Suc (Index xs sep))"

lemma Index_Some: "Index s sep = Some i \<Longrightarrow> s = take i s @ sep @ drop (i + length sep) s"
proof (induction s arbitrary: i)
  case Nil
  then show ?case by (simp split: if_splits)
next
  case (Cons x xs)
  show ?case
  proof (cases "prefix sep (x # xs)")
    case True
    with Cons.prems have "i = 0" by simp
    with True show ?thesis by (auto simp: prefix_def)
  next
    case False
    with Cons.prems obtain j where "i = Suc j" "Index xs sep = Some j" by auto
    with Cons.IH [of j] show ?thesis by simp
  qed
qed

lemma Index_Some_bound: "Index s sep = Some i \<Longrightarrow> i + length sep \<le> length s"
proof (induction s arbitrary: i)
  case Nil
  then show ?case by (simp split: if_splits)
next
  case (Cons x xs)
  then show ?case
    by (cases "prefix sep (x # xs)") (auto dest: prefix_length_le)
qed

lemma Index_None: "Index s sep = None \<longleftrightarrow> \<not> sublist sep s"
  by (induction s) (auto simp: sublist_Cons_right)

lemma Index_0: "Index s sep = Some 0 \<longleftrightarrow> prefix sep s"
  by (cases s) auto

text \<open>\<^verbatim>\<open>strings.LastIndex\<close> of a one-byte separator.\<close>

fun LastIndex :: "'a list \<Rightarrow> 'a \<Rightarrow> nat option" where
  "LastIndex [] c = None"
| "LastIndex (x # xs) c =
     (case LastIndex xs c of Some i \<Rightarrow> Some (Suc i) | None \<Rightarrow> if x = c then Some 0 else None)"

section \<open>Split and Join\<close>

text \<open>\<^verbatim>\<open>strings.Split\<close>.  An empty separator, which the source never passes, explodes the string.\<close>

function Split :: "'a list \<Rightarrow> 'a list \<Rightarrow> 'a list list" where
  "Split s sep =
     (if sep = [] then map (\<lambda>c. [c]) s
      else case Index s sep of
             None \<Rightarrow> [s]
           | Some i \<Rightarrow> take i s # Split (drop (i + length sep) s) sep)"
  by pat_completeness auto
termination
proof (relation "measure (length \<circ> fst)")
  fix s sep :: "'a list" and i
  assume "sep \<noteq> []" and "Index s sep = Some i"
  then have "0 < length sep" and "i + length sep \<le> length s"
    by (auto dest: Index_Some_bound)
  then show "((drop (i + length sep) s, sep), (s, sep)) \<in> measure (length \<circ> fst)"
    by (simp del: length_greater_0_conv)
qed simp

declare Split.simps [simp del]

text \<open>\<^verbatim>\<open>strings.SplitN(s, sep, 2)\<close>.\<close>

definition SplitN2 :: "'a list \<Rightarrow> 'a list \<Rightarrow> 'a list list" where
  "SplitN2 s sep =
     (case Index s sep of None \<Rightarrow> [s] | Some i \<Rightarrow> [take i s, drop (i + length sep) s])"

fun Join :: "'a list list \<Rightarrow> 'a list \<Rightarrow> 'a list" where
  "Join [] sep = []"
| "Join [x] sep = x"
| "Join (x # y # ys) sep = x @ sep @ Join (y # ys) sep"

lemma Split_neq_Nil: "sep \<noteq> [] \<Longrightarrow> Split s sep \<noteq> []"
  by (subst Split.simps) (simp split: option.split)

lemma Join_Cons: "ys \<noteq> [] \<Longrightarrow> Join (x # ys) sep = x @ sep @ Join ys sep"
  by (cases ys) simp_all

lemma Join_Split: "sep \<noteq> [] \<Longrightarrow> Join (Split s sep) sep = s"
proof (induction s sep rule: Split.induct)
  case (1 s sep)
  show ?case
  proof (cases "Index s sep")
    case None
    with "1.prems" show ?thesis by (subst Split.simps) simp
  next
    case (Some i)
    with "1.prems" have "Split s sep = take i s # Split (drop (i + length sep) s) sep"
      by (subst Split.simps) simp
    moreover from Some "1" have
      "Join (Split (drop (i + length sep) s) sep) sep = drop (i + length sep) s" by blast
    ultimately show ?thesis
      using Index_Some [OF Some] "1.prems" by (simp add: Join_Cons Split_neq_Nil)
  qed
qed

text \<open>A one-byte separator: the pieces hold no separator, and splitting a join gives the pieces back.\<close>

fun split_on :: "'a \<Rightarrow> 'a list \<Rightarrow> 'a list list" where
  "split_on c [] = [[]]"
| "split_on c (x # xs) =
     (if x = c then [] # split_on c xs
      else (x # hd (split_on c xs)) # tl (split_on c xs))"

lemma split_on_neq_Nil [simp]: "split_on c s \<noteq> []"
  by (cases s) auto

lemma split_on_Index:
  "split_on c s =
     (case Index s [c] of None \<Rightarrow> [s] | Some i \<Rightarrow> take i s # split_on c (drop (Suc i) s))"
  by (induction s) (auto split: option.split)

lemma Split_eq_split_on: "Split s [c] = split_on c s"
proof (induction "length s" arbitrary: s rule: less_induct)
  case less
  show ?case
  proof (cases "Index s [c]")
    case None
    then show ?thesis by (subst Split.simps, subst split_on_Index) simp
  next
    case (Some i)
    then have "length (drop (Suc i) s) < length s"
      by (auto dest: Index_Some_bound)
    then have "Split (drop (Suc i) s) [c] = split_on c (drop (Suc i) s)"
      by (rule less)
    with Some show ?thesis by (subst Split.simps, subst split_on_Index) simp
  qed
qed

lemma split_on_no_sep: "x \<in> set (split_on c s) \<Longrightarrow> c \<notin> set x"
proof (induction s arbitrary: x)
  case Nil
  then show ?case by simp
next
  case (Cons y ys)
  have "hd (split_on c ys) \<in> set (split_on c ys)" by simp
  then have "c \<notin> set (hd (split_on c ys))" by (rule Cons.IH)
  then show ?case
    using Cons.prems Cons.IH by (auto split: if_splits dest: list.set_sel(2) [rotated])
qed

lemma split_on_absent: "c \<notin> set s \<Longrightarrow> split_on c s = [s]"
  by (induction s) auto

lemma split_on_single: "c \<in> set s \<Longrightarrow> tl (split_on c s) \<noteq> []"
  by (induction s) auto

lemma last_split_on: "last (split_on c s) = rev (takeWhile (\<lambda>x. x \<noteq> c) (rev s))"
proof (induction s)
  case (Cons x s)
  have "takeWhile (\<lambda>y. y \<noteq> c) (rev s @ [x]) =
      (if c \<in> set s then takeWhile (\<lambda>y. y \<noteq> c) (rev s) else rev s @ (if x = c then [] else [x]))"
    by (auto simp: takeWhile_append)
  moreover have "last (split_on c (x # s)) =
      (if c \<in> set s then last (split_on c s) else if x = c then s else x # s)"
    using split_on_single [of c s] by (cases "split_on c s") (auto simp: split_on_absent)
  ultimately show ?case using Cons by auto
qed simp

lemma split_on_append: "c \<notin> set x \<Longrightarrow> split_on c (x @ c # s) = x # split_on c s"
  by (induction x) auto

lemma split_on_Join:
  "xs \<noteq> [] \<Longrightarrow> \<forall>x \<in> set xs. c \<notin> set x \<Longrightarrow> split_on c (Join xs [c]) = xs"
  by (induction xs "[c]" rule: Join.induct) (auto simp: split_on_absent split_on_append)

lemma Join_split_on: "Join (split_on c s) [c] = s"
  using Join_Split [of "[c]" s] by (simp add: Split_eq_split_on)

lemma set_Join: "set (Join xs sep) \<subseteq> (\<Union>x \<in> set xs. set x) \<union> set sep"
  by (induction xs sep rule: Join.induct) auto

lemma hd_Join: "x \<noteq> [] \<Longrightarrow> hd (Join (x # xs) sep) = hd x"
  by (cases xs) simp_all

lemma last_Join: "xs \<noteq> [] \<Longrightarrow> \<forall>x \<in> set xs. x \<noteq> [] \<Longrightarrow> Join xs sep \<noteq> [] \<and> last (Join xs sep) = last (last xs)"
  by (induction xs sep rule: Join.induct) auto

section \<open>Trimming\<close>

definition TrimLeft :: "'a list \<Rightarrow> 'a list \<Rightarrow> 'a list" where
  "TrimLeft s cs = dropWhile (\<lambda>c. c \<in> set cs) s"

definition TrimRight :: "'a list \<Rightarrow> 'a list \<Rightarrow> 'a list" where
  "TrimRight s cs = rev (dropWhile (\<lambda>c. c \<in> set cs) (rev s))"

definition Trim :: "'a list \<Rightarrow> 'a list \<Rightarrow> 'a list" where
  "Trim s cs = TrimRight (TrimLeft s cs) cs"

definition TrimPrefix :: "'a list \<Rightarrow> 'a list \<Rightarrow> 'a list" where
  "TrimPrefix s p = (if prefix p s then drop (length p) s else s)"

definition TrimSuffix :: "'a list \<Rightarrow> 'a list \<Rightarrow> 'a list" where
  "TrimSuffix s p = (if suffix p s then take (length s - length p) s else s)"

lemma TrimRight_append_cut: "set t \<subseteq> set cs \<Longrightarrow> TrimRight (s @ t) cs = TrimRight s cs"
proof -
  assume "set t \<subseteq> set cs"
  then have "dropWhile (\<lambda>c. c \<in> set cs) (rev t @ rev s) = dropWhile (\<lambda>c. c \<in> set cs) (rev s)"
    by (subst dropWhile_append2) auto
  then show ?thesis by (simp add: TrimRight_def)
qed

lemma TrimRight_id: "s = [] \<or> last s \<notin> set cs \<Longrightarrow> TrimRight s cs = s"
  by (cases s rule: rev_cases) (auto simp: TrimRight_def)

lemma TrimLeft_id: "s = [] \<or> hd s \<notin> set cs \<Longrightarrow> TrimLeft s cs = s"
  by (cases s) (auto simp: TrimLeft_def)

lemma TrimRight_last: "TrimRight s cs \<noteq> [] \<Longrightarrow> last (TrimRight s cs) \<notin> set cs"
proof -
  assume "TrimRight s cs \<noteq> []"
  then have "dropWhile (\<lambda>c. c \<in> set cs) (rev s) \<noteq> []" by (simp add: TrimRight_def)
  then have "hd (dropWhile (\<lambda>c. c \<in> set cs) (rev s)) \<notin> set cs"
    by (rule hd_dropWhile)
  then show ?thesis by (simp add: TrimRight_def last_rev)
qed

lemma TrimRight_decomp: "\<exists>t. s = TrimRight s cs @ t \<and> set t \<subseteq> set cs"
proof -
  have "rev s = takeWhile (\<lambda>c. c \<in> set cs) (rev s) @ dropWhile (\<lambda>c. c \<in> set cs) (rev s)"
    by simp
  then have "s = TrimRight s cs @ rev (takeWhile (\<lambda>c. c \<in> set cs) (rev s))"
    unfolding TrimRight_def by (metis rev_append rev_rev_ident)
  moreover have "set (rev (takeWhile (\<lambda>c. c \<in> set cs) (rev s))) \<subseteq> set cs"
    by (auto dest: set_takeWhileD)
  ultimately show ?thesis by blast
qed

lemma Trim_id: "s \<noteq> [] \<Longrightarrow> hd s \<notin> set cs \<Longrightarrow> last s \<notin> set cs \<Longrightarrow> Trim s cs = s"
  by (simp add: Trim_def TrimLeft_id TrimRight_id)

lemma TrimLeft_append_cut: "set t \<subseteq> set cs \<Longrightarrow> TrimLeft (t @ s) cs = TrimLeft s cs"
  unfolding TrimLeft_def by (subst dropWhile_append2) auto

lemma Trim_between:
  "set p \<subseteq> set cs \<Longrightarrow> set q \<subseteq> set cs \<Longrightarrow> s \<noteq> [] \<Longrightarrow> hd s \<notin> set cs \<Longrightarrow> last s \<notin> set cs
   \<Longrightarrow> Trim (p @ s @ q) cs = s"
  by (simp add: Trim_def TrimLeft_append_cut TrimLeft_id TrimRight_append_cut TrimRight_id)

text \<open>
  \<^verbatim>\<open>unicode.IsSpace\<close>: the ASCII spaces, and the UTF-8 encodings of U+0085, U+00A0, U+1680,
  U+2000 to U+200A, U+2028, U+2029, U+202F, U+205F and U+3000.  \<open>space_len s\<close> is the
  length of the space rune at the front of \<open>s\<close>, 0 if there is none.
\<close>

definition ascii_space :: "char \<Rightarrow> bool" where
  "ascii_space c \<longleftrightarrow> (let n = of_char c :: nat in n = 32 \<or> (9 \<le> n \<and> n \<le> 13))"

definition wide_spaces :: "string list" where
  "wide_spaces = map (map char_of)
     ([[0xC2, 0x85], [0xC2, 0xA0], [0xE1, 0x9A, 0x80],
       [0xE2, 0x80, 0xA8], [0xE2, 0x80, 0xA9], [0xE2, 0x80, 0xAF],
       [0xE2, 0x81, 0x9F], [0xE3, 0x80, 0x80]]
      @ map (\<lambda>n. [0xE2, 0x80, 0x80 + n]) [0..<(11::nat)])"

definition space_len :: "string \<Rightarrow> nat" where
  "space_len s =
     (case s of [] \<Rightarrow> 0
      | c # _ \<Rightarrow> if ascii_space c then 1
                else case find (\<lambda>w. prefix w s) wide_spaces of
                       Some w \<Rightarrow> length w | None \<Rightarrow> 0)"

definition space_len_end :: "string \<Rightarrow> nat" where
  "space_len_end s =
     (if s = [] then 0
      else if ascii_space (last s) then 1
      else case find (\<lambda>w. suffix w s) wide_spaces of Some w \<Rightarrow> length w | None \<Rightarrow> 0)"

lemma space_len_le: "space_len s \<le> length s"
  by (auto simp: space_len_def find_Some_iff split: list.split option.split dest!: prefix_length_le)

lemma space_len_end_le: "space_len_end s \<le> length s"
  by (auto simp: space_len_end_def find_Some_iff Suc_le_eq split: option.split dest!: suffix_length_le)

function trim_space_left :: "string \<Rightarrow> string" where
  "trim_space_left s =
     (if space_len s = 0 then s else trim_space_left (drop (space_len s) s))"
  by pat_completeness auto
termination
proof (relation "measure length")
  fix s assume "space_len s \<noteq> 0"
  then show "(drop (space_len s) s, s) \<in> measure length"
    using space_len_le [of s] by simp
qed simp

function trim_space_right :: "string \<Rightarrow> string" where
  "trim_space_right s =
     (if space_len_end s = 0 then s
      else trim_space_right (take (length s - space_len_end s) s))"
  by pat_completeness auto
termination
proof (relation "measure length")
  fix s assume "space_len_end s \<noteq> 0"
  then show "(take (length s - space_len_end s) s, s) \<in> measure length"
    using space_len_end_le [of s] by simp
qed simp

declare trim_space_left.simps [simp del] trim_space_right.simps [simp del]

definition TrimSpace :: "string \<Rightarrow> string" where
  "TrimSpace s = trim_space_right (trim_space_left s)"

lemma wide_ends: "\<forall>w \<in> set wide_spaces. w \<noteq> [] \<and> 128 \<le> (of_char (hd w) :: nat) \<and> 128 \<le> (of_char (last w) :: nat)"
  by code_simp

text \<open>A text that starts and ends with a visible ASCII character has nothing to trim.\<close>

definition visible :: "char \<Rightarrow> bool" where
  "visible c \<longleftrightarrow> (of_char c :: nat) < 128 \<and> \<not> ascii_space c"

lemma space_len_visible: "visible c \<Longrightarrow> space_len (c # s) = 0"
proof -
  assume c: "visible c"
  have "\<not> prefix w (c # s)" if "w \<in> set wide_spaces" for w
    using wide_ends that c by (cases w) (auto simp: visible_def)
  then have "find (\<lambda>w. prefix w (c # s)) wide_spaces = None" by (simp add: find_None_iff)
  with c show ?thesis by (simp add: space_len_def visible_def)
qed

lemma space_len_end_visible: "s \<noteq> [] \<Longrightarrow> visible (last s) \<Longrightarrow> space_len_end s = 0"
proof -
  assume s: "s \<noteq> []" "visible (last s)"
  have "\<not> suffix w s" if "w \<in> set wide_spaces" for w
    using wide_ends that s by (auto simp: visible_def suffix_def)
  then have "find (\<lambda>w. suffix w s) wide_spaces = None" by (simp add: find_None_iff)
  with s show ?thesis by (simp add: space_len_end_def visible_def)
qed

lemma TrimSpace_id:
  assumes "s = [] \<or> (visible (hd s) \<and> visible (last s))"
  shows "TrimSpace s = s"
proof -
  have "space_len s = 0" "space_len_end s = 0"
    using assms space_len_visible [of "hd s" "tl s"] space_len_end_visible [of s]
    by (cases s; simp add: space_len_def space_len_end_def)+
  then show ?thesis by (simp add: TrimSpace_def trim_space_left.simps trim_space_right.simps)
qed

text \<open>\<^verbatim>\<open>strings.Fields\<close>: the maximal runs of non-space bytes.\<close>

function fields_from :: "string \<Rightarrow> string \<Rightarrow> string list" where
  "fields_from acc s =
     (if s = [] then (if acc = [] then [] else [acc])
      else if space_len s = 0 then fields_from (acc @ [hd s]) (tl s)
      else (if acc = [] then [] else [acc]) @ fields_from [] (drop (space_len s) s))"
  by pat_completeness auto
termination
proof (relation "measure (length \<circ> snd)")
  fix acc s :: string
  assume "s \<noteq> []" and "space_len s \<noteq> 0"
  then show "(([], drop (space_len s) s), (acc, s)) \<in> measure (length \<circ> snd)"
    using space_len_le [of s] by simp
qed simp_all

declare fields_from.simps [simp del]

definition Fields :: "string \<Rightarrow> string list" where
  "Fields s = fields_from [] s"

section \<open>Replacing\<close>

text \<open>
  \<^verbatim>\<open>strings.Replace(s, old, new, n)\<close> for a non-empty \<open>old\<close>: the first \<open>n\<close>
  non-overlapping occurrences, all of them when \<open>n\<close> is negative (there are at most
  \<open>length s\<close>).
\<close>

fun replace_lim :: "nat \<Rightarrow> 'a list \<Rightarrow> 'a list \<Rightarrow> 'a list \<Rightarrow> 'a list" where
  "replace_lim 0 s old new = s"
| "replace_lim (Suc n) s old new =
     (case Index s old of
        None \<Rightarrow> s
      | Some i \<Rightarrow> take i s @ new @ replace_lim n (drop (i + length old) s) old new)"

definition Replace :: "'a list \<Rightarrow> 'a list \<Rightarrow> 'a list \<Rightarrow> int \<Rightarrow> 'a list" where
  "Replace s old new n = replace_lim (if n < 0 then length s else nat n) s old new"

lemma replace_lim_char:
  "length s \<le> n \<Longrightarrow> replace_lim n s [c] [d] = map (\<lambda>x. if x = c then d else x) s"
proof (induction n s "[c]" "[d]" rule: replace_lim.induct)
  case (1 s)
  then show ?case by simp
next
  case (2 n s)
  show ?case
  proof (cases "Index s [c]")
    case None
    then have "c \<notin> set s" by (simp add: Index_None in_set_conv_decomp sublist_def)
    then have "map (\<lambda>x. if x = c then d else x) s = s" by (induction s) auto
    with None show ?thesis by simp
  next
    case (Some i)
    define t where "t = drop (Suc i) s"
    have s: "s = take i s @ c # t" using Index_Some [OF Some] by (simp add: t_def)
    have "length t \<le> n" using Index_Some_bound [OF Some] 2(2) by (simp add: t_def)
    then have IH: "replace_lim n t [c] [d] = map (\<lambda>x. if x = c then d else x) t"
      using 2(1) Some by (simp add: t_def)
    have notin: "c \<notin> set (take i s)" using Some
    proof (induction s arbitrary: i)
      case (Cons y ys)
      then show ?case by (cases i) (auto split: if_splits)
    qed simp
    then have "map (\<lambda>x. if x = c then d else x) (take i s) = take i s"
      by (intro map_idI) auto
    then have "map (\<lambda>x. if x = c then d else x) s
        = take i s @ d # map (\<lambda>x. if x = c then d else x) t"
      by (subst s) simp
    with Some IH show ?thesis by (simp add: t_def)
  qed
qed

lemma Replace_char_all:
  "Replace s [c] [d] (-1) = map (\<lambda>x. if x = c then d else x) s"
  by (simp add: Replace_def replace_lim_char)

section \<open>Letters and numbers\<close>

text \<open>\<^verbatim>\<open>strings.ToLower\<close> on the ASCII letters; the strings it is applied to are option names
  and console commands, compared with ASCII literals afterwards.\<close>

definition lower :: "char \<Rightarrow> char" where
  "lower c = (let n = of_char c :: nat in if 65 \<le> n \<and> n \<le> 90 then char_of (n + 32) else c)"

definition ToLower :: "string \<Rightarrow> string" where
  "ToLower s = map lower s"

definition is_digit :: "char \<Rightarrow> bool" where
  "is_digit c \<longleftrightarrow> (let n = of_char c :: nat in 48 \<le> n \<and> n \<le> 57)"

definition digit_val :: "char \<Rightarrow> nat" where
  "digit_val c = of_char c - 48"

definition digit_char :: "nat \<Rightarrow> char" where
  "digit_char d = char_of (48 + d)"

fun nat_digits :: "nat \<Rightarrow> string" where
  "nat_digits n =
     (if n < 10 then [digit_char n] else nat_digits (n div 10) @ [digit_char (n mod 10)])"

declare nat_digits.simps [simp del]

text \<open>\<^verbatim>\<open>strconv.Itoa\<close>.\<close>

definition Itoa :: "int \<Rightarrow> string" where
  "Itoa i = (if i < 0 then CHR ''-'' # nat_digits (nat (- i)) else nat_digits (nat i))"

definition digits_val :: "string \<Rightarrow> nat" where
  "digits_val s = foldl (\<lambda>a c. 10 * a + digit_val c) 0 s"

text \<open>\<^verbatim>\<open>strconv.Atoi\<close> on a 64-bit platform: an optional sign, at least one digit, digits
  only, and the value in the range of \<^verbatim>\<open>int64\<close>.\<close>

definition Atoi :: "string \<Rightarrow> int res" where
  "Atoi s =
     (let neg = (s \<noteq> [] \<and> hd s = CHR ''-'');
          ds = (if s \<noteq> [] \<and> (hd s = CHR ''-'' \<or> hd s = CHR ''+'') then tl s else s);
          v = (if neg then - int (digits_val ds) else int (digits_val ds))
      in if ds = [] \<or> \<not> list_all is_digit ds then Err (ErrText ''invalid syntax'')
         else if - (2 ^ 63) \<le> v \<and> v < 2 ^ 63 then Ok v
         else Err (ErrText ''value out of range''))"

lemma of_char_digit_char: "d < 10 \<Longrightarrow> (of_char (digit_char d) :: nat) = 48 + d"
  by (simp add: digit_char_def of_char_of)

lemma is_digit_digit_char [simp]: "d < 10 \<Longrightarrow> is_digit (digit_char d)"
  by (simp add: is_digit_def of_char_digit_char)

lemma digit_val_digit_char [simp]: "d < 10 \<Longrightarrow> digit_val (digit_char d) = d"
  by (simp add: digit_val_def of_char_digit_char)

lemma nat_digits_neq_Nil [simp]: "nat_digits n \<noteq> []"
  by (subst nat_digits.simps) simp

lemma nat_digits_digits: "list_all is_digit (nat_digits n)"
proof (induction n rule: nat_digits.induct)
  case (1 n)
  then show ?case by (subst nat_digits.simps) simp
qed

lemma digits_val_nat_digits: "digits_val (nat_digits n) = n"
proof (induction n rule: nat_digits.induct)
  case (1 n)
  then show ?case by (subst nat_digits.simps) (simp add: digits_val_def)
qed

lemma hd_nat_digits: "is_digit (hd (nat_digits n))"
  using nat_digits_digits [of n] by (cases "nat_digits n") simp_all

lemma not_digit_sign [simp]: "\<not> is_digit CHR ''-''" "\<not> is_digit CHR ''+''"
  by (simp_all add: is_digit_def)

lemma Atoi_Itoa: "- (2 ^ 63) \<le> i \<Longrightarrow> i < 2 ^ 63 \<Longrightarrow> Atoi (Itoa i) = Ok i"
proof (cases "i < 0")
  case True
  assume "- (2 ^ 63) \<le> i" "i < 2 ^ 63"
  with True show ?thesis
    by (simp add: Atoi_def Itoa_def nat_digits_digits digits_val_nat_digits)
next
  case False
  assume "- (2 ^ 63) \<le> i" "i < 2 ^ 63"
  moreover have "hd (nat_digits (nat i)) \<noteq> CHR ''-''" "hd (nat_digits (nat i)) \<noteq> CHR ''+''"
    using hd_nat_digits [of "nat i"] by auto
  ultimately show ?thesis using False
    by (simp add: Atoi_def Itoa_def nat_digits_digits digits_val_nat_digits)
qed

lemma length_nat_digits: "n < 10 ^ Suc k \<Longrightarrow> length (nat_digits n) \<le> Suc k"
proof (induction k arbitrary: n)
  case 0
  then show ?case by (subst nat_digits.simps) simp
next
  case (Suc k)
  then have "n div 10 < 10 ^ Suc k" by (simp add: less_mult_imp_div_less)
  then have "length (nat_digits (n div 10)) \<le> Suc k" by (rule Suc.IH)
  then show ?case by (subst nat_digits.simps) simp
qed

lemma length_nat_digits_ge: "10 ^ k \<le> n \<Longrightarrow> k < length (nat_digits n)"
proof (induction k arbitrary: n)
  case 0
  then show ?case by simp
next
  case (Suc k)
  then have "10 ^ k \<le> n div 10" by (simp add: less_eq_div_iff_mult_less_eq)
  then have "k < length (nat_digits (n div 10))" by (rule Suc.IH)
  moreover have "\<not> n < 10"
  proof -
    have "(1::nat) \<le> 10 ^ k" by simp
    with Suc.prems show ?thesis unfolding power_Suc by linarith
  qed
  ultimately show ?case by (subst nat_digits.simps) simp
qed

lemma nat_digits_no_NUL: "CHR 0x00 \<notin> set (nat_digits n)"
  using nat_digits_digits [of n] by (auto simp: list_all_iff is_digit_def)

end
