(* ===== verification/Blowfish.thy ===== *)
theory Blowfish
  imports Binary GoStrings
begin

text \<open>
  The block cipher the client encrypts with: \<^verbatim>\<open>vendor/golang.org/x/crypto/blowfish\<close>.  The
  sub-keys \<open>p\<close> (18 words) and the four substitution boxes (256 words each, indexed by a
  byte) are the fields of the source's \<^verbatim>\<open>Cipher\<close>.  The initial tables (the digits of pi,
  \<^verbatim>\<open>const.go\<close>) are an argument of \<open>NewCipher\<close>: nothing below depends on their values.
  The main fact is that decryption undoes encryption of a block, whatever the tables and
  the key, because the cipher is a Feistel network.
\<close>

unbundle bit_operations_syntax

record Cipher =
  c_p :: "nat \<Rightarrow> u32"
  c_s0 :: "byte \<Rightarrow> u32"
  c_s1 :: "byte \<Rightarrow> u32"
  c_s2 :: "byte \<Rightarrow> u32"
  c_s3 :: "byte \<Rightarrow> u32"

definition feistel :: "Cipher \<Rightarrow> u32 \<Rightarrow> u32" where
  "feistel c x =
     ((c_s0 c (ucast (drop_bit 24 x)) + c_s1 c (ucast (drop_bit 16 x)))
        XOR c_s2 c (ucast (drop_bit 8 x)))
     + c_s3 c (ucast x)"

text \<open>
  One line of the unrolled loops of the source: the half that was updated last is mixed
  into the other one.  The pair holds the half updated last first, so the two halves
  change places in every round.
\<close>

definition round_step :: "Cipher \<Rightarrow> nat \<Rightarrow> u32 \<times> u32 \<Rightarrow> u32 \<times> u32" where
  "round_step c i x = (snd x XOR (feistel c (fst x) XOR c_p c i), fst x)"

definition encryptBlock :: "u32 \<Rightarrow> u32 \<Rightarrow> Cipher \<Rightarrow> u32 \<times> u32" where
  "encryptBlock l r c =
     (let x = fold (round_step c) [1..<17] (l XOR c_p c 0, r)
      in (snd x XOR c_p c 17, fst x))"

definition decryptBlock :: "u32 \<Rightarrow> u32 \<Rightarrow> Cipher \<Rightarrow> u32 \<times> u32" where
  "decryptBlock l r c =
     (let x = fold (round_step c) (rev [1..<17]) (l XOR c_p c 17, r)
      in (snd x XOR c_p c 0, fst x))"

lemma round_step_back:
  "round_step c i (prod.swap (round_step c i x)) = prod.swap x"
  by (cases x) (simp add: round_step_def xor.assoc)

lemma rounds_back:
  "fold (round_step c) (rev is) (prod.swap (fold (round_step c) is x)) = prod.swap x"
  by (induction "is" arbitrary: x) (simp_all add: round_step_back)

lemma decryptBlock_encryptBlock:
  assumes "encryptBlock l r c = (l', r')"
  shows "decryptBlock l' r' c = (l, r)"
proof -
  define x where "x = fold (round_step c) [1..<17] (l XOR c_p c 0, r)"
  from assms have "l' = snd x XOR c_p c 17" and "r' = fst x"
    unfolding encryptBlock_def x_def Let_def by simp_all
  then have "(l' XOR c_p c 17, r') = prod.swap x"
    by (cases x) (simp add: xor.assoc)
  moreover have "fold (round_step c) (rev [1..<17]) (prod.swap x) = (r, l XOR c_p c 0)"
    using rounds_back [of c "[1..<17]" "(l XOR c_p c 0, r)"] by (simp only: x_def prod.swap_def fst_conv snd_conv)
  ultimately show ?thesis
    by (simp add: decryptBlock_def xor.assoc)
qed

text \<open>The methods \<^verbatim>\<open>Encrypt\<close> and \<^verbatim>\<open>Decrypt\<close> of the cipher on an 8-byte block.\<close>

definition load_half :: "string \<Rightarrow> nat \<Rightarrow> u32" where
  "load_half b i = Uint32 (byte_of (b ! i)) (byte_of (b ! (i + 1)))
     (byte_of (b ! (i + 2))) (byte_of (b ! (i + 3)))"

definition store_halves :: "u32 \<times> u32 \<Rightarrow> string" where
  "store_halves lr = map char_of_byte (PutUint32 (fst lr) @ PutUint32 (snd lr))"

definition BlockEncrypt :: "Cipher \<Rightarrow> string \<Rightarrow> string" where
  "BlockEncrypt c b = store_halves (encryptBlock (load_half b 0) (load_half b 4) c)"

definition BlockDecrypt :: "Cipher \<Rightarrow> string \<Rightarrow> string" where
  "BlockDecrypt c b = store_halves (decryptBlock (load_half b 0) (load_half b 4) c)"

lemma load_store:
  "load_half (store_halves lr) 0 = fst lr" "load_half (store_halves lr) 4 = snd lr"
  by (simp_all add: load_half_def store_halves_def PutUint32_def)

lemma list_8: "length b = 8 \<Longrightarrow> b = [b!0, b!1, b!2, b!3, b!4, b!5, b!6, b!7]"
  by (rule nth_equalityI) (auto simp: less_Suc_eq numeral_eq_Suc)

lemma store_load:
  assumes "length b = 8"
  shows "store_halves (load_half b 0, load_half b 4) = b"
proof -
  have "store_halves (load_half b 0, load_half b 4)
      = [b!0, b!1, b!2, b!3, b!4, b!5, b!6, b!7]"
    by (simp add: store_halves_def load_half_def numeral_eq_Suc)
  with list_8 [OF assms] show ?thesis by simp
qed

lemma length_BlockEncrypt [simp]: "length (BlockEncrypt c b) = 8"
  by (simp add: BlockEncrypt_def store_halves_def)

lemma length_BlockDecrypt [simp]: "length (BlockDecrypt c b) = 8"
  by (simp add: BlockDecrypt_def store_halves_def)

lemma BlockDecrypt_BlockEncrypt: "length b = 8 \<Longrightarrow> BlockDecrypt c (BlockEncrypt c b) = b"
proof -
  assume b: "length b = 8"
  obtain l r where lr: "encryptBlock (load_half b 0) (load_half b 4) c = (l, r)" by fastforce
  then have "BlockDecrypt c (BlockEncrypt c b) = store_halves (decryptBlock l r c)"
    by (simp add: BlockDecrypt_def BlockEncrypt_def load_store)
  also have "\<dots> = b" using decryptBlock_encryptBlock [OF lr] store_load [OF b] by simp
  finally show ?thesis .
qed

section \<open>The key schedule\<close>

text \<open>
  \<open>key_word key i\<close> is the word that \<^verbatim>\<open>ExpandKey\<close> mixes into \<open>p[i]\<close>: the four key bytes
  from position \<open>4 * i\<close> on, cyclically.
\<close>

definition key_word :: "string \<Rightarrow> nat \<Rightarrow> u32" where
  "key_word key i = (let k = (\<lambda>j. byte_of (key ! ((4 * i + j) mod length key)))
     in Uint32 (k 0) (k 1) (k 2) (k 3))"

text \<open>Filling a table two words at a time with the successive encryptions of \<open>(l, r)\<close>.\<close>

fun fill_p :: "nat list \<Rightarrow> u32 \<times> u32 \<times> Cipher \<Rightarrow> u32 \<times> u32 \<times> Cipher" where
  "fill_p [] s = s"
| "fill_p (i # is) (l, r, c) =
     (let lr = encryptBlock l r c
      in fill_p is (fst lr, snd lr, c\<lparr>c_p := (c_p c)(i := fst lr, i + 1 := snd lr)\<rparr>))"

fun fill_s :: "(((byte \<Rightarrow> u32) \<Rightarrow> byte \<Rightarrow> u32) \<Rightarrow> Cipher \<Rightarrow> Cipher) \<Rightarrow> nat list
    \<Rightarrow> u32 \<times> u32 \<times> Cipher \<Rightarrow> u32 \<times> u32 \<times> Cipher" where
  "fill_s upd [] s = s"
| "fill_s upd (i # is) (l, r, c) =
     (let lr = encryptBlock l r c
      in fill_s upd is (fst lr, snd lr,
           upd (\<lambda>t. t(word_of_nat i := fst lr, word_of_nat (i + 1) := snd lr)) c))"

definition evens :: "nat \<Rightarrow> nat list" where
  "evens n = map (\<lambda>i. 2 * i) [0..<n div 2]"

definition ExpandKey :: "string \<Rightarrow> Cipher \<Rightarrow> Cipher" where
  "ExpandKey key c =
     (let c1 = c\<lparr>c_p := (\<lambda>i. if i < 18 then c_p c i XOR key_word key i else c_p c i)\<rparr>
      in snd (snd
           (fill_s c_s3_update (evens 256)
             (fill_s c_s2_update (evens 256)
               (fill_s c_s1_update (evens 256)
                 (fill_s c_s0_update (evens 256)
                   (fill_p (evens 18) (0, 0, c1))))))))"

text \<open>\<^verbatim>\<open>NewCipher\<close>, over the initial tables.\<close>

definition NewCipher :: "Cipher \<Rightarrow> string \<Rightarrow> Cipher res" where
  "NewCipher tables key =
     (if length key < 1 \<or> length key > 56
      then Err (ErrText (''crypto/blowfish: invalid key size '' @ Itoa (int (length key))))
      else Ok (ExpandKey key tables))"

lemma NewCipher_Ok: "NewCipher t key = Ok c \<Longrightarrow> 1 \<le> length key \<and> length key \<le> 56"
  by (auto simp: NewCipher_def Suc_le_eq split: if_splits)

end
