(* ===== verification/Encrypt.thy ===== *)
theory Encrypt
  imports Blowfish
begin

text \<open>
  \<^verbatim>\<open>encrypt/encrypt.go\<close>: encryption of configuration contents with Blowfish in CBC mode.
  The plain text is padded with zero bytes to a multiple of the block size (a whole block
  when it is already one), and decryption strips every trailing zero byte.  The mode
  (\<^verbatim>\<open>crypto/cipher\<close>) is modelled over any block cipher that satisfies the locale
  \<open>block_cipher\<close>, which Blowfish does.
\<close>

definition ENC_IV_SIZE :: nat where
  "ENC_IV_SIZE = 8"

abbreviation BlockSize :: nat where
  "BlockSize \<equiv> 8"

abbreviation NUL :: char where
  "NUL \<equiv> CHR 0x00"

record Encryptor =
  IV :: bytes
  Key :: bytes
  enc_Mode :: string
  enc_Cipher :: string

section \<open>CBC mode\<close>

function cbc_encrypt :: "(string \<Rightarrow> string) \<Rightarrow> string \<Rightarrow> string \<Rightarrow> string" where
  "cbc_encrypt E iv p =
     (if p = [] then []
      else let c = E (xor_str iv (take BlockSize p))
           in c @ cbc_encrypt E c (drop BlockSize p))"
  by pat_completeness auto
termination
  by (relation "measure (length \<circ> snd \<circ> snd)") auto

function cbc_decrypt :: "(string \<Rightarrow> string) \<Rightarrow> string \<Rightarrow> string \<Rightarrow> string" where
  "cbc_decrypt D iv c =
     (if c = [] then []
      else xor_str iv (D (take BlockSize c)) @ cbc_decrypt D (take BlockSize c) (drop BlockSize c))"
  by pat_completeness auto
termination
  by (relation "measure (length \<circ> snd \<circ> snd)") auto

declare cbc_encrypt.simps [simp del] cbc_decrypt.simps [simp del]

text \<open>
  \<^verbatim>\<open>NewCBCEncrypter\<close> and \<^verbatim>\<open>CryptBlocks\<close> panic on an IV of the wrong size and on an input
  that is not whole blocks.
\<close>

definition CryptBlocks :: "(string \<Rightarrow> string \<Rightarrow> string) \<Rightarrow> string \<Rightarrow> string \<Rightarrow> string res" where
  "CryptBlocks mode iv src =
     (if length iv \<noteq> BlockSize then Panic ''cipher.NewCBC: IV length must equal block size''
      else if length src mod BlockSize \<noteq> 0 then Panic ''crypto/cipher: input not full blocks''
      else Ok (mode iv src))"

text \<open>The contract between the mode and the cipher under one key.\<close>

locale block_cipher =
  fixes E D :: "string \<Rightarrow> string"
  assumes dec_enc: "length b = BlockSize \<Longrightarrow> D (E b) = b"
    and length_enc: "length b = BlockSize \<Longrightarrow> length (E b) = BlockSize"
begin

lemma cbc_round:
  assumes "length iv = BlockSize" and "length p mod BlockSize = 0"
  shows "length (cbc_encrypt E iv p) = length p \<and> cbc_decrypt D iv (cbc_encrypt E iv p) = p"
  using assms
proof (induction "length p" arbitrary: iv p rule: less_induct)
  case less
  show ?case
  proof (cases "p = []")
    case True
    then show ?thesis by (simp add: cbc_encrypt.simps cbc_decrypt.simps)
  next
    case False
    with less.prems(2) have len: "BlockSize \<le> length p" by (cases "length p < BlockSize") auto
    define b where "b = xor_str iv (take BlockSize p)"
    define q where "q = drop BlockSize p"
    have b: "length b = BlockSize" using less.prems(1) len by (simp add: b_def)
    have q: "length q < length p" "length q mod BlockSize = 0"
      using len less.prems(2) by (simp_all add: q_def le_mod_geq)
    note IH = less.hyps [OF q(1) length_enc [OF b] q(2)]
    have enc: "cbc_encrypt E iv p = E b @ cbc_encrypt E (E b) q"
      using False by (simp add: cbc_encrypt.simps [of E iv p] b_def q_def Let_def)
    have "xor_str iv (D (E b)) = take BlockSize p"
      using less.prems(1) by (simp add: dec_enc [OF b]) (simp add: b_def xor_str_cancel)
    then have "cbc_decrypt D iv (E b @ cbc_encrypt E (E b) q) = take BlockSize p @ q"
      using length_enc [OF b] IH by (subst cbc_decrypt.simps) auto
    then show ?thesis
      using enc IH length_enc [OF b] len by (simp add: q_def)
  qed
qed

lemmas length_cbc_encrypt = cbc_round [THEN conjunct1]
lemmas cbc_decrypt_encrypt = cbc_round [THEN conjunct2]

end

interpretation blowfish: block_cipher "BlockEncrypt c" "BlockDecrypt c" for c
  by unfold_locales (simp_all add: BlockDecrypt_BlockEncrypt)

section \<open>The client's encryptor\<close>

definition pad_len :: "nat \<Rightarrow> nat" where
  "pad_len textLen = BlockSize - textLen mod BlockSize"

definition Encrypt :: "Cipher \<Rightarrow> Encryptor \<Rightarrow> bytes \<Rightarrow> bytes res" where
  "Encrypt tables e plainText =
     res_bind (NewCipher tables (Key e)) (\<lambda>blockCipher.
       let modLen = pad_len (length plainText)
       in CryptBlocks (cbc_encrypt (BlockEncrypt blockCipher)) (IV e)
            (plainText @ replicate modLen NUL))"

text \<open>The loop that lowers \<^verbatim>\<open>textLen\<close> while the last byte is zero.\<close>

fun strip_zeros :: "bytes \<Rightarrow> nat \<Rightarrow> nat" where
  "strip_zeros plainText 0 = 0"
| "strip_zeros plainText (Suc n) =
     (if plainText ! n \<noteq> NUL then Suc n else strip_zeros plainText n)"

definition Decrypt :: "Cipher \<Rightarrow> Encryptor \<Rightarrow> bytes \<Rightarrow> bytes res" where
  "Decrypt tables e encryptedText =
     res_bind (NewCipher tables (Key e)) (\<lambda>blockCipher.
       res_bind (CryptBlocks (cbc_decrypt (BlockDecrypt blockCipher)) (IV e) encryptedText)
         (\<lambda>plainText. Ok (take (strip_zeros plainText (length plainText)) plainText)))"

definition wf_encryptor :: "Encryptor \<Rightarrow> bool" where
  "wf_encryptor e \<longleftrightarrow> length (IV e) = ENC_IV_SIZE \<and> 1 \<le> length (Key e) \<and> length (Key e) \<le> 56"

lemma pad_len_bounds: "1 \<le> pad_len n" "pad_len n \<le> BlockSize"
  by (simp_all add: pad_len_def Suc_le_eq)

lemma pad_len_mod: "(n + pad_len n) mod BlockSize = 0"
proof -
  have "n + pad_len n = (n div BlockSize) * BlockSize + BlockSize"
    unfolding pad_len_def by presburger
  then show ?thesis by simp
qed

lemma take_strip_zeros: "take (strip_zeros s (length s)) s = TrimRight s [NUL]"
proof (induction s rule: rev_induct)
  case Nil
  then show ?case by (simp add: TrimRight_def)
next
  case (snoc x xs)
  have cong: "strip_zeros (xs @ [x]) n = strip_zeros xs n" if "n \<le> length xs" for n
    using that by (induction n) (simp_all add: nth_append)
  have le: "strip_zeros xs n \<le> n" for n by (induction n) auto
  show ?case
  proof (cases "x = NUL")
    case True
    then show ?thesis using snoc.IH cong [of "length xs"] le [of "length xs"]
      by (simp add: TrimRight_append_cut)
  next
    case False
    then show ?thesis by (simp add: TrimRight_id)
  qed
qed

lemma NewCipher_wf: "wf_encryptor e \<Longrightarrow> NewCipher t (Key e) = Ok (ExpandKey (Key e) t)"
  by (auto simp: wf_encryptor_def NewCipher_def)

lemma Encrypt_wf:
  assumes "wf_encryptor e"
  shows "Encrypt t e p = Ok (cbc_encrypt (BlockEncrypt (ExpandKey (Key e) t)) (IV e)
           (p @ replicate (pad_len (length p)) NUL))"
  using assms pad_len_mod [of "length p"]
  by (simp add: Encrypt_def NewCipher_wf CryptBlocks_def wf_encryptor_def ENC_IV_SIZE_def)

lemma Decrypt_Encrypt_TrimRight:
  assumes wf: "wf_encryptor e" and enc: "Encrypt t e p = Ok c"
  shows "Decrypt t e c = Ok (TrimRight p [NUL])"
proof -
  define k where "k = ExpandKey (Key e) t"
  define q where "q = p @ replicate (pad_len (length p)) NUL"
  have iv: "length (IV e) = BlockSize" using wf by (simp add: wf_encryptor_def ENC_IV_SIZE_def)
  have len: "length q mod BlockSize = 0" using pad_len_mod by (simp add: q_def)
  have c: "c = cbc_encrypt (BlockEncrypt k) (IV e) q"
    using Encrypt_wf [OF wf, of t p] enc by (simp add: k_def q_def)
  have "cbc_decrypt (BlockDecrypt k) (IV e) c = q" "length c = length q"
    unfolding c by (simp_all add: blowfish.cbc_decrypt_encrypt blowfish.length_cbc_encrypt iv len)
  then have "Decrypt t e c = Ok (take (strip_zeros q (length q)) q)"
    using wf iv len by (simp add: Decrypt_def NewCipher_wf CryptBlocks_def k_def)
  also have "\<dots> = Ok (TrimRight q [NUL])" by (simp only: take_strip_zeros)
  also have "TrimRight q [NUL] = TrimRight p [NUL]"
    unfolding q_def by (rule TrimRight_append_cut) auto
  finally show ?thesis .
qed

lemma Encrypt_length:
  assumes "wf_encryptor e" and "Encrypt t e p = Ok c"
  shows "length c = length p + pad_len (length p)"
proof -
  have "c = cbc_encrypt (BlockEncrypt (ExpandKey (Key e) t)) (IV e)
      (p @ replicate (pad_len (length p)) NUL)"
    using Encrypt_wf [OF assms(1), of t p] assms(2) by simp
  then show ?thesis
    using assms(1) pad_len_mod [of "length p"]
    by (simp add: blowfish.length_cbc_encrypt wf_encryptor_def ENC_IV_SIZE_def)
qed

section \<open>What the encryptor promises\<close>

text \<open>C18: under a valid key and IV every plain text is encrypted to a cipher text of whole
  blocks, longer than the plain text by one to eight bytes, and decrypting that cipher text
  gives the plain text back without its trailing zero bytes.\<close>

theorem Encrypt_roundtrip:
  assumes "wf_encryptor e"
  shows "\<exists>c. Encrypt t e p = Ok c \<and> Decrypt t e c = Ok (TrimRight p [NUL])
    \<and> length c mod 8 = 0 \<and> length p < length c \<and> length c \<le> length p + 8"
proof -
  obtain c where c: "Encrypt t e p = Ok c" using Encrypt_wf [OF assms] by blast
  with Encrypt_length [OF assms c] pad_len_bounds [of "length p"] pad_len_mod [of "length p"]
  show ?thesis by (intro exI [of _ c]) (simp add: Decrypt_Encrypt_TrimRight [OF assms])
qed

definition demo_encryptor :: Encryptor where
  "demo_encryptor = \<lparr>IV = ''JM-20150'', Key = ''dove-key'', enc_Mode = ''cbc'', enc_Cipher = ''blowfish''\<rparr>"

theorem Encrypt_roundtrip_witness:
  "\<forall>t. \<exists>c. Encrypt t demo_encryptor ''{}'' = Ok c \<and> Decrypt t demo_encryptor c = Ok ''{}''"
proof
  fix t
  have "wf_encryptor demo_encryptor" "TrimRight ''{}'' [NUL] = ''{}''" by code_simp+
  then show "\<exists>c. Encrypt t demo_encryptor ''{}'' = Ok c \<and> Decrypt t demo_encryptor c = Ok ''{}''"
    using Encrypt_roundtrip [of demo_encryptor t "''{}''"] by metis
qed

text \<open>\<^verbatim>\<open>Decrypt\<close> of any text: a key of a length that Blowfish does not accept is an error; with
  a valid key and IV, a text that is not whole blocks stops the process with a panic, and every
  other text is decrypted to a text that does not end in a zero byte.\<close>

theorem Decrypt_outcomes:
  "(length (Key e) < 1 \<or> 56 < length (Key e) \<longrightarrow> (\<exists>x. Decrypt t e c = Err x))
   \<and> (wf_encryptor e \<and> length c mod 8 \<noteq> 0 \<longrightarrow> is_panic (Decrypt t e c))
   \<and> (wf_encryptor e \<and> length c mod 8 = 0 \<longrightarrow>
        (\<exists>p. Decrypt t e c = Ok p \<and> (p = [] \<or> last p \<noteq> NUL)))"
proof (intro conjI impI)
  assume "length (Key e) < 1 \<or> 56 < length (Key e)"
  then show "\<exists>x. Decrypt t e c = Err x" by (auto simp: Decrypt_def NewCipher_def)
next
  assume "wf_encryptor e \<and> length c mod 8 \<noteq> 0"
  then show "is_panic (Decrypt t e c)"
    by (auto simp: Decrypt_def NewCipher_wf CryptBlocks_def)
next
  assume "wf_encryptor e \<and> length c mod 8 = 0"
  then obtain q where "Decrypt t e c = Ok (TrimRight q [NUL])"
    by (auto simp: Decrypt_def NewCipher_wf CryptBlocks_def wf_encryptor_def ENC_IV_SIZE_def
        take_strip_zeros)
  then show "\<exists>p. Decrypt t e c = Ok p \<and> (p = [] \<or> last p \<noteq> NUL)"
    using TrimRight_last [of q "[NUL]"] by auto
qed

theorem Decrypt_outcomes_witness:
  "\<forall>t. is_panic (Decrypt t demo_encryptor ''abc'')"
proof
  fix t
  have "wf_encryptor demo_encryptor \<and> length ''abc'' mod 8 \<noteq> (0::nat)" by code_simp
  then show "is_panic (Decrypt t demo_encryptor ''abc'')"
    using Decrypt_outcomes [of demo_encryptor t "''abc''"] by blast
qed

end
