(* ===== verification/Util.thy ===== *)
theory Util
  imports GoStrings
begin

text \<open>
  \<^verbatim>\<open>util/utils.go\<close>: helpers on string slices, maps and commands.
\<close>

section \<open>String slices\<close>

text \<open>The inner loop of \<^verbatim>\<open>StringSliceUnique\<close>, \<^verbatim>\<open>InArrayString\<close> and their copies: a linear search.\<close>

fun InArrayString :: "'a list \<Rightarrow> 'a \<Rightarrow> bool" where
  "InArrayString [] sep = False"
| "InArrayString (s # ss) sep = (if s = sep then True else InArrayString ss sep)"

lemma InArrayString_iff [simp]: "InArrayString xs x \<longleftrightarrow> x \<in> set xs"
  by (induction xs) auto

text \<open>Appending what is not there yet, keeping the order: the loop body of every de-duplication.\<close>

definition add_unique :: "'a list \<Rightarrow> 'a \<Rightarrow> 'a list" where
  "add_unique xs x = (if InArrayString xs x then xs else xs @ [x])"

definition StringSliceUnique :: "'a list \<Rightarrow> 'a list" where
  "StringSliceUnique s = foldl add_unique [] s"

lemma add_unique_set [simp]: "set (add_unique xs x) = insert x (set xs)"
  by (auto simp: add_unique_def)

lemma add_unique_distinct: "distinct xs \<Longrightarrow> distinct (add_unique xs x)"
  by (simp add: add_unique_def)

lemma foldl_add_unique_set [simp]: "set (foldl add_unique xs ys) = set xs \<union> set ys"
  by (induction ys arbitrary: xs) auto

lemma foldl_add_unique_distinct: "distinct xs \<Longrightarrow> distinct (foldl add_unique xs ys)"
  by (induction ys arbitrary: xs) (auto simp: add_unique_distinct)

lemma foldl_add_unique_prefix: "prefix xs (foldl add_unique xs ys)"
proof (induction ys arbitrary: xs)
  case Nil
  then show ?case by simp
next
  case (Cons y ys)
  have "prefix xs (add_unique xs y)" by (simp add: add_unique_def)
  also have "prefix (add_unique xs y) (foldl add_unique xs (y # ys))" using Cons.IH by simp
  finally show ?case .
qed

lemma foldl_add_unique_id: "distinct (xs @ ys) \<Longrightarrow> foldl add_unique xs ys = xs @ ys"
  by (induction ys arbitrary: xs) (auto simp: add_unique_def)

lemma StringSliceUnique_set [simp]: "set (StringSliceUnique s) = set s"
  by (simp add: StringSliceUnique_def)

lemma StringSliceUnique_distinct [simp]: "distinct (StringSliceUnique s)"
  by (simp add: StringSliceUnique_def foldl_add_unique_distinct)

text \<open>\<^verbatim>\<open>StringSplit\<close>: the empty string gives no piece at all.\<close>

definition StringSplit :: "string \<Rightarrow> string \<Rightarrow> string list" where
  "StringSplit str sep =
     (let raw = Split str sep in if length raw = 1 \<and> raw ! 0 = [] then [] else raw)"

lemma StringSplit_empty: "sep \<noteq> [] \<Longrightarrow> StringSplit [] sep = []"
  by (simp add: StringSplit_def Split.simps)

lemma Join_StringSplit: "sep \<noteq> [] \<Longrightarrow> Join (StringSplit str sep) sep = str"
proof -
  assume sep: "sep \<noteq> []"
  show ?thesis
  proof (cases "length (Split str sep) = 1 \<and> Split str sep ! 0 = []")
    case True
    then have "Split str sep = [[]]" by (cases "Split str sep") auto
    then have "str = []" using Join_Split [OF sep, of str] by simp
    with sep show ?thesis by (simp add: StringSplit_empty)
  next
    case False
    then have "StringSplit str sep = Split str sep" by (auto simp: StringSplit_def Let_def)
    then show ?thesis using Join_Split [OF sep] by simp
  qed
qed

section \<open>Deleting from a slice\<close>

text \<open>
  A Go slice is a window \<open>(offset, length)\<close> of a backing array that other slices may
  share.  \<^verbatim>\<open>DelInArrayString\<close> re-slices at index 0 and otherwise shifts the tail down in
  place, through \<^verbatim>\<open>append\<close>: the array it returns is the one every alias sees.  The index is that of a
  range loop in every call; a negative one, which Go would refuse with a panic, has no counterpart.
\<close>

type_synonym slice = "nat \<times> nat"

definition slice_list :: "'a list \<Rightarrow> slice \<Rightarrow> 'a list" where
  "slice_list arr s = take (snd s) (drop (fst s) arr)"

definition slice_in :: "'a list \<Rightarrow> slice \<Rightarrow> bool" where
  "slice_in arr s \<longleftrightarrow> fst s + snd s \<le> length arr"

definition DelInArrayString :: "'a list \<Rightarrow> slice \<Rightarrow> nat \<Rightarrow> 'a list \<times> slice" where
  "DelInArrayString arr s index =
     (let off = fst s; l = snd s in
      if l < 1 \<or> index \<ge> l then (arr, s)
      else if index = 0 then (arr, (off + 1, l - 1))
      else (take (off + index) arr
              @ take (l - index - 1) (drop (off + index + 1) arr)
              @ drop (off + l - 1) arr,
            (off, l - 1)))"

lemma slice_in_DelInArrayString:
  assumes "slice_in arr s"
  shows "slice_in (fst (DelInArrayString arr s i)) (snd (DelInArrayString arr s i))"
    and "length (fst (DelInArrayString arr s i)) = length arr"
  using assms by (auto simp: DelInArrayString_def slice_in_def Let_def)

lemma slice_list_DelInArrayString:
  assumes "slice_in arr s" and "i < snd s"
  shows "slice_list (fst (DelInArrayString arr s i)) (snd (DelInArrayString arr s i))
         = take i (slice_list arr s) @ drop (Suc i) (slice_list arr s)"
proof (cases "i = 0")
  case True
  with assms show ?thesis
    by (cases s) (simp add: DelInArrayString_def slice_list_def drop_take Let_def)
next
  case False
  obtain off l where s: "s = (off, l)" by (cases s)
  with assms have len: "off + l \<le> length arr" "i < l" by (simp_all add: slice_in_def)
  define mid where "mid = take (l - i - 1) (drop (off + i + 1) arr)"
  have "slice_list (fst (DelInArrayString arr s i)) (snd (DelInArrayString arr s i))
      = take (l - 1) (drop off (take (off + i) arr @ mid @ drop (off + l - 1) arr))"
    using False len by (simp add: DelInArrayString_def slice_list_def s mid_def Let_def)
  also have "\<dots> = drop off (take (off + i) arr) @ mid"
    using len by (simp add: mid_def)
  also have "drop off (take (off + i) arr) = take i (take l (drop off arr))"
    using len by (simp add: drop_take min_def)
  also have "mid = drop (Suc i) (take l (drop off arr))"
    using len by (simp add: mid_def drop_take add.commute)
  finally show ?thesis by (simp add: slice_list_def s)
qed

lemma DelInArrayString_outside:
  assumes "slice_in arr s"
  shows "take (fst s) (fst (DelInArrayString arr s i)) = take (fst s) arr
    \<and> drop (fst s + snd s) (fst (DelInArrayString arr s i)) = drop (fst s + snd s) arr"
proof -
  obtain off l where s: "s = (off, l)" by (cases s)
  have len: "length (fst (DelInArrayString arr s i)) = length arr"
    using slice_in_DelInArrayString(2) [OF assms] .
  have "fst (DelInArrayString arr s i) ! j = arr ! j" if "j < off \<or> off + l \<le> j" "j < length arr" for j
    using that assms
    by (auto simp: s DelInArrayString_def slice_in_def Let_def nth_append min_def)
  with len assms show ?thesis
    by (auto simp: s slice_in_def intro!: nth_equalityI)
qed

text \<open>C35: deleting index \<open>i\<close> of a slice removes exactly that element from the window and keeps the
  order of the others; the elements of the backing array outside the window are untouched; and an
  index out of range changes nothing.\<close>

theorem DelInArrayString_correct:
  assumes "slice_in arr s"
  shows "(let (arr', s') = DelInArrayString arr s i in
      slice_list arr' s' = (if i < snd s then take i (slice_list arr s) @ drop (Suc i) (slice_list arr s)
                            else slice_list arr s)
      \<and> slice_in arr' s' \<and> take (fst s) arr' = take (fst s) arr
      \<and> drop (fst s + snd s) arr' = drop (fst s + snd s) arr)"
proof (cases "i < snd s")
  case True
  then show ?thesis
    using slice_list_DelInArrayString [OF assms True] slice_in_DelInArrayString(1) [OF assms]
      DelInArrayString_outside [OF assms] by (simp add: case_prod_beta Let_def)
next
  case False
  then have "DelInArrayString arr s i = (arr, s)" by (simp add: DelInArrayString_def Let_def)
  with False assms show ?thesis by simp
qed

theorem DelInArrayString_correct_witness:
  "slice_list (fst (DelInArrayString [''x'', ''a'', ''b'', ''c''] (1, 3) 1))
     (snd (DelInArrayString [''x'', ''a'', ''b'', ''c''] (1, 3) 1)) = [''a'', ''c'']"
  using DelInArrayString_correct [of "[''x'', ''a'', ''b'', ''c'']" "(1, 3)" 1]
  by (simp add: slice_in_def slice_list_def case_prod_beta Let_def numeral_eq_Suc)

lemma subseq_snoc: "subseq xs ys \<Longrightarrow> subseq (xs @ [y]) (ys @ [y])"
  by (simp add: list_emb_append_mono)

lemma add_unique_subseq: "subseq xs ys \<Longrightarrow> subseq (add_unique xs y) (ys @ [y])"
  by (auto simp: add_unique_def subseq_snoc intro: list_emb_append2 subseq_order.order_trans)

text \<open>\<^verbatim>\<open>StringSliceUnique\<close> keeps the elements of a slice, each once, in their order, and is
  idempotent.\<close>

lemma StringSliceUnique_correct:
  "distinct (StringSliceUnique s) \<and> set (StringSliceUnique s) = set s
   \<and> subseq (StringSliceUnique s) s \<and> StringSliceUnique (StringSliceUnique s) = StringSliceUnique s"
proof -
  have "subseq (foldl add_unique [] s) s"
  proof (induction s rule: rev_induct)
    case (snoc y s)
    then show ?case using add_unique_subseq by simp
  qed simp
  moreover have "foldl add_unique [] (StringSliceUnique s) = StringSliceUnique s"
    using foldl_add_unique_id [of "[]" "StringSliceUnique s"] by simp
  ultimately show ?thesis by (simp add: StringSliceUnique_def foldl_add_unique_distinct)
qed

section \<open>Maps and commands\<close>

definition ExistsInMap :: "('k, 'v) gomap \<Rightarrow> 'k \<Rightarrow> bool" where
  [simp]: "ExistsInMap sMap index \<longleftrightarrow> mget sMap index \<noteq> None"

text \<open>
  \<open>exec\<close> gives what a command writes, in order, on its two streams (\<^term>\<open>True\<close> for the standard output), and the error of
  running it.  Both streams go to one buffer.
\<close>

definition ExtCall :: "(string \<Rightarrow> string list \<Rightarrow> (bool \<times> bytes) list \<times> goerr option) \<Rightarrow> string \<Rightarrow> string list \<Rightarrow> bytes \<times> goerr option" where
  "ExtCall exec filename args = (case exec filename args of (writes, err) \<Rightarrow> (concat (map snd writes), err))"

end
