(* ===== verification/GoFmt.thy ===== *)
theory GoFmt
  imports GoStrings
begin

text \<open>
  Runes and quoted strings: the parts of \<^verbatim>\<open>unicode/utf8\<close> and \<^verbatim>\<open>strconv\<close> behind the verb \<^verbatim>\<open>%q\<close>.
\<close>

section \<open>Quoted strings\<close>

text \<open>
  \<^verbatim>\<open>utf8.DecodeRuneInString\<close> on a string whose first byte is at least \<open>0x80\<close>: the rune and
  its width, or \<open>None\<close> for an invalid byte (the error rune of width 1).
\<close>

definition cont_byte :: "nat \<Rightarrow> bool" where
  "cont_byte b \<longleftrightarrow> 0x80 \<le> b \<and> b \<le> 0xBF"

definition decode_rune :: "nat list \<Rightarrow> (nat \<times> nat) option" where
  "decode_rune bs =
     (case bs of
        b0 # b1 # rest \<Rightarrow>
          if 0xC2 \<le> b0 \<and> b0 \<le> 0xDF then
            (if cont_byte b1 then Some ((b0 - 0xC0) * 64 + (b1 - 0x80), 2) else None)
          else if 0xE0 \<le> b0 \<and> b0 \<le> 0xEF then
            (case rest of
               b2 # _ \<Rightarrow>
                 if cont_byte b1 \<and> cont_byte b2 \<and> (b0 = 0xE0 \<longrightarrow> 0xA0 \<le> b1)
                    \<and> (b0 = 0xED \<longrightarrow> b1 \<le> 0x9F)
                 then Some ((b0 - 0xE0) * 4096 + (b1 - 0x80) * 64 + (b2 - 0x80), 3)
                 else None
             | [] \<Rightarrow> None)
          else if 0xF0 \<le> b0 \<and> b0 \<le> 0xF4 then
            (case rest of
               b2 # b3 # _ \<Rightarrow>
                 if cont_byte b1 \<and> cont_byte b2 \<and> cont_byte b3 \<and> (b0 = 0xF0 \<longrightarrow> 0x90 \<le> b1)
                    \<and> (b0 = 0xF4 \<longrightarrow> b1 \<le> 0x8F)
                 then Some ((b0 - 0xF0) * 262144 + (b1 - 0x80) * 4096
                            + (b2 - 0x80) * 64 + (b3 - 0x80), 4)
                 else None
             | _ \<Rightarrow> None)
          else None
      | _ \<Rightarrow> None)"

definition hexdigit :: "nat \<Rightarrow> char" where
  "hexdigit d = (if d < 10 then char_of (48 + d) else char_of (87 + d))"

fun hex :: "nat \<Rightarrow> nat \<Rightarrow> string" where
  "hex 0 n = []"
| "hex (Suc k) n = hex k (n div 16) @ [hexdigit (n mod 16)]"

text \<open>
  How \<^verbatim>\<open>strconv.Quote\<close> (the verb \<^verbatim>\<open>%q\<close>) writes an ASCII byte: \<open>bs\<close> is the backslash.
\<close>

abbreviation bs :: char where
  "bs \<equiv> CHR 0x5C"

definition quote_ascii :: "nat \<Rightarrow> string" where
  "quote_ascii n =
     (if n = 34 then [bs, CHR 0x22]
      else if n = 92 then [bs, bs]
      else if 32 \<le> n \<and> n < 127 then [char_of n]
      else if n = 7 then [bs, CHR ''a'']
      else if n = 8 then [bs, CHR ''b'']
      else if n = 12 then [bs, CHR ''f'']
      else if n = 10 then [bs, CHR ''n'']
      else if n = 13 then [bs, CHR ''r'']
      else if n = 9 then [bs, CHR ''t'']
      else if n = 11 then [bs, CHR ''v'']
      else if n < 32 then [bs, CHR ''x''] @ hex 2 n
      else [bs, CHR ''u''] @ hex 4 n)"

function quote_body :: "(nat \<Rightarrow> bool) \<Rightarrow> string \<Rightarrow> string" where
  "quote_body pr s =
     (case s of
        [] \<Rightarrow> []
      | c # cs \<Rightarrow>
          (let n = of_char c :: nat in
           if n < 0x80 then quote_ascii n @ quote_body pr cs
           else case decode_rune (map of_char s) of
                  None \<Rightarrow> [bs, CHR ''x''] @ hex 2 n @ quote_body pr cs
                | Some (r, w) \<Rightarrow>
                    (if pr r then take w s
                     else if r < 0x10000 then [bs, CHR ''u''] @ hex 4 r
                     else [bs, CHR ''U''] @ hex 8 r) @ quote_body pr (drop (max 1 w) s)))"
  by pat_completeness auto
termination
  by (relation "measure (length \<circ> snd)") auto

declare quote_body.simps [simp del]

end
