(* ===== verification/Toml.thy ===== *)
theory Toml
  imports Util GoFmt
begin

text \<open>
  TOML trees (\<^verbatim>\<open>vendor/git.oschina.net/chaos.su/go-toml\<close>: the type \<^verbatim>\<open>TomlTree\<close> with its
  accessors \<^verbatim>\<open>Keys\<close>, \<^verbatim>\<open>Get\<close> and \<^verbatim>\<open>GetPath\<close>) and their rendering as JSON text
  (\<^verbatim>\<open>util/utils.go\<close>: \<^verbatim>\<open>JsonEncode\<close>, \<^verbatim>\<open>TraverseTomlAsJson\<close>, \<^verbatim>\<open>ListToJson\<close>).

  The parser \<^verbatim>\<open>toml.Load\<close> is an argument of the functions that call it.  A value the
  parser produces that is neither a table, an array, a string, an integer nor a boolean
  (a float, a date) is \<open>TOther v\<close>; how \<^verbatim>\<open>fmt\<close> prints it, and which non-ASCII runes it
  takes for printable, are fields of a record \<open>fmtenv\<close>.
\<close>

datatype 'o toml =
    TTree (orderedkeys: "string list") (tvalues: "(string \<times> 'o toml) list")
  | TTrees "'o toml list"
  | TStr string
  | TInt int
  | TBool bool
  | TArr "'o toml list"
  | TOther 'o

definition subvalues :: "'o toml \<Rightarrow> (string \<times> 'o toml) list" where
  "subvalues t = (case t of TTree ks vs \<Rightarrow> vs | _ \<Rightarrow> [])"

definition Keys :: "'o toml \<Rightarrow> string list" where
  "Keys t = (case t of TTree ks vs \<Rightarrow> ks | _ \<Rightarrow> [])"

fun GetPath :: "'o toml \<Rightarrow> string list \<Rightarrow> 'o toml option" where
  "GetPath t [] = Some t"
| "GetPath t [k] = mget (subvalues t) k"
| "GetPath t (k # k' # ks) =
     (case mget (subvalues t) k of
        None \<Rightarrow> None
      | Some node \<Rightarrow>
          (case node of
             TTree _ _ \<Rightarrow> GetPath node (k' # ks)
           | TTrees ts \<Rightarrow> (if ts = [] then None else GetPath (last ts) (k' # ks))
           | _ \<Rightarrow> None))"

definition Get :: "'o toml \<Rightarrow> string \<Rightarrow> 'o toml option" where
  "Get t key =
     (if key = [] then Some t
      else case mget (subvalues t) key of
             Some v \<Rightarrow> Some v
           | None \<Rightarrow> GetPath t (Split key ''.''))"

record 'o fmtenv =
  isPrint :: "nat \<Rightarrow> bool"
  fmt_other :: "'o \<Rightarrow> string"
  fmt_ptr :: "'o toml \<Rightarrow> string"

definition quote :: "'o fmtenv \<Rightarrow> string \<Rightarrow> string" where
  "quote fe s = CHR 0x22 # quote_body (isPrint fe) s @ [CHR 0x22]"

section \<open>JSON text\<close>

text \<open>The verb \<^verbatim>\<open>%v\<close> on the values that the type switches leave to their default branch.\<close>

definition fmt_v :: "'o fmtenv \<Rightarrow> 'o toml \<Rightarrow> string" where
  "fmt_v fe v =
     (case v of
        TInt i \<Rightarrow> Itoa i
      | TBool b \<Rightarrow> (if b then ''true'' else ''false'')
      | TOther x \<Rightarrow> fmt_other fe x
      | TStr s \<Rightarrow> s
      | _ \<Rightarrow> fmt_ptr fe v)"

function ListToJson :: "'o fmtenv \<Rightarrow> 'o toml list \<Rightarrow> string" where
  "ListToJson fe xs =
     ''['' @ Join (map (\<lambda>v. case v of
                              TArr ys \<Rightarrow> ListToJson fe ys
                            | TStr s \<Rightarrow> quote fe s
                            | _ \<Rightarrow> fmt_v fe v) xs) '','' @ '']''"
  by pat_completeness auto
termination
proof (relation "measure (size_list size \<circ> snd)")
  fix fe :: "'o fmtenv" and xs ys :: "'o toml list" and v
  assume "v \<in> set xs" and "v = TArr ys"
  then have "size (TArr ys) \<le> size_list size xs"
    by (metis size_list_estimation' order_refl)
  then show "((fe, ys), (fe, xs)) \<in> measure (size_list size \<circ> snd)" by simp
qed simp

declare ListToJson.simps [simp del]

text \<open>
  The traversal follows \<^verbatim>\<open>t.Get(k)\<close> for the keys of the tree.  The recursion has no bound in
  the source: a tree with an empty key would be its own child.  \<open>fuel\<close> bounds its depth, and
  \<open>None\<close> stands for not returning.
\<close>

fun opt_seq :: "'a option list \<Rightarrow> 'a list option" where
  "opt_seq [] = Some []"
| "opt_seq (x # xs) =
     (case x of None \<Rightarrow> None | Some v \<Rightarrow> map_option (Cons v) (opt_seq xs))"

fun TraverseTomlAsJson :: "nat \<Rightarrow> 'o fmtenv \<Rightarrow> 'o toml \<Rightarrow> string option" where
  "TraverseTomlAsJson 0 fe t = None"
| "TraverseTomlAsJson (Suc fuel) fe t =
     map_option (\<lambda>parts. ''{'' @ Join parts '','' @ ''}'')
       (opt_seq (map (\<lambda>k.
          map_option (\<lambda>valueB. quote fe k @ '':'' @ valueB)
            (case Get t k of
               None \<Rightarrow> Some ''null''
             | Some v \<Rightarrow>
                 (case v of
                    TTree _ _ \<Rightarrow> TraverseTomlAsJson fuel fe v
                  | TStr s \<Rightarrow> Some (quote fe s)
                  | TArr xs \<Rightarrow> Some (ListToJson fe xs)
                  | _ \<Rightarrow> Some (fmt_v fe v)))) (Keys t)))"

definition JsonEncode :: "nat \<Rightarrow> 'o fmtenv \<Rightarrow> 'o toml option \<Rightarrow> string option" where
  "JsonEncode fuel fe v =
     (case v of
        None \<Rightarrow> Some ''null''
      | Some w \<Rightarrow>
          (case w of
             TTree _ _ \<Rightarrow> TraverseTomlAsJson fuel fe w
           | TStr s \<Rightarrow> Some (quote fe s)
           | TArr xs \<Rightarrow> Some (ListToJson fe xs)
           | _ \<Rightarrow> Some (fmt_v fe w)))"

section \<open>The traversal returns\<close>

text \<open>What the parser guarantees: no table lists an empty key.\<close>

function wf_toml :: "'o toml \<Rightarrow> bool" where
  "wf_toml t =
     (case t of
        TTree ks vs \<Rightarrow> [] \<notin> set ks \<and> (\<forall>v \<in> set (map snd vs). wf_toml v)
      | TTrees ts \<Rightarrow> (\<forall>u \<in> set ts. wf_toml u)
      | _ \<Rightarrow> True)"
  by pat_completeness auto
termination
proof (relation "measure size")
  fix t v :: "'o toml" and ks vs
  assume "t = TTree ks vs" and "v \<in> set (map snd vs)"
  then obtain k where "(k, v) \<in> set vs" by auto
  then have "size v \<le> size_list (size_prod (\<lambda>_. 0) size) vs"
    by (rule size_list_estimation') simp
  with \<open>t = TTree ks vs\<close> show "(v, t) \<in> measure size" by simp
next
  fix t u :: "'o toml" and ts
  assume "t = TTrees ts" and "u \<in> set ts"
  then show "(u, t) \<in> measure size"
    using size_list_estimation' [of u ts "size u" size] by simp
qed simp

declare wf_toml.simps [simp del]

lemma wf_toml_cases [simp]:
  "wf_toml (TTree ks vs) \<longleftrightarrow> [] \<notin> set ks \<and> (\<forall>v \<in> set (map snd vs). wf_toml v)"
  "wf_toml (TTrees ts) \<longleftrightarrow> (\<forall>u \<in> set ts. wf_toml u)"
  "wf_toml (TStr x)" "wf_toml (TInt i)" "wf_toml (TBool b)" "wf_toml (TArr xs)" "wf_toml (TOther w)"
  by (simp_all add: wf_toml.simps)

lemma mget_size: "mget (subvalues t) k = Some v \<Longrightarrow> size v < size t"
proof -
  assume "mget (subvalues t) k = Some v"
  moreover from this obtain ks vs where t: "t = TTree ks vs"
    by (cases t) (simp_all add: subvalues_def)
  ultimately have "(k, v) \<in> set vs" by (auto simp: subvalues_def dest: map_of_SomeD)
  then have "size v \<le> size_list (size_prod (\<lambda>_. 0) size) vs"
    by (rule size_list_estimation') simp
  with t show ?thesis by simp
qed

lemma mget_wf: "wf_toml t \<Longrightarrow> mget (subvalues t) k = Some v \<Longrightarrow> wf_toml v"
  by (cases t) (auto simp: subvalues_def dest!: map_of_SomeD)

lemma last_size: "ts \<noteq> [] \<Longrightarrow> size (last ts) < size (TTrees ts)"
  using size_list_estimation' [of "last ts" ts "size (last ts)" size] by simp

lemma GetPath_sub:
  "GetPath t ks = Some v \<Longrightarrow> ks \<noteq> [] \<Longrightarrow> size v < size t \<and> (wf_toml t \<longrightarrow> wf_toml v)"
proof (induction t ks rule: GetPath.induct)
  case (1 t)
  then show ?case by simp
next
  case (2 t k)
  then show ?case by (auto dest: mget_size mget_wf)
next
  case (3 t k k' ks)
  then obtain node where node: "mget (subvalues t) k = Some node" by (auto split: option.splits)
  note sub = mget_size [OF node] mget_wf [OF _ node]
  show ?case
  proof (cases node)
    case (TTree a b)
    with 3 node have "size v < size node \<and> (wf_toml node \<longrightarrow> wf_toml v)" by auto
    with sub show ?thesis by auto
  next
    case (TTrees ts)
    with 3(3) node have ne: "ts \<noteq> []" by (auto split: if_splits)
    with 3 node TTrees have *: "size v < size (last ts) \<and> (wf_toml (last ts) \<longrightarrow> wf_toml v)"
      by auto
    have "wf_toml node \<longrightarrow> wf_toml (last ts)"
      using TTrees ne by simp
    with * sub TTrees last_size [OF ne] show ?thesis by auto
  qed (use 3 node in auto)
qed

lemma Get_sub:
  assumes "Get t k = Some v" and "k \<noteq> []"
  shows "size v < size t \<and> (wf_toml t \<longrightarrow> wf_toml v)"
  using assms
  by (auto simp: Get_def mget_size mget_wf Split_neq_Nil dest: GetPath_sub split: option.splits)

lemma opt_seq_Some: "(\<forall>x \<in> set xs. x \<noteq> None) \<Longrightarrow> \<exists>ys. opt_seq xs = Some ys"
  by (induction xs) auto

lemma wf_toml_keys: "wf_toml t \<Longrightarrow> k \<in> set (Keys t) \<Longrightarrow> k \<noteq> []"
  by (cases t) (auto simp: Keys_def)

text \<open>The tables that the traversal enters: those found with \<^verbatim>\<open>t.Get(k)\<close> under the keys listed by the tables above them.\<close>

inductive enters :: "'o toml \<Rightarrow> 'o toml \<Rightarrow> bool" where
  enters_top: "enters t t"
| enters_below: "k \<in> set (Keys t) \<Longrightarrow> Get t k = Some v \<Longrightarrow> v = TTree ks vs \<Longrightarrow> enters v u \<Longrightarrow> enters t u"

lemma opt_seq_None: "None \<in> set xs \<Longrightarrow> opt_seq xs = None"
  by (induction xs) (auto split: option.split)

lemma Traverse_enough_fuel_entered:
  "(\<And>u. enters t u \<Longrightarrow> [] \<notin> set (Keys u)) \<Longrightarrow> size t < fuel \<Longrightarrow> \<exists>j. TraverseTomlAsJson fuel fe t = Some j"
proof (induction fuel arbitrary: t)
  case 0
  then show ?case by simp
next
  case (Suc fuel)
  have "\<exists>j. TraverseTomlAsJson fuel fe v = Some j"
    if "Get t k = Some v" "k \<in> set (Keys t)" "v = TTree ks vs" for k v ks vs
  proof (rule Suc.IH)
    have "k \<noteq> []" using Suc.prems(1) [OF enters_top] that(2) by metis
    then show "size v < fuel" using Get_sub [OF that(1)] Suc.prems(2) by simp
    show "\<And>u. enters v u \<Longrightarrow> [] \<notin> set (Keys u)" by (rule Suc.prems(1) [OF enters_below [OF that(2,1,3)]])
  qed
  then show ?case
    by (auto intro!: opt_seq_Some split: option.split toml.split)
qed

lemma wf_toml_enters: "enters t u \<Longrightarrow> wf_toml t \<Longrightarrow> [] \<notin> set (Keys u)"
proof (induction rule: enters.induct)
  case (enters_below k t v ks vs u)
  then show ?case using Get_sub [OF enters_below(2)] wf_toml_keys by blast
qed (use wf_toml_keys in blast)

lemma Traverse_enough_fuel:
  "wf_toml t \<Longrightarrow> size t < fuel \<Longrightarrow> \<exists>j. TraverseTomlAsJson fuel fe t = Some j"
  using Traverse_enough_fuel_entered wf_toml_enters by blast

lemma Traverse_below:
  assumes "k \<in> set (Keys t)" and "Get t k = Some v" and "v = TTree ks vs" and "\<And>n. TraverseTomlAsJson n fe v = None"
  shows "TraverseTomlAsJson fuel fe t = None"
  using assms by (cases fuel) (auto intro!: opt_seq_None image_eqI [where x = k])

lemma Traverse_empty_key:
  assumes "[] \<in> set (Keys t)"
  shows "TraverseTomlAsJson fuel fe t = None"
proof (induction fuel)
  case (Suc fuel)
  obtain ks vs where t: "t = TTree ks vs" using assms by (cases t) (auto simp: Keys_def)
  have "Get t [] = Some t" by (simp add: Get_def)
  with Suc t assms show ?case
    by (auto intro!: opt_seq_None image_eqI [where x = "[]"])
qed simp

lemma Traverse_enters_empty_key:
  "enters t u \<Longrightarrow> [] \<in> set (Keys u) \<Longrightarrow> TraverseTomlAsJson fuel fe t = None"
proof (induction arbitrary: fuel rule: enters.induct)
  case (enters_top t)
  then show ?case by (rule Traverse_empty_key)
next
  case (enters_below k t v ks vs u)
  then show ?case by (blast intro: Traverse_below)
qed

text \<open>C34: the conversion of a TOML tree to JSON ends exactly if no table that it enters has an empty key, and then it needs no more levels
  of recursion than the tree has nodes.  A table with an empty key finds itself under that key: once such a table is entered, at
  whatever depth, the conversion recurses for ever.  (One that is not reached through the listed keys does no harm.)  A tree without
  empty keys in its tables, such as the parser builds, is converted.\<close>

theorem TraverseTomlAsJson_terminates:
  "((\<exists>n s. TraverseTomlAsJson n fe t = Some s) \<longleftrightarrow> (\<forall>u. enters t u \<longrightarrow> [] \<notin> set (Keys u)))
   \<and> (size t < fuel \<longrightarrow> ((\<exists>s. TraverseTomlAsJson fuel fe t = Some s) \<longleftrightarrow> (\<forall>u. enters t u \<longrightarrow> [] \<notin> set (Keys u))))
   \<and> (wf_toml t \<longrightarrow> (\<forall>u. enters t u \<longrightarrow> [] \<notin> set (Keys u)))"
proof -
  have never: "\<forall>u. enters t u \<longrightarrow> [] \<notin> set (Keys u)" if "TraverseTomlAsJson n fe t = Some s" for n s
    using that Traverse_enters_empty_key [of t _ n fe] by (metis option.distinct(1))
  have ends: "\<exists>s. TraverseTomlAsJson n fe t = Some s" if "\<forall>u. enters t u \<longrightarrow> [] \<notin> set (Keys u)" "size t < n" for n
    using that Traverse_enough_fuel_entered by blast
  show ?thesis
    using never ends [OF _ lessI] ends wf_toml_enters by blast
qed

theorem TraverseTomlAsJson_terminates_witness:
  "(\<exists>s. TraverseTomlAsJson 9 \<lparr>isPrint = (\<lambda>_. True), fmt_other = (\<lambda>_. []), fmt_ptr = (\<lambda>_. [])\<rparr>
        (TTree [''k''] [(''k'', TInt 1)] :: unit toml) = Some s)
   \<and> (\<nexists>n s. TraverseTomlAsJson n \<lparr>isPrint = (\<lambda>_. True), fmt_other = (\<lambda>_. []), fmt_ptr = (\<lambda>_. [])\<rparr>
        (TTree [''a''] [(''a'', TTree [[]] [])] :: unit toml) = Some s)"
proof
  show "\<exists>s. TraverseTomlAsJson 9 \<lparr>isPrint = (\<lambda>_. True), fmt_other = (\<lambda>_. []), fmt_ptr = (\<lambda>_. [])\<rparr>
        (TTree [''k''] [(''k'', TInt 1)] :: unit toml) = Some s"
    using TraverseTomlAsJson_terminates [of "\<lparr>isPrint = (\<lambda>_. True), fmt_other = (\<lambda>_. []), fmt_ptr = (\<lambda>_. [])\<rparr>"
        "TTree [''k''] [(''k'', TInt 1)] :: unit toml" 9] by simp
  have "enters (TTree [''a''] [(''a'', TTree [[]] [])] :: unit toml) (TTree [[]] [])"
    by (rule enters_below [of "''a''" _ _ "[[]]" "[]", OF _ _ _ enters_top]) (simp_all add: Keys_def Get_def subvalues_def)
  then show "\<nexists>n s. TraverseTomlAsJson n \<lparr>isPrint = (\<lambda>_. True), fmt_other = (\<lambda>_. []), fmt_ptr = (\<lambda>_. [])\<rparr>
        (TTree [''a''] [(''a'', TTree [[]] [])] :: unit toml) = Some s"
    using TraverseTomlAsJson_terminates [of "\<lparr>isPrint = (\<lambda>_. True), fmt_other = (\<lambda>_. []), fmt_ptr = (\<lambda>_. [])\<rparr>"
        "TTree [''a''] [(''a'', TTree [[]] [])] :: unit toml" 9] by (auto simp: Keys_def)
qed

section \<open>Configuration values\<close>

text \<open>
  Unbounded recursion exhausts the stack, which stops a Go process.  A tree has fewer
  levels than its size, so a traversal that needs more fuel than that has met an empty key.
\<close>

definition returned :: "'a option \<Rightarrow> 'a res" where
  "returned r = (case r of Some v \<Rightarrow> Ok v | None \<Rightarrow> Panic ''stack overflow'')"

definition TomlToJson :: "(string \<Rightarrow> 'o toml res) \<Rightarrow> 'o fmtenv \<Rightarrow> string \<Rightarrow> bytes res" where
  "TomlToJson load fe content =
     res_bind (load content) (\<lambda>t. returned (TraverseTomlAsJson (Suc (size t)) fe t))"

text \<open>The value of the first key; a document without keys gives the nil slice.\<close>

definition TomlConfigValueToJson ::
    "(string \<Rightarrow> 'o toml res) \<Rightarrow> 'o fmtenv \<Rightarrow> string \<Rightarrow> bytes option res" where
  "TomlConfigValueToJson load fe content =
     res_bind (load content) (\<lambda>t.
       case Keys t of
         [] \<Rightarrow> Ok None
       | key # _ \<Rightarrow>
           res_bind (returned (JsonEncode (Suc (size t)) fe (Get t key))) (\<lambda>re. Ok (Some re)))"

lemma JsonEncode_returns:
  "(\<forall>w. v = Some w \<longrightarrow> wf_toml w \<and> size w < fuel) \<Longrightarrow> \<exists>j. JsonEncode fuel fe v = Some j"
  by (auto simp: JsonEncode_def Traverse_enough_fuel split: option.split toml.split)

lemma TomlConfigValueToJson_returns:
  assumes "load content = Ok t" and "wf_toml t"
  shows "\<exists>j. TomlConfigValueToJson load fe content = Ok j"
proof (cases "Keys t")
  case Nil
  with assms show ?thesis by (simp add: TomlConfigValueToJson_def)
next
  case (Cons key ks)
  then have "key \<noteq> []" using wf_toml_keys [OF assms(2)] by simp
  then have "\<forall>w. Get t key = Some w \<longrightarrow> wf_toml w \<and> size w < Suc (size t)"
    using Get_sub assms(2) by fastforce
  then obtain j where "JsonEncode (Suc (size t)) fe (Get t key) = Some j"
    using JsonEncode_returns by blast
  with Cons assms show ?thesis by (simp add: TomlConfigValueToJson_def returned_def)
qed

lemma TomlConfigValueToJson_Err:
  "load content = Err e \<Longrightarrow> TomlConfigValueToJson load fe content = Err e"
  by (simp add: TomlConfigValueToJson_def)

text \<open>\<^verbatim>\<open>TraverseTomlTree\<close>: the tree as nested Go maps, without its nil entries.\<close>

datatype 'o goval = GMap "(string \<times> 'o goval) list" | GVal "'o toml"

fun TraverseTomlTree :: "nat \<Rightarrow> 'o toml \<Rightarrow> (string \<times> 'o goval) list option" where
  "TraverseTomlTree 0 t = None"
| "TraverseTomlTree (Suc fuel) t =
     foldl (\<lambda>mm k.
        case mm of
          None \<Rightarrow> None
        | Some m \<Rightarrow>
            (case Get t k of
               None \<Rightarrow> Some m
             | Some (TTree a b) \<Rightarrow>
                 map_option (\<lambda>sub. mset m k (GMap sub)) (TraverseTomlTree fuel (TTree a b))
             | Some v \<Rightarrow> Some (mset m k (GVal v)))) (Some []) (Keys t)"

definition TomlToMap :: "(string \<Rightarrow> 'o toml res) \<Rightarrow> string \<Rightarrow> (string \<times> 'o goval) list res" where
  "TomlToMap load content =
     res_bind (load content) (\<lambda>t. returned (TraverseTomlTree (Suc (size t)) t))"

end
