(* ===== verification/Json.thy ===== *)
theory Json
  imports Complex_Main GoFmt
begin

text \<open>
  The part of \<^verbatim>\<open>encoding/json\<close> that the client uses: \<^verbatim>\<open>Unmarshal\<close> into an interface value or a
  map, and \<^verbatim>\<open>Marshal\<close> of maps, slices, strings and integers.  A decoded number is a \<^verbatim>\<open>float64\<close>
  in Go and the rational it denotes here; an integer that is to be encoded is \<open>JInt\<close>, a struct
  (whose fields are written in the order of its declaration) \<open>JStruct\<close>.  The text of a syntax error
  is not modelled.
\<close>

datatype json =
    JNull
  | JBool bool
  | JNum rat
  | JInt int
  | JStr string
  | JArr "json list"
  | JObj "(string \<times> json) list"
  | JStruct "(string \<times> json) list"

section \<open>Strings\<close>

definition hexval :: "char \<Rightarrow> nat option" where
  "hexval c = (let n = of_char c :: nat in
     if 48 \<le> n \<and> n \<le> 57 then Some (n - 48)
     else if 97 \<le> n \<and> n \<le> 102 then Some (n - 87)
     else if 65 \<le> n \<and> n \<le> 70 then Some (n - 55) else None)"

definition hex4 :: "char \<Rightarrow> char \<Rightarrow> char \<Rightarrow> char \<Rightarrow> nat option" where
  "hex4 a b c d =
     (case (hexval a, hexval b, hexval c, hexval d) of
        (Some w, Some x, Some y, Some z) \<Rightarrow> Some (((w * 16 + x) * 16 + y) * 16 + z)
      | _ \<Rightarrow> None)"

definition encode_rune :: "nat \<Rightarrow> string" where
  "encode_rune r =
     (if r < 0x80 then [char_of r]
      else if r < 0x800 then [char_of (0xC0 + r div 64), char_of (0x80 + r mod 64)]
      else if r < 0x10000 then [char_of (0xE0 + r div 4096), char_of (0x80 + r div 64 mod 64),
                                char_of (0x80 + r mod 64)]
      else [char_of (0xF0 + r div 262144), char_of (0x80 + r div 4096 mod 64),
            char_of (0x80 + r div 64 mod 64), char_of (0x80 + r mod 64)])"

definition replacement :: string where
  "replacement = encode_rune 0xFFFD"

definition json_escape :: "char \<Rightarrow> char option" where
  "json_escape e =
     (if e \<in> {CHR 0x22, bs, CHR ''/''} then Some e
      else if e = CHR ''b'' then Some (CHR 0x08)
      else if e = CHR ''f'' then Some (CHR 0x0C)
      else if e = CHR ''n'' then Some (CHR 0x0A)
      else if e = CHR ''r'' then Some (CHR 0x0D)
      else if e = CHR ''t'' then Some (CHR 0x09)
      else None)"

text \<open>The four digits of an escape \<^verbatim>\<open>\u\<close> at the start of a text (\<^verbatim>\<open>getu4\<close>).\<close>

definition u4 :: "string \<Rightarrow> nat option" where
  "u4 s = (case s of a # b # c # d # _ \<Rightarrow> hex4 a b c d | _ \<Rightarrow> None)"

text \<open>
  One character of a string: what it stands for and how many bytes of the text it takes;
  \<open>None\<close> for a character that may not stand there.
\<close>

definition string_char :: "string \<Rightarrow> (string \<times> nat) option" where
  "string_char s =
     (case s of
        [] \<Rightarrow> None
      | c # cs \<Rightarrow>
          let n = of_char c :: nat in
          if n < 32 then None
          else if c = bs then
            (case cs of
               [] \<Rightarrow> None
             | e # r \<Rightarrow>
                 if e = CHR ''u'' then
                   (case u4 r of
                      None \<Rightarrow> None
                    | Some x \<Rightarrow>
                        if 0xD800 \<le> x \<and> x < 0xE000 then
                          (case (take 2 (drop 4 r), u4 (drop 6 r)) of
                             (p, Some y) \<Rightarrow>
                               if p = [bs, CHR ''u''] \<and> x < 0xDC00 \<and> 0xDC00 \<le> y \<and> y < 0xE000
                               then Some (encode_rune (0x10000 + (x - 0xD800) * 1024 + (y - 0xDC00)), 12)
                               else Some (replacement, 6)
                           | _ \<Rightarrow> Some (replacement, 6))
                        else Some (encode_rune x, 6))
                 else map_option (\<lambda>v. ([v], 2)) (json_escape e))
          else if n < 0x80 then Some ([c], 1)
          else case decode_rune (map of_char s) of
                 Some (r, w) \<Rightarrow> Some (take w s, w)
               | None \<Rightarrow> Some (replacement, 1))"

text \<open>A string after its opening quotation mark.\<close>

function parse_string :: "string \<Rightarrow> (string \<times> string) option" where
  "parse_string s =
     (case s of
        [] \<Rightarrow> None
      | c # cs \<Rightarrow>
          if c = CHR 0x22 then Some ([], cs)
          else case string_char s of
                 None \<Rightarrow> None
               | Some (v, w) \<Rightarrow>
                   map_option (\<lambda>(t, rest). (v @ t, rest)) (parse_string (drop (max 1 w) s)))"
  by pat_completeness auto
termination
  by (relation "measure length") auto

declare parse_string.simps [simp del]

section \<open>Numbers\<close>

abbreviation digits :: "string \<Rightarrow> string" where
  "digits \<equiv> takeWhile is_digit"

abbreviation after_digits :: "string \<Rightarrow> string" where
  "after_digits \<equiv> dropWhile is_digit"

definition parse_frac :: "string \<Rightarrow> (rat \<times> string) option" where
  "parse_frac s =
     (case s of
        c # r \<Rightarrow>
          if c = CHR ''.'' then
            (if digits r = [] then None
             else Some (of_nat (digits_val (digits r)) / 10 ^ length (digits r), after_digits r))
          else Some (0, s)
      | [] \<Rightarrow> Some (0, s))"

definition parse_exp :: "string \<Rightarrow> (rat \<times> string) option" where
  "parse_exp s =
     (case s of
        c # r \<Rightarrow>
          if c = CHR ''e'' \<or> c = CHR ''E'' then
            (let neg = (r \<noteq> [] \<and> hd r = CHR ''-'');
                 r' = (if r \<noteq> [] \<and> (hd r = CHR ''-'' \<or> hd r = CHR ''+'') then tl r else r)
             in if digits r' = [] then None
                else Some ((if neg then 1 / 10 ^ digits_val (digits r')
                            else 10 ^ digits_val (digits r')), after_digits r'))
          else Some (1, s)
      | [] \<Rightarrow> Some (1, s))"

definition parse_int :: "string \<Rightarrow> (nat \<times> string) option" where
  "parse_int s =
     (case s of
        [] \<Rightarrow> None
      | c # r \<Rightarrow>
          if c = CHR ''0'' then Some (0, r)
          else if is_digit c then Some (digits_val (digits s), after_digits s)
          else None)"

definition parse_number :: "string \<Rightarrow> (rat \<times> string) option" where
  "parse_number s =
     (let neg = (s \<noteq> [] \<and> hd s = CHR ''-'');
          s' = (if neg then tl s else s)
      in case parse_int s' of
           None \<Rightarrow> None
         | Some (i, r) \<Rightarrow>
             (case parse_frac r of
                None \<Rightarrow> None
              | Some (f, r2) \<Rightarrow>
                  (case parse_exp r2 of
                     None \<Rightarrow> None
                   | Some (e, r3) \<Rightarrow>
                       Some ((if neg then - ((of_nat i + f) * e) else (of_nat i + f) * e), r3))))"

section \<open>Values\<close>

definition is_ws :: "char \<Rightarrow> bool" where
  "is_ws c \<longleftrightarrow> c = CHR 0x20 \<or> c = CHR 0x09 \<or> c = CHR 0x0A \<or> c = CHR 0x0D"

abbreviation skip_ws :: "string \<Rightarrow> string" where
  "skip_ws \<equiv> dropWhile is_ws"

definition lit :: "string \<Rightarrow> json \<Rightarrow> string \<Rightarrow> (json \<times> string) option" where
  "lit w v s = (if HasPrefix s w then Some (v, drop (length w) s) else None)"

text \<open>
  \<open>fuel\<close> bounds the recursion: of two calls at least one takes a byte of the text, so twice
  the length of the text is enough (lemma \<open>parse_fuel\<close>).
\<close>

fun parse_value :: "nat \<Rightarrow> string \<Rightarrow> (json \<times> string) option"
and parse_elements :: "nat \<Rightarrow> json list \<Rightarrow> string \<Rightarrow> (json \<times> string) option"
and parse_members :: "nat \<Rightarrow> (string \<times> json) list \<Rightarrow> string \<Rightarrow> (json \<times> string) option" where
  "parse_value 0 s = None"
| "parse_value (Suc fuel) s =
     (case skip_ws s of
        [] \<Rightarrow> None
      | c # r \<Rightarrow>
          if c = CHR 0x7B then
            (case skip_ws r of
               [] \<Rightarrow> None
             | d # r' \<Rightarrow> if d = CHR 0x7D then Some (JObj [], r') else parse_members fuel [] r)
          else if c = CHR 0x5B then
            (case skip_ws r of
               [] \<Rightarrow> None
             | d # r' \<Rightarrow> if d = CHR 0x5D then Some (JArr [], r') else parse_elements fuel [] r)
          else if c = CHR 0x22 then map_option (\<lambda>(t, rest). (JStr t, rest)) (parse_string r)
          else if c = CHR ''t'' then lit ''true'' (JBool True) (c # r)
          else if c = CHR ''f'' then lit ''false'' (JBool False) (c # r)
          else if c = CHR ''n'' then lit ''null'' JNull (c # r)
          else map_option (\<lambda>(x, rest). (JNum x, rest)) (parse_number (c # r)))"
| "parse_elements 0 acc s = None"
| "parse_elements (Suc fuel) acc s =
     (case parse_value fuel s of
        None \<Rightarrow> None
      | Some (v, r) \<Rightarrow>
          (case skip_ws r of
             [] \<Rightarrow> None
           | c # r' \<Rightarrow>
               if c = CHR '','' then parse_elements fuel (acc @ [v]) r'
               else if c = CHR 0x5D then Some (JArr (acc @ [v]), r')
               else None))"
| "parse_members 0 acc s = None"
| "parse_members (Suc fuel) acc s =
     (case skip_ws s of
        [] \<Rightarrow> None
      | c # r \<Rightarrow>
          if c \<noteq> CHR 0x22 then None
          else case parse_string r of
                 None \<Rightarrow> None
               | Some (k, r1) \<Rightarrow>
                   (case skip_ws r1 of
                      [] \<Rightarrow> None
                    | d # r2 \<Rightarrow>
                        if d \<noteq> CHR '':'' then None
                        else case parse_value fuel r2 of
                               None \<Rightarrow> None
                             | Some (v, r3) \<Rightarrow>
                                 (case skip_ws r3 of
                                    [] \<Rightarrow> None
                                  | e # r4 \<Rightarrow>
                                      if e = CHR '','' then parse_members fuel (mset acc k v) r4
                                      else if e = CHR 0x7D then Some (JObj (mset acc k v), r4)
                                      else None)))"

definition json_error :: goerr where
  "json_error = ErrText ''json: syntax error''"

text \<open>\<^verbatim>\<open>json.Unmarshal\<close> into an interface value.\<close>

definition Unmarshal :: "bytes \<Rightarrow> json res" where
  "Unmarshal b =
     (case parse_value (2 * length b + 2) b of
        Some (j, rest) \<Rightarrow> if skip_ws rest = [] then Ok j else Err json_error
      | None \<Rightarrow> Err json_error)"

text \<open>Into a \<^verbatim>\<open>map[string]interface{}\<close> that was nil: \<open>null\<close> leaves it nil, which reads like the empty map.\<close>

definition UnmarshalMap :: "bytes \<Rightarrow> (string \<times> json) list res" where
  "UnmarshalMap b =
     res_bind (Unmarshal b) (\<lambda>j.
       case j of
         JObj m \<Rightarrow> Ok m
       | JNull \<Rightarrow> Ok []
       | _ \<Rightarrow> Err (ErrText ''json: cannot unmarshal into Go value of type map[string]interface {}''))"

section \<open>Encoding\<close>

definition marshal_ascii :: "nat \<Rightarrow> string" where
  "marshal_ascii n =
     (if n = 34 \<or> n = 92 then [bs, char_of n]
      else if n = 10 then [bs, CHR ''n'']
      else if n = 13 then [bs, CHR ''r'']
      else if n = 9 then [bs, CHR ''t'']
      else if n < 32 \<or> n = 60 \<or> n = 62 \<or> n = 38 then [bs, CHR ''u''] @ hex 4 n
      else [char_of n])"

function marshal_body :: "string \<Rightarrow> string" where
  "marshal_body s =
     (case s of
        [] \<Rightarrow> []
      | c # cs \<Rightarrow>
          let n = of_char c :: nat in
          if n < 0x80 then marshal_ascii n @ marshal_body cs
          else case decode_rune (map of_char s) of
                 None \<Rightarrow> [bs] @ ''ufffd'' @ marshal_body cs
               | Some (r, w) \<Rightarrow>
                   (if r = 0x2028 \<or> r = 0x2029 then [bs, CHR ''u''] @ hex 4 r else take w s)
                   @ marshal_body (drop (max 1 w) s))"
  by pat_completeness auto
termination
  by (relation "measure length") auto

declare marshal_body.simps [simp del]

definition marshal_string :: "string \<Rightarrow> string" where
  "marshal_string s = CHR 0x22 # marshal_body s @ [CHR 0x22]"

text \<open>The keys of a map are written in increasing order of their bytes.\<close>

fun str_less :: "string \<Rightarrow> string \<Rightarrow> bool" where
  "str_less [] [] = False"
| "str_less [] (_ # _) = True"
| "str_less (_ # _) [] = False"
| "str_less (a # as) (b # bs') =
     ((of_char a :: nat) < of_char b \<or> (a = b \<and> str_less as bs'))"

fun insert_key :: "string \<times> 'v \<Rightarrow> (string \<times> 'v) list \<Rightarrow> (string \<times> 'v) list" where
  "insert_key kv [] = [kv]"
| "insert_key kv (x # xs) = (if str_less (fst kv) (fst x) then kv # x # xs else x # insert_key kv xs)"

definition sort_keys :: "(string \<times> 'v) list \<Rightarrow> (string \<times> 'v) list" where
  "sort_keys m = foldr insert_key m []"

lemma set_insert_key [simp]: "set (insert_key kv m) = insert kv (set m)"
  by (induction m) auto

lemma set_sort_keys [simp]: "set (sort_keys m) = set m"
  by (induction m) (simp_all add: sort_keys_def)

text \<open>\<^verbatim>\<open>json.Marshal\<close>; \<open>fmt_num\<close> is the shortest decimal text of a float.\<close>

function marshal :: "(rat \<Rightarrow> string) \<Rightarrow> json \<Rightarrow> string" where
  "marshal fmt_num j =
     (case j of
        JNull \<Rightarrow> ''null''
      | JBool b \<Rightarrow> (if b then ''true'' else ''false'')
      | JNum r \<Rightarrow> fmt_num r
      | JInt i \<Rightarrow> Itoa i
      | JStr s \<Rightarrow> marshal_string s
      | JArr xs \<Rightarrow> [CHR 0x5B] @ Join (map (marshal fmt_num) xs) '','' @ [CHR 0x5D]
      | JObj m \<Rightarrow>
          [CHR 0x7B] @ Join (map (\<lambda>(k, v). marshal_string k @ '':'' @ marshal fmt_num v) (sort_keys m)) '',''
          @ [CHR 0x7D]
      | JStruct m \<Rightarrow>
          [CHR 0x7B] @ Join (map (\<lambda>(k, v). marshal_string k @ '':'' @ marshal fmt_num v) m) '',''
          @ [CHR 0x7D])"
  by pat_completeness auto
termination
proof (relation "measure (size \<circ> snd)")
  fix fmt_num :: "rat \<Rightarrow> string" and j xs x
  assume "j = JArr xs" and "x \<in> set xs"
  then show "((fmt_num, x), (fmt_num, j)) \<in> measure (size \<circ> snd)"
    using size_list_estimation' [of x xs "size x" size] by simp
next
  fix fmt_num :: "rat \<Rightarrow> string" and j m x k v
  assume j: "j = JObj m" and x: "x \<in> set (sort_keys m)" "(k, v) = x"
  then have "size v \<le> size_list (size_prod (\<lambda>_. 0) size) m"
    by (intro size_list_estimation' [of x]) auto
  with j show "((fmt_num, v), (fmt_num, j)) \<in> measure (size \<circ> snd)" by simp
next
  fix fmt_num :: "rat \<Rightarrow> string" and j m x k v
  assume j: "j = JStruct m" and x: "x \<in> set m" "(k, v) = x"
  then have "size v \<le> size_list (size_prod (\<lambda>_. 0) size) m"
    by (intro size_list_estimation' [of x]) auto
  with j show "((fmt_num, v), (fmt_num, j)) \<in> measure (size \<circ> snd)" by simp
qed simp

declare marshal.simps [simp del]

lemma marshal_cases:
  "marshal f JNull = ''null''" "marshal f (JBool b) = (if b then ''true'' else ''false'')"
  "marshal f (JNum r) = f r" "marshal f (JInt i) = Itoa i" "marshal f (JStr s) = marshal_string s"
  "marshal f (JArr xs) = [CHR 0x5B] @ Join (map (marshal f) xs) '','' @ [CHR 0x5D]"
  "marshal f (JObj m) =
     [CHR 0x7B] @ Join (map (\<lambda>(k, v). marshal_string k @ '':'' @ marshal f v) (sort_keys m)) '',''
     @ [CHR 0x7D]"
  "marshal f (JStruct m) =
     [CHR 0x7B] @ Join (map (\<lambda>(k, v). marshal_string k @ '':'' @ marshal f v) m) '','' @ [CHR 0x7D]"
  by (simp_all add: marshal.simps)

end
