(* ===== verification/JsonLaws.thy ===== *)
theory JsonLaws
  imports Json
begin

text \<open>
  The decoder needs no more fuel than \<^verbatim>\<open>Unmarshal\<close> gives it, and it reads back what the
  encoder writes.
\<close>

section \<open>What a parser leaves is shorter\<close>

lemma parse_string_shorter: "parse_string s = Some (t, r) \<Longrightarrow> length r < length s"
proof (induction s arbitrary: t r rule: parse_string.induct)
  case (1 s)
  show ?case
  proof (cases s)
    case Nil
    with 1 show ?thesis by (simp add: parse_string.simps)
  next
    case (Cons c cs)
    show ?thesis
    proof (cases "c = CHR 0x22")
      case True
      with 1 Cons show ?thesis by (simp add: parse_string.simps)
    next
      case False
      with 1(2) Cons obtain v w t' where *: "string_char s = Some (v, w)"
        "parse_string (drop (max 1 w) s) = Some (t', r)"
        by (auto simp: parse_string.simps [of "c # cs"] split: option.splits)
      have "length r < length (drop (max 1 w) s)"
        using 1(1) [OF Cons False *(1) refl *(2)] .
      then show ?thesis by simp
    qed
  qed
qed

lemma skip_ws_le: "length (skip_ws s) \<le> length s"
  by (rule length_dropWhile_le)

lemma skip_ws_shorter: "skip_ws s = c # r \<Longrightarrow> length r < length s"
  using skip_ws_le [of s] by simp

lemma after_digits_le: "length (after_digits s) \<le> length s"
  by (rule length_dropWhile_le)

lemma parse_int_shorter: "parse_int s = Some (i, r) \<Longrightarrow> length r < length s"
  using after_digits_le [of "tl s"]
  by (cases s) (auto simp: parse_int_def split: if_splits)

lemma parse_frac_le: "parse_frac s = Some (f, r) \<Longrightarrow> length r \<le> length s"
  using after_digits_le [of "tl s"]
  by (cases s) (auto simp: parse_frac_def split: if_splits)

lemma parse_exp_le: "parse_exp s = Some (f, r) \<Longrightarrow> length r \<le> length s"
  using after_digits_le [of "tl s"] after_digits_le [of "tl (tl s)"]
  by (cases s; cases "tl s") (auto simp: parse_exp_def Let_def split: if_splits)

lemma parse_number_shorter:
  assumes "parse_number s = Some (x, r)"
  shows "length r < length s"
proof -
  define s' where "s' = (if s \<noteq> [] \<and> hd s = CHR ''-'' then tl s else s)"
  obtain i r1 f r2 e where *: "parse_int s' = Some (i, r1)" "parse_frac r1 = Some (f, r2)"
    "parse_exp r2 = Some (e, r)"
    using assms by (auto simp: parse_number_def s'_def Let_def split: option.splits)
  have "length s' \<le> length s" by (simp add: s'_def)
  with parse_int_shorter [OF *(1)] parse_frac_le [OF *(2)] parse_exp_le [OF *(3)]
  show ?thesis by simp
qed

lemma lit_shorter: "lit w v s = Some (j, r) \<Longrightarrow> w \<noteq> [] \<Longrightarrow> length r < length s"
  by (cases s) (auto simp: lit_def HasPrefix_def split: if_splits)

lemma parse_shorter_step:
  assumes v: "\<And>s j r. parse_value fuel s = Some (j, r) \<Longrightarrow> length r < length s"
    and e: "\<And>acc s j r. parse_elements fuel acc s = Some (j, r) \<Longrightarrow> length r < length s"
    and m: "\<And>acc s j r. parse_members fuel acc s = Some (j, r) \<Longrightarrow> length r < length s"
  shows "parse_value (Suc fuel) s = Some (j, r) \<Longrightarrow> length r < length s"
    and "parse_elements (Suc fuel) acc s = Some (j, r) \<Longrightarrow> length r < length s"
    and "parse_members (Suc fuel) acc' s = Some (j, r) \<Longrightarrow> length r < length s"
proof -
  assume *: "parse_value (Suc fuel) s = Some (j, r)"
  then obtain c r0 where ws: "skip_ws s = c # r0" by (auto split: list.splits)
  have "length r < length (c # r0)"
    using * ws
    by (auto simp del: length_Cons simp: lit_shorter split: list.splits if_splits
        dest!: skip_ws_shorter parse_string_shorter e m)
      (auto dest!: parse_number_shorter lit_shorter)
  with ws skip_ws_le [of s] show "length r < length s" by simp
next
  assume "parse_elements (Suc fuel) acc s = Some (j, r)"
  then show "length r < length s"
    by (auto split: list.splits if_splits option.splits dest!: skip_ws_shorter v e)
next
  assume "parse_members (Suc fuel) acc' s = Some (j, r)"
  then show "length r < length s"
    by (auto split: list.splits if_splits option.splits dest!: skip_ws_shorter parse_string_shorter v m)
qed

lemma parse_shorter:
  "(\<forall>s j r. parse_value fuel s = Some (j, r) \<longrightarrow> length r < length s)
   \<and> (\<forall>acc s j r. parse_elements fuel acc s = Some (j, r) \<longrightarrow> length r < length s)
   \<and> (\<forall>acc s j r. parse_members fuel acc s = Some (j, r) \<longrightarrow> length r < length s)"
proof (induction fuel)
  case (Suc fuel)
  note IH = Suc.IH [THEN conjunct1, rule_format] Suc.IH [THEN conjunct2, THEN conjunct1, rule_format]
    Suc.IH [THEN conjunct2, THEN conjunct2, rule_format]
  show ?case
    by (intro conjI allI impI; (rule parse_shorter_step [OF IH]; assumption))
qed simp

lemmas parse_value_shorter = parse_shorter [THEN conjunct1, rule_format]

declare parse_value.simps [simp del] parse_elements.simps [simp del] parse_members.simps [simp del]

section \<open>Enough fuel\<close>

lemma parse_fuel_step:
  assumes v: "\<And>s. 2 * length s + 1 \<le> fuel \<Longrightarrow> parse_value (Suc fuel) s = parse_value fuel s"
    and e: "\<And>acc s. 2 * length s + 2 \<le> fuel \<Longrightarrow> parse_elements (Suc fuel) acc s = parse_elements fuel acc s"
    and m: "\<And>acc s. 2 * length s + 2 \<le> fuel \<Longrightarrow> parse_members (Suc fuel) acc s = parse_members fuel acc s"
  shows "2 * length s + 1 \<le> Suc fuel \<Longrightarrow> parse_value (Suc (Suc fuel)) s = parse_value (Suc fuel) s"
    and "2 * length s + 2 \<le> Suc fuel
         \<Longrightarrow> parse_elements (Suc (Suc fuel)) acc s = parse_elements (Suc fuel) acc s"
    and "2 * length s + 2 \<le> Suc fuel
         \<Longrightarrow> parse_members (Suc (Suc fuel)) acc' s = parse_members (Suc fuel) acc' s"
proof -
  assume len: "2 * length s + 1 \<le> Suc fuel"
  have *: "parse_elements (Suc fuel) [] r = parse_elements fuel [] r"
    "parse_members (Suc fuel) [] r = parse_members fuel [] r"
    if "skip_ws s = c # r" for c r
    using skip_ws_shorter [OF that] len by (auto intro!: e m)
  show "parse_value (Suc (Suc fuel)) s = parse_value (Suc fuel) s"
  proof (cases "skip_ws s")
    case Nil
    then show ?thesis by (simp only: parse_value.simps(2) list.case)
  next
    case (Cons c r)
    show ?thesis by (simp only: parse_value.simps(2) list.case Cons * [OF Cons])
  qed
next
  assume len: "2 * length s + 2 \<le> Suc fuel"
  have pv: "parse_value (Suc fuel) s = parse_value fuel s" using len by (intro v) simp
  have pe: "parse_elements (Suc fuel) xs r' = parse_elements fuel xs r'"
    if "parse_value fuel s = Some (j, r)" "skip_ws r = c # r'" for j r c r' xs
    using parse_value_shorter [OF that(1)] skip_ws_shorter [OF that(2)] len by (intro e) simp
  show "parse_elements (Suc (Suc fuel)) acc s = parse_elements (Suc fuel) acc s"
  proof (cases "parse_value fuel s")
    case None
    then show ?thesis by (simp only: parse_elements.simps(2) pv option.case)
  next
    case (Some jr)
    then obtain j r where jr: "parse_value fuel s = Some (j, r)" by (cases jr) simp
    show ?thesis
      unfolding parse_elements.simps(2) [of "Suc fuel" acc s] parse_elements.simps(2) [of fuel acc s] pv jr
      by (cases "skip_ws r") (simp_all only: option.case prod.case list.case pe [OF jr])
  qed
next
  assume len: "2 * length s + 2 \<le> Suc fuel"
  have a: "parse_value (Suc fuel) r2 = parse_value fuel r2"
    if "skip_ws s = c # r" "parse_string r = Some (k, r1)" "skip_ws r1 = d # r2" for c r k r1 d r2
    using skip_ws_shorter [OF that(1)] parse_string_shorter [OF that(2)]
      skip_ws_shorter [OF that(3)] len by (intro v) simp
  have b: "parse_members (Suc fuel) xs r4 = parse_members fuel xs r4"
    if "skip_ws s = c # r" "parse_string r = Some (k, r1)" "skip_ws r1 = d # r2"
      "parse_value fuel r2 = Some (w, r3)" "skip_ws r3 = x # r4" for c r k r1 d r2 w r3 x r4 xs
    using skip_ws_shorter [OF that(1)] parse_string_shorter [OF that(2)] skip_ws_shorter [OF that(3)]
      parse_value_shorter [OF that(4)] skip_ws_shorter [OF that(5)] len by (intro m) simp
  note unf = parse_members.simps(2) [of "Suc fuel" acc' s] parse_members.simps(2) [of fuel acc' s]
  show "parse_members (Suc (Suc fuel)) acc' s = parse_members (Suc fuel) acc' s"
  proof (cases "\<exists>c r k r1 d r2. skip_ws s = c # r \<and> parse_string r = Some (k, r1) \<and> skip_ws r1 = d # r2")
    case False
    then show ?thesis
      unfolding unf by (cases "skip_ws s"; cases "parse_string (tl (skip_ws s))";
          cases "skip_ws (snd (the (parse_string (tl (skip_ws s)))))")
        (auto simp del: dropWhile_eq_Nil_conv)
  next
    case True
    then obtain c r k r1 d r2 where *: "skip_ws s = c # r" "parse_string r = Some (k, r1)"
      "skip_ws r1 = d # r2" by blast
    show ?thesis
    proof (cases "parse_value fuel r2")
      case None
      show ?thesis unfolding unf by (simp only: * a [OF *] None list.case option.case prod.case)
    next
      case (Some wr)
      then obtain w r3 where w: "parse_value fuel r2 = Some (w, r3)" by (cases wr) simp
      show ?thesis
        unfolding unf * list.case option.case prod.case a [OF *] w
        by (cases "skip_ws r3") (simp_all only: list.case b [OF * w])
    qed
  qed
qed

lemma parse_fuel_all:
  "(\<forall>s. 2 * length s + 1 \<le> fuel \<longrightarrow> parse_value (Suc fuel) s = parse_value fuel s)
   \<and> (\<forall>acc s. 2 * length s + 2 \<le> fuel \<longrightarrow> parse_elements (Suc fuel) acc s = parse_elements fuel acc s)
   \<and> (\<forall>acc s. 2 * length s + 2 \<le> fuel \<longrightarrow> parse_members (Suc fuel) acc s = parse_members fuel acc s)"
proof (induction fuel)
  case (Suc fuel)
  note IH = Suc.IH [THEN conjunct1, rule_format] Suc.IH [THEN conjunct2, THEN conjunct1, rule_format]
    Suc.IH [THEN conjunct2, THEN conjunct2, rule_format]
  show ?case
    by (intro conjI allI impI; (rule parse_fuel_step [OF IH]; assumption))
qed simp

lemma parse_fuel:
  assumes "2 * length s + 1 \<le> f" and "2 * length s + 1 \<le> g"
  shows "parse_value f s = parse_value g s"
proof -
  have "parse_value (2 * length s + 1 + k) s = parse_value (2 * length s + 1) s" for k
  proof (induction k)
    case (Suc k)
    have "parse_value (Suc (2 * length s + 1 + k)) s = parse_value (2 * length s + 1 + k) s"
      using parse_fuel_all by (metis le_add1)
    with Suc show ?case by simp
  qed simp
  then show ?thesis using assms by (metis le_add_diff_inverse)
qed

lemma Unmarshal_fuel:
  assumes "\<exists>N. \<forall>f \<ge> N. parse_value f b = Some (j, [])"
  shows "Unmarshal b = Ok j"
proof -
  obtain N where "\<forall>f \<ge> N. parse_value f b = Some (j, [])" using assms by blast
  then have "parse_value (N + 2 * length b + 2) b = Some (j, [])" by simp
  moreover have "parse_value (N + 2 * length b + 2) b = parse_value (2 * length b + 2) b"
    by (rule parse_fuel) simp_all
  ultimately have "parse_value (2 * length b + 2) b = Some (j, [])" by simp
  then show ?thesis by (simp only: Unmarshal_def option.case prod.case dropWhile.simps) simp
qed

section \<open>Strings\<close>

lemma char_of_eq_iff: "m < 256 \<Longrightarrow> char_of m = (c :: char) \<longleftrightarrow> m = of_char c" for m :: nat
  by (metis char_of_char mod_less of_char_of)

lemma hexval_hexdigit: "d < 16 \<Longrightarrow> hexval (hexdigit d) = Some d"
  by (simp add: hexval_def hexdigit_def of_char_of)

lemma u4_hexdigits:
  "a < 16 \<Longrightarrow> b < 16 \<Longrightarrow> c < 16 \<Longrightarrow> d < 16
   \<Longrightarrow> u4 (hexdigit a # hexdigit b # hexdigit c # hexdigit d # rest) = Some (((a * 16 + b) * 16 + c) * 16 + d)"
  by (simp add: u4_def hex4_def hexval_hexdigit)

lemma u4_hex: "n < 65536 \<Longrightarrow> u4 (hex 4 n @ rest) = Some n"
proof -
  assume n: "n < 65536"
  have hex4: "hex 4 n = [hexdigit (n div 16 div 16 div 16 mod 16), hexdigit (n div 16 div 16 mod 16),
      hexdigit (n div 16 mod 16), hexdigit (n mod 16)]"
  proof -
    have four: "(4::nat) = Suc (Suc (Suc (Suc 0)))" by simp
    show ?thesis unfolding four by (simp only: hex.simps append.simps)
  qed
  have lt: "m mod 16 < (16::nat)" for m by simp
  have "n div 16 div 16 div 16 mod 16 = n div 16 div 16 div 16"
    using n by (intro mod_less) (simp add: div_mult2_eq [symmetric])
  then show ?thesis
    unfolding hex4 append.simps u4_hexdigits [OF lt lt lt lt] by (simp only: div_mult_mod_eq)
qed

lemma length_hex [simp]: "length (hex k n) = k"
  by (induction k arbitrary: n) simp_all

lemma parse_string_char:
  assumes "string_char s = Some (v, w)" and "0 < w" and "s \<noteq> []" and "hd s \<noteq> CHR 0x22"
  shows "parse_string s = map_option (\<lambda>(t, rest). (v @ t, rest)) (parse_string (drop w s))"
  using assms parse_string.simps [of s] by (cases s) (simp_all add: max_def)

lemma parse_string_bad:
  assumes "string_char s = None" and "s \<noteq> []" and "hd s \<noteq> CHR 0x22"
  shows "parse_string s = None"
  using assms parse_string.simps [of s] by (cases s) simp_all

lemma string_char_plain:
  fixes n :: nat
  assumes "32 \<le> n" "n < 128" "n \<noteq> 92"
  shows "string_char (char_of n # rest) = Some ([char_of n], 1)"
proof -
  have "(of_char (char_of n :: char) :: nat) = n" using assms by (simp add: of_char_of)
  moreover have "(char_of n :: char) \<noteq> bs" using assms by (simp add: char_of_eq_iff)
  ultimately show ?thesis using assms by (simp add: string_char_def Let_def)
qed

lemma string_char_u4:
  assumes "n < 128"
  shows "string_char ([bs, CHR ''u''] @ hex 4 n @ rest) = Some ([char_of n], 6)"
  using assms by (simp add: string_char_def u4_hex encode_rune_def Let_def)

lemma string_char_escape:
  assumes "json_escape e = Some v" and "e \<noteq> CHR ''u''"
  shows "string_char (bs # e # rest) = Some ([v], 2)"
  using assms by (simp add: string_char_def Let_def)

lemma parse_plain:
  fixes n :: nat
  shows "32 \<le> n \<Longrightarrow> n < 128 \<Longrightarrow> n \<noteq> 34 \<Longrightarrow> n \<noteq> 92
   \<Longrightarrow> parse_string (char_of n # rest) = map_option (\<lambda>(t, r). (char_of n # t, r)) (parse_string rest)"
  by (subst parse_string_char [OF string_char_plain]) (simp_all add: char_of_eq_iff)

lemma parse_u4:
  "n < 128 \<Longrightarrow> parse_string ([bs, CHR ''u''] @ hex 4 n @ rest)
     = map_option (\<lambda>(t, r). (char_of n # t, r)) (parse_string rest)"
  by (subst parse_string_char [OF string_char_u4]) simp_all

lemma parse_escape:
  "json_escape e = Some v \<Longrightarrow> e \<noteq> CHR ''u''
   \<Longrightarrow> parse_string (bs # e # rest) = map_option (\<lambda>(t, r). (v # t, r)) (parse_string rest)"
  by (subst parse_string_char [OF string_char_escape]) simp_all

lemmas char_of_special =
  char_of_eq_iff [of 34 "CHR 0x22", simplified] char_of_eq_iff [of 92 bs, simplified]
  char_of_eq_iff [of 8 "CHR 0x08", simplified] char_of_eq_iff [of 9 "CHR 0x09", simplified]
  char_of_eq_iff [of 10 "CHR 0x0A", simplified] char_of_eq_iff [of 12 "CHR 0x0C", simplified]
  char_of_eq_iff [of 13 "CHR 0x0D", simplified]

lemma parse_marshal_ascii:
  assumes "n < 128"
  shows "parse_string (marshal_ascii n @ rest) = map_option (\<lambda>(t, r). (char_of n # t, r)) (parse_string rest)"
proof -
  consider "n = 34" | "n = 92" | "n = 10" | "n = 13" | "n = 9"
    | "n \<notin> {34, 92, 10, 13, 9}" "n < 32 \<or> n = 60 \<or> n = 62 \<or> n = 38"
    | "n \<notin> {34, 92, 10, 13, 9}" "\<not> (n < 32 \<or> n = 60 \<or> n = 62 \<or> n = 38)"
    by blast
  then show ?thesis
  proof cases
    case 6
    then have "marshal_ascii n = [bs, CHR ''u''] @ hex 4 n" by (auto simp: marshal_ascii_def)
    with parse_u4 [OF assms, of rest] show ?thesis by simp
  next
    case 7
    then have "marshal_ascii n = [char_of n]" by (auto simp: marshal_ascii_def)
    with parse_plain [of n rest] 7 assms show ?thesis by simp
  qed (simp_all add: marshal_ascii_def parse_escape json_escape_def char_of_special)
qed

abbreviation ascii :: "string \<Rightarrow> bool" where
  "ascii s \<equiv> \<forall>c \<in> set s. (of_char c :: nat) < 128"

lemma parse_quote_end: "parse_string (CHR 0x22 # rest) = Some ([], rest)"
  by (simp add: parse_string.simps)

lemma parse_marshal_body:
  "ascii s \<Longrightarrow> parse_string (marshal_body s @ CHR 0x22 # rest) = Some (s, rest)"
proof (induction s)
  case Nil
  then show ?case by (simp add: marshal_body.simps parse_quote_end)
next
  case (Cons c cs)
  then have "marshal_body (c # cs) = marshal_ascii (of_char c) @ marshal_body cs"
    by (simp add: marshal_body.simps [of "c # cs"])
  with Cons show ?case by (simp add: parse_marshal_ascii)
qed

text \<open>
  What \<^verbatim>\<open>%q\<close> writes is a JSON string for the same text, unless the text has a control
  character other than backspace, tab, newline, form feed and carriage return.
\<close>

definition not_json :: "char \<Rightarrow> bool" where
  "not_json c \<longleftrightarrow> (let n = of_char c :: nat in n < 32 \<and> n \<notin> {8, 9, 10, 12, 13})"

lemma parse_quote_ascii:
  assumes "n < 128"
  shows "parse_string (quote_ascii n @ rest) =
    (if not_json (char_of n) then None
     else map_option (\<lambda>(t, r). (char_of n # t, r)) (parse_string rest))"
proof -
  have n: "(of_char (char_of n :: char) :: nat) = n" using assms by (simp add: of_char_of)
  have bad: "parse_string (bs # e # t) = None" if "e = CHR ''x'' \<or> e = CHR ''a'' \<or> e = CHR ''v''" for e t
    using that by (intro parse_string_bad) (auto simp: string_char_def json_escape_def)
  consider "n \<in> {34, 92, 8, 9, 10, 12, 13}" | "32 \<le> n" "n < 127" "n \<noteq> 34" "n \<noteq> 92" | "n = 127"
    | "n < 32" "n \<notin> {8, 9, 10, 12, 13}"
    using assms by fastforce
  then show ?thesis
  proof cases
    case 1
    then consider "n = 34" | "n = 92" | "n = 8" | "n = 9" | "n = 10" | "n = 12" | "n = 13" by blast
    then show ?thesis
      by cases (simp_all add: quote_ascii_def not_json_def parse_escape json_escape_def char_of_special)
  next
    case 2
    then have "quote_ascii n = [char_of n]" by (simp add: quote_ascii_def)
    with parse_plain [of n rest] 2 n show ?thesis by (simp add: not_json_def)
  next
    case 3
    then have "quote_ascii n = [bs, CHR ''u''] @ hex 4 n" by (simp add: quote_ascii_def)
    with parse_u4 [OF assms, of rest] 3 n show ?thesis by (simp add: not_json_def)
  next
    case 4
    then have "\<exists>e t. quote_ascii n = bs # e # t \<and> (e = CHR ''x'' \<or> e = CHR ''a'' \<or> e = CHR ''v'')"
      by (auto simp: quote_ascii_def)
    then obtain e t where et: "quote_ascii n = bs # e # t"
      "e = CHR ''x'' \<or> e = CHR ''a'' \<or> e = CHR ''v''" by blast
    have "not_json (char_of n)" unfolding not_json_def n Let_def using 4 by blast
    then show ?thesis unfolding et(1) using bad [OF et(2), of "t @ rest"] by simp
  qed
qed

lemma parse_quote_body:
  "ascii s \<Longrightarrow> parse_string (quote_body pr s @ CHR 0x22 # rest) =
    (if \<exists>c \<in> set s. not_json c then None else Some (s, rest))"
proof (induction s)
  case Nil
  then show ?case by (simp add: quote_body.simps parse_quote_end)
next
  case (Cons c cs)
  then have "quote_body pr (c # cs) = quote_ascii (of_char c) @ quote_body pr cs"
    by (simp add: quote_body.simps [of pr "c # cs"])
  with Cons show ?case by (simp add: parse_quote_ascii)
qed

section \<open>Numbers\<close>

definition number_ends :: "string \<Rightarrow> bool" where
  "number_ends rest \<longleftrightarrow> rest = [] \<or> (\<not> is_digit (hd rest) \<and> hd rest \<notin> {CHR ''.'', CHR ''e'', CHR ''E''})"

lemma digits_append:
  assumes "list_all is_digit d" and "rest = [] \<or> \<not> is_digit (hd rest)"
  shows "digits (d @ rest) = d \<and> after_digits (d @ rest) = rest"
  using assms by (induction d) (cases rest; auto)+

lemma hd_nat_digits_nonzero: "0 < n \<Longrightarrow> hd (nat_digits n) \<noteq> CHR ''0''"
proof (induction n rule: nat_digits.induct)
  case (1 n)
  show ?case
  proof (cases "n < 10")
    case True
    have "digit_val (digit_char n) = n" using True by simp
    moreover have "digit_val CHR ''0'' = 0" by code_simp
    ultimately have "digit_char n \<noteq> CHR ''0''" using 1(2) by auto
    with True show ?thesis by (simp add: nat_digits.simps [of n])
  next
    case False
    then have "hd (nat_digits (n div 10)) \<noteq> CHR ''0''" by (intro 1(1)) simp_all
    with False show ?thesis by (simp add: nat_digits.simps [of n])
  qed
qed

lemma parse_int_digits:
  assumes "number_ends rest"
  shows "parse_int (nat_digits n @ rest) = Some (n, rest)"
proof (cases "n = 0")
  case True
  have "nat_digits 0 = ''0''" by code_simp
  with True show ?thesis by (simp add: parse_int_def)
next
  case False
  then have "hd (nat_digits n) \<noteq> CHR ''0''" by (intro hd_nat_digits_nonzero) simp
  moreover have "digits (nat_digits n @ rest) = nat_digits n \<and> after_digits (nat_digits n @ rest) = rest"
    using assms by (intro digits_append nat_digits_digits) (auto simp: number_ends_def)
  ultimately show ?thesis
    using hd_nat_digits [of n] digits_val_nat_digits [of n]
    by (cases "nat_digits n") (auto simp: parse_int_def simp del: takeWhile.simps dropWhile.simps)
qed

lemma parse_Itoa: "number_ends rest \<Longrightarrow> parse_number (Itoa i @ rest) = Some (of_int i, rest)"
proof -
  assume rest: "number_ends rest"
  then have fe: "parse_frac rest = Some (0, rest)" "parse_exp rest = Some (1, rest)"
    by (cases rest; auto simp: number_ends_def parse_frac_def parse_exp_def)+
  have "hd (nat_digits m) \<noteq> CHR ''-''" for m using hd_nat_digits [of m] by auto
  then show ?thesis
    using parse_int_digits [OF rest]
    by (auto simp: parse_number_def Itoa_def fe Let_def)
qed

section \<open>Values\<close>

text \<open>
  A value as it comes back: integers are numbers, and the keys of an object are in order.
  \<open>plain_json\<close>: no float, no duplicate key, and every string ASCII.
\<close>

primrec json_norm :: "json \<Rightarrow> json" where
  "json_norm JNull = JNull"
| "json_norm (JBool b) = JBool b"
| "json_norm (JNum r) = JNum r"
| "json_norm (JInt i) = JNum (of_int i)"
| "json_norm (JStr s) = JStr s"
| "json_norm (JArr xs) = JArr (map json_norm xs)"
| "json_norm (JObj m) = JObj (sort_keys (map (map_prod id json_norm) m))"
| "json_norm (JStruct m) = JObj (map (map_prod id json_norm) m)"

primrec plain_json :: "json \<Rightarrow> bool" where
  "plain_json JNull = True"
| "plain_json (JBool b) = True"
| "plain_json (JNum r) = False"
| "plain_json (JInt i) = True"
| "plain_json (JStr s) = ascii s"
| "plain_json (JArr xs) = list_all id (map plain_json xs)"
| "plain_json (JObj m) =
     (wf_map m \<and> list_all (\<lambda>p. fst p \<and> snd p) (map (map_prod (\<lambda>k. ascii k) plain_json) m))"
| "plain_json (JStruct m) =
     (wf_map m \<and> list_all (\<lambda>p. fst p \<and> snd p) (map (map_prod (\<lambda>k. ascii k) plain_json) m))"

lemma insert_key_map: "insert_key (k, f v) (map (map_prod id f) m) = map (map_prod id f) (insert_key (k, v) m)"
  by (induction m) auto

lemma sort_keys_map: "sort_keys (map (map_prod id f) m) = map (map_prod id f) (sort_keys m)"
proof (induction m)
  case (Cons x m)
  then show ?case by (cases x) (simp add: sort_keys_def insert_key_map [unfolded id_def])
qed (simp add: sort_keys_def)

lemma keys_insert_key: "set (map fst (insert_key kv m)) = insert (fst kv) (set (map fst m))"
  by simp

lemma distinct_insert_key:
  "fst kv \<notin> set (map fst m) \<Longrightarrow> distinct (map fst m) \<Longrightarrow> distinct (map fst (insert_key kv m))"
  by (induction m) auto

lemma wf_map_sort_keys: "wf_map m \<Longrightarrow> wf_map (sort_keys m)"
proof (induction m)
  case (Cons x m)
  then have "fst x \<notin> set (map fst (sort_keys m))" by (auto simp: wf_map_def)
  with Cons show ?case
    using distinct_insert_key [of x "sort_keys m"] by (simp add: wf_map_def sort_keys_def)
qed (simp add: sort_keys_def)

definition eventually_parses :: "(nat \<Rightarrow> (json \<times> string) option) \<Rightarrow> json \<Rightarrow> string \<Rightarrow> bool" where
  "eventually_parses p j rest \<longleftrightarrow> (\<exists>N. \<forall>f \<ge> N. p f = Some (j, rest))"

lemma eventually_parses_Suc:
  assumes "\<And>f. q f = Some (j, rest) \<Longrightarrow> p (Suc f) = Some (j', rest')" and "eventually_parses q j rest"
  shows "eventually_parses p j' rest'"
proof -
  obtain N where N: "\<forall>f \<ge> N. q f = Some (j, rest)" using assms(2) by (auto simp: eventually_parses_def)
  have "p f = Some (j', rest')" if "Suc N \<le> f" for f
    using that N assms(1) [of "f - 1"] by (cases f) auto
  then show ?thesis unfolding eventually_parses_def by blast
qed

lemma eventually_parses_both:
  assumes "\<And>f. q1 f = Some (j1, r1) \<Longrightarrow> q2 f = Some (j2, r2) \<Longrightarrow> p (Suc f) = Some (j', rest')"
    and "eventually_parses q1 j1 r1" and "eventually_parses q2 j2 r2"
  shows "eventually_parses p j' rest'"
proof -
  obtain N1 N2 where N: "\<forall>f \<ge> N1. q1 f = Some (j1, r1)" "\<forall>f \<ge> N2. q2 f = Some (j2, r2)"
    using assms(2,3) by (auto simp: eventually_parses_def)
  have "p f = Some (j', rest')" if "Suc (N1 + N2) \<le> f" for f
    using that N assms(1) [of "f - 1"] by (cases f) auto
  then show ?thesis unfolding eventually_parses_def by blast
qed

lemma eventually_parses_now:
  "(\<And>f. p (Suc f) = Some (j, rest)) \<Longrightarrow> eventually_parses p j rest"
  by (rule eventually_parses_Suc [where q = "\<lambda>_. Some (j, rest)"]) (auto simp: eventually_parses_def)

lemma skip_ws_id: "s \<noteq> [] \<Longrightarrow> \<not> is_ws (hd s) \<Longrightarrow> skip_ws s = s"
  by (cases s) simp_all

text \<open>The texts a value may start with.\<close>

definition value_start :: "char \<Rightarrow> bool" where
  "value_start c \<longleftrightarrow> \<not> is_ws c \<and> c \<noteq> CHR 0x5D \<and> c \<noteq> CHR 0x7D"

definition starts_value :: "string \<Rightarrow> bool" where
  "starts_value s \<longleftrightarrow> s \<noteq> [] \<and> value_start (hd s)"

lemma starts_value_append: "starts_value s \<Longrightarrow> starts_value (s @ t)"
  by (simp add: starts_value_def)

lemma starts_value_skip: "starts_value s \<Longrightarrow> skip_ws s = s"
  by (auto simp: starts_value_def value_start_def intro!: skip_ws_id)

lemma parse_array:
  assumes "starts_value s" and "eventually_parses (\<lambda>f. parse_elements f [] (s @ t)) (JArr xs) rest"
  shows "eventually_parses (\<lambda>f. parse_value f (CHR 0x5B # s @ t)) (JArr xs) rest"
  using assms(2)
proof (rule eventually_parses_Suc [rotated])
  fix f assume *: "parse_elements f [] (s @ t) = Some (JArr xs, rest)"
  have "skip_ws (s @ t) = s @ t" "s \<noteq> []" "hd s \<noteq> CHR 0x5D"
    using assms(1) starts_value_skip [OF starts_value_append [OF assms(1)]]
    by (auto simp: starts_value_def value_start_def)
  then show "parse_value (Suc f) (CHR 0x5B # s @ t) = Some (JArr xs, rest)"
    using * by (cases s) (simp_all add: parse_value.simps is_ws_def)
qed

lemma parse_object:
  assumes "starts_value s" and "eventually_parses (\<lambda>f. parse_members f [] (s @ t)) (JObj m) rest"
  shows "eventually_parses (\<lambda>f. parse_value f (CHR 0x7B # s @ t)) (JObj m) rest"
  using assms(2)
proof (rule eventually_parses_Suc [rotated])
  fix f assume *: "parse_members f [] (s @ t) = Some (JObj m, rest)"
  have "skip_ws (s @ t) = s @ t" "s \<noteq> []" "hd s \<noteq> CHR 0x7D"
    using assms(1) starts_value_skip [OF starts_value_append [OF assms(1)]]
    by (auto simp: starts_value_def value_start_def)
  then show "parse_value (Suc f) (CHR 0x7B # s @ t) = Some (JObj m, rest)"
    using * by (cases s) (simp_all add: parse_value.simps is_ws_def)
qed

text \<open>
  A list of values, or of members, is read back if each of them is.  \<open>w\<close> writes a value and
  \<open>n\<close> is the value read.
\<close>

abbreviation reads :: "('a \<Rightarrow> string) \<Rightarrow> ('a \<Rightarrow> json) \<Rightarrow> 'a \<Rightarrow> bool" where
  "reads w n x \<equiv> (\<forall>rest. number_ends rest \<longrightarrow> eventually_parses (\<lambda>f. parse_value f (w x @ rest)) (n x) rest)"

lemma number_ends_marks [simp]:
  "number_ends (CHR '','' # r)" "number_ends (CHR 0x5D # r)" "number_ends (CHR 0x7D # r)" "number_ends []"
  by (simp_all add: number_ends_def is_digit_def)

lemma parse_elements_reads:
  assumes "xs \<noteq> []" and "\<forall>x \<in> set xs. reads w n x"
  shows "eventually_parses (\<lambda>f. parse_elements f acc (Join (map w xs) '','' @ CHR 0x5D # rest))
    (JArr (acc @ map n xs)) rest"
  using assms
proof (induction xs arbitrary: acc)
  case (Cons x xs)
  show ?case
  proof (cases xs)
    case Nil
    have "eventually_parses (\<lambda>f. parse_value f (w x @ CHR 0x5D # rest)) (n x) (CHR 0x5D # rest)"
      using Cons.prems by simp
    then show ?thesis
      by (rule eventually_parses_Suc [rotated]) (simp add: Nil parse_elements.simps is_ws_def)
  next
    case (Cons y ys)
    let ?t = "Join (map w xs) '','' @ CHR 0x5D # rest"
    have v: "eventually_parses (\<lambda>f. parse_value f (w x @ CHR '','' # ?t)) (n x) (CHR '','' # ?t)"
      using Cons.prems by simp
    have e: "eventually_parses (\<lambda>f. parse_elements f (acc @ [n x]) ?t) (JArr ((acc @ [n x]) @ map n xs)) rest"
      using Cons.prems Cons by (intro Cons.IH) auto
    have t: "Join (map w (x # xs)) '','' @ CHR 0x5D # rest = w x @ CHR '','' # ?t"
      by (simp add: Cons)
    show ?thesis
      unfolding t by (rule eventually_parses_both [OF _ v e]) (simp add: parse_elements.simps is_ws_def)
  qed
qed simp

text \<open>\<open>q\<close> writes the string \<open>k\<close> so that it is read back.\<close>

definition quotes :: "(string \<Rightarrow> string) \<Rightarrow> string \<Rightarrow> bool" where
  "quotes q k \<longleftrightarrow> (\<exists>b. q k = CHR 0x22 # b @ [CHR 0x22]
     \<and> (\<forall>rest. parse_string (b @ CHR 0x22 # rest) = Some (k, rest)))"

lemma quotes_marshal: "ascii k \<Longrightarrow> quotes marshal_string k"
  unfolding quotes_def using parse_marshal_body by (auto simp: marshal_string_def)

lemma parse_value_quotes:
  "quotes q k \<Longrightarrow> parse_value (Suc f) (q k @ rest) = Some (JStr k, rest)"
  by (auto simp: quotes_def parse_value.simps is_ws_def)

lemma parse_members_quotes:
  assumes "quotes q k"
  shows "parse_members (Suc f) acc (q k @ CHR '':'' # t) =
    (case parse_value f t of
       None \<Rightarrow> None
     | Some (v, r3) \<Rightarrow>
         (case skip_ws r3 of
            [] \<Rightarrow> None
          | e # r4 \<Rightarrow>
              if e = CHR '','' then parse_members f (mset acc k v) r4
              else if e = CHR 0x7D then Some (JObj (mset acc k v), r4)
              else None))"
  using assms by (auto simp: quotes_def parse_members.simps(2) [of f] is_ws_def)

lemma parse_members_reads:
  assumes "m \<noteq> []" and "\<forall>(k, v) \<in> set m. quotes q k \<and> reads w n v" and "wf_map m"
    and "fst ` set acc \<inter> fst ` set m = {}"
  shows "eventually_parses (\<lambda>f. parse_members f acc
      (Join (map (\<lambda>(k, v). q k @ '':'' @ w v) m) '','' @ CHR 0x7D # rest))
    (JObj (acc @ map (map_prod id n) m)) rest"
  using assms
proof (induction m arbitrary: acc)
  case (Cons kv m)
  obtain k v where kv: "kv = (k, v)" by (cases kv)
  have k: "quotes q k" and v: "reads w n v" using Cons.prems kv by auto
  have new: "mset acc k (n v) = acc @ [(k, n v)]"
    using Cons.prems(4) by (intro mset_new) (auto simp: kv)
  show ?case
  proof (cases m)
    case Nil
    have "eventually_parses (\<lambda>f. parse_value f (w v @ CHR 0x7D # rest)) (n v) (CHR 0x7D # rest)"
      using v by simp
    then show ?thesis
      by (rule eventually_parses_Suc [rotated])
        (simp add: Nil kv parse_members_quotes [OF k] is_ws_def new)
  next
    case (Cons kv' m')
    let ?t = "Join (map (\<lambda>(k, v). q k @ '':'' @ w v) m) '','' @ CHR 0x7D # rest"
    have v': "eventually_parses (\<lambda>f. parse_value f (w v @ CHR '','' # ?t)) (n v) (CHR '','' # ?t)"
      using v by simp
    have e: "eventually_parses (\<lambda>f. parse_members f (acc @ [(k, n v)]) ?t)
        (JObj ((acc @ [(k, n v)]) @ map (map_prod id n) m)) rest"
      using Cons.prems Cons by (intro Cons.IH) (auto simp: kv wf_map_def)
    have t: "Join (map (\<lambda>(k, v). q k @ '':'' @ w v) (kv # m)) '','' @ CHR 0x7D # rest
        = q k @ '':'' @ w v @ CHR '','' # ?t"
      by (simp add: Cons kv)
    show ?thesis
      unfolding t by (rule eventually_parses_both [OF _ v' e])
        (simp add: kv parse_members_quotes [OF k] is_ws_def new id_def)
  qed
qed simp

lemma marshal_starts: "plain_json j \<Longrightarrow> starts_value (marshal fn j)"
proof (cases j)
  case (JInt i)
  have "value_start (hd (nat_digits k))" for k
    using hd_nat_digits [of k] by (auto simp: value_start_def is_ws_def is_digit_def)
  with JInt show ?thesis
    by (simp add: marshal_cases Itoa_def starts_value_def value_start_def is_ws_def)
qed (simp_all add: marshal_cases starts_value_def value_start_def is_ws_def marshal_string_def)

lemma starts_value_Join: "xs \<noteq> [] \<Longrightarrow> starts_value (hd xs) \<Longrightarrow> starts_value (Join xs sep)"
  by (cases xs; cases "tl xs") (simp_all add: starts_value_append)

lemma starts_value_quote: "quotes q k \<Longrightarrow> starts_value (q k @ t)"
  by (auto simp: quotes_def starts_value_def value_start_def is_ws_def)

lemma parse_value_Itoa: "number_ends rest \<Longrightarrow> parse_value (Suc f) (Itoa i @ rest) = Some (JNum (of_int i), rest)"
proof -
  assume rest: "number_ends rest"
  obtain c r where c: "Itoa i = c # r" "is_digit c \<or> c = CHR ''-''"
    using hd_nat_digits [of "nat i"] by (cases "Itoa i") (auto simp: Itoa_def split: if_splits)
  then have "\<not> is_ws c" "c \<notin> {CHR 0x7B, CHR 0x5B, CHR 0x22, CHR ''t'', CHR ''f'', CHR ''n''}"
    by (auto simp: is_ws_def is_digit_def)
  with c parse_Itoa [OF rest, of i] show ?thesis by (simp add: parse_value.simps)
qed

lemma reads_array:
  assumes "\<forall>x \<in> set xs. reads w n x \<and> starts_value (w x)"
  shows "eventually_parses (\<lambda>f. parse_value f (([CHR 0x5B] @ Join (map w xs) '','' @ [CHR 0x5D]) @ rest))
    (JArr (map n xs)) rest"
proof (cases "xs = []")
  case True
  then show ?thesis
    by (intro eventually_parses_now) (simp add: parse_value.simps is_ws_def)
next
  case False
  have "starts_value (Join (map w xs) '','')"
    using False assms by (intro starts_value_Join) (auto simp: hd_map)
  moreover have "eventually_parses (\<lambda>f. parse_elements f [] (Join (map w xs) '','' @ CHR 0x5D # rest))
      (JArr ([] @ map n xs)) rest"
    using False assms by (intro parse_elements_reads) auto
  ultimately show ?thesis using parse_array by simp
qed

lemma reads_object:
  assumes "\<forall>(k, v) \<in> set m. quotes q k \<and> reads w n v" and "wf_map m"
  shows "eventually_parses (\<lambda>f. parse_value f
      (([CHR 0x7B] @ Join (map (\<lambda>(k, v). q k @ '':'' @ w v) m) '','' @ [CHR 0x7D]) @ rest))
    (JObj (map (map_prod id n) m)) rest"
proof (cases "m = []")
  case True
  then show ?thesis
    by (intro eventually_parses_now) (simp add: parse_value.simps is_ws_def)
next
  case False
  have "starts_value (Join (map (\<lambda>(k, v). q k @ '':'' @ w v) m) '','')"
    using False assms(1) hd_in_set [OF False]
    by (intro starts_value_Join) (auto simp: hd_map case_prod_beta intro!: starts_value_quote [of q])
  moreover have "eventually_parses (\<lambda>f. parse_members f []
      (Join (map (\<lambda>(k, v). q k @ '':'' @ w v) m) '','' @ CHR 0x7D # rest))
      (JObj ([] @ map (map_prod id n) m)) rest"
    using False assms by (intro parse_members_reads) auto
  ultimately show ?thesis using parse_object by simp
qed

lemma reads_marshal: "plain_json j \<Longrightarrow> reads (marshal fn) json_norm j"
proof (induction j)
  case JNull
  show ?case
    by (intro allI impI eventually_parses_now)
      (simp add: parse_value.simps marshal_cases is_ws_def lit_def HasPrefix_def)
next
  case (JBool b)
  show ?case
    by (intro allI impI eventually_parses_now)
      (simp add: parse_value.simps marshal_cases is_ws_def lit_def HasPrefix_def)
next
  case (JInt i)
  show ?case
    by (intro allI impI eventually_parses_now) (simp add: marshal_cases parse_value_Itoa)
next
  case (JStr s)
  then have "parse_string (marshal_body s @ CHR 0x22 # rest) = Some (s, rest)" for rest
    by (intro parse_marshal_body) simp
  then show ?case
    by (intro allI impI eventually_parses_now)
      (simp add: parse_value.simps marshal_cases marshal_string_def is_ws_def)
next
  case (JArr xs)
  then have "\<forall>x \<in> set xs. plain_json x" by (auto simp: list_all_iff)
  with JArr.IH have "\<forall>x \<in> set xs. reads (marshal fn) json_norm x \<and> starts_value (marshal fn x)"
    by (auto simp: marshal_starts)
  then show ?case
    using reads_array [of xs "marshal fn" json_norm] by (simp add: marshal_cases)
next
  case (JObj m)
  have m: "\<forall>(k, v) \<in> set m. ascii k \<and> plain_json v" and wf: "wf_map m"
    using JObj.prems by (auto simp: list_all_iff)
  have "\<forall>(k, v) \<in> set (sort_keys m). quotes marshal_string k \<and> reads (marshal fn) json_norm v"
    using m JObj.IH quotes_marshal by (fastforce simp: snds.simps)
  then show ?case
    using reads_object [of "sort_keys m" marshal_string "marshal fn" json_norm] wf_map_sort_keys [OF wf]
    by (simp add: marshal_cases sort_keys_map)
next
  case (JStruct m)
  have m: "\<forall>(k, v) \<in> set m. ascii k \<and> plain_json v" and wf: "wf_map m"
    using JStruct.prems by (auto simp: list_all_iff)
  have "\<forall>(k, v) \<in> set m. quotes marshal_string k \<and> reads (marshal fn) json_norm v"
    using m JStruct.IH quotes_marshal by (fastforce simp: snds.simps)
  then show ?case
    using reads_object [of m marshal_string "marshal fn" json_norm] wf by (simp add: marshal_cases)
qed simp

lemma Unmarshal_marshal: "plain_json j \<Longrightarrow> Unmarshal (marshal fn j) = Ok (json_norm j)"
  using reads_marshal [of j fn] Unmarshal_fuel [of "marshal fn j" "json_norm j"]
  by (metis append_Nil2 eventually_parses_def number_ends_marks(4))

end
