(* ===== verification/TomlJson.thy ===== *)
theory TomlJson
  imports Toml JsonLaws
begin

text \<open>
  The JSON text that \<^verbatim>\<open>util/utils.go\<close> makes of a TOML value is read by the JSON decoder as the
  value it came from: \<open>denotes v j\<close> says that the JSON value \<open>j\<close> has the same content as the TOML
  value \<open>v\<close>.  This is proved for values whose strings are ASCII without the control characters
  that \<^verbatim>\<open>%q\<close> writes in Go's own syntax; for those characters the text is not JSON at all.
\<close>

inductive denotes :: "'o toml \<Rightarrow> json \<Rightarrow> bool" where
  den_str: "denotes (TStr s) (JStr s)"
| den_int: "denotes (TInt i) (JNum (of_int i))"
| den_bool: "denotes (TBool b) (JBool b)"
| den_arr: "list_all2 denotes xs js \<Longrightarrow> denotes (TArr xs) (JArr js)"
| den_tree: "t = TTree ks vs
    \<Longrightarrow> list_all2 (\<lambda>k kj. fst kj = k \<and> ((Get t k = None \<and> snd kj = JNull)
          \<or> (\<exists>v. Get t k = Some v \<and> denotes v (snd kj)))) ks m
    \<Longrightarrow> denotes t (JObj m)"

definition json_clean :: "string \<Rightarrow> bool" where
  "json_clean s \<longleftrightarrow> ascii s \<and> (\<forall>c \<in> set s. \<not> not_json c)"

definition is_table :: "'o toml \<Rightarrow> bool" where
  "is_table t = (case t of TTree _ _ \<Rightarrow> True | TTrees _ \<Rightarrow> True | _ \<Rightarrow> False)"

function clean_toml :: "'o toml \<Rightarrow> bool" where
  "clean_toml t =
     (case t of
        TTree ks vs \<Rightarrow> distinct ks \<and> (\<forall>k \<in> set ks. k \<noteq> [] \<and> json_clean k)
          \<and> (\<forall>v \<in> set (map snd vs). clean_toml v)
      | TStr s \<Rightarrow> json_clean s
      | TInt i \<Rightarrow> True
      | TBool b \<Rightarrow> True
      | TArr xs \<Rightarrow> (\<forall>x \<in> set xs. \<not> is_table x \<and> clean_toml x)
      | _ \<Rightarrow> False)"
  by pat_completeness auto
termination
proof (relation "measure size")
  fix t v :: "'o toml" and ks vs
  assume "t = TTree ks vs" and "v \<in> set (map snd vs)"
  then obtain k where "(k, v) \<in> set vs" by auto
  then have "size v \<le> size_list (size_prod (\<lambda>_. 0) size) vs"
    by (rule size_list_estimation') simp
  with \<open>t = TTree ks vs\<close> show "(v, t) \<in> measure size" by simp
next
  fix t x :: "'o toml" and xs
  assume "t = TArr xs" and "x \<in> set xs"
  then show "(x, t) \<in> measure size"
    using size_list_estimation' [of x xs "size x" size] by simp
qed simp

declare clean_toml.simps [simp del]

lemma clean_toml_cases [simp]:
  "clean_toml (TTree ks vs) \<longleftrightarrow> distinct ks \<and> (\<forall>k \<in> set ks. k \<noteq> [] \<and> json_clean k)
     \<and> (\<forall>v \<in> set (map snd vs). clean_toml v)"
  "clean_toml (TTrees ts) = False" "clean_toml (TStr s) = json_clean s" "clean_toml (TInt i)"
  "clean_toml (TBool b)" "clean_toml (TOther x) = False"
  "clean_toml (TArr xs) \<longleftrightarrow> (\<forall>x \<in> set xs. \<not> is_table x \<and> clean_toml x)"
  by (simp_all add: clean_toml.simps)

lemma mget_clean: "clean_toml t \<Longrightarrow> mget (subvalues t) k = Some v \<Longrightarrow> clean_toml v"
  by (cases t) (auto simp: subvalues_def dest!: map_of_SomeD)

lemma GetPath_clean: "GetPath t ks = Some v \<Longrightarrow> clean_toml t \<Longrightarrow> clean_toml v"
proof (induction t ks rule: GetPath.induct)
  case (3 t k k' ks)
  then obtain node where node: "mget (subvalues t) k = Some node" by (auto split: option.splits)
  with 3 mget_clean [OF 3(4) node] show ?case by (cases node) auto
qed (auto dest: mget_clean)

lemma Get_clean: "Get t k = Some v \<Longrightarrow> clean_toml t \<Longrightarrow> clean_toml v"
  by (auto simp: Get_def dest: mget_clean GetPath_clean split: if_splits option.splits)

section \<open>The text is read back\<close>

definition text_of :: "string \<Rightarrow> json \<Rightarrow> bool" where
  "text_of w j \<longleftrightarrow> starts_value w
     \<and> (\<forall>rest. number_ends rest \<longrightarrow> eventually_parses (\<lambda>f. parse_value f (w @ rest)) j rest)"

lemma text_of_now:
  "starts_value w \<Longrightarrow> (\<And>f rest. number_ends rest \<Longrightarrow> parse_value (Suc f) (w @ rest) = Some (j, rest))
   \<Longrightarrow> text_of w j"
  unfolding text_of_def by (auto intro!: eventually_parses_now)

lemma quotes_quote: "json_clean s \<Longrightarrow> quotes (quote fe) s"
  unfolding quotes_def quote_def json_clean_def
  by (intro exI [of _ "quote_body (isPrint fe) s"]) (simp add: parse_quote_body)

lemma text_of_quote: "json_clean s \<Longrightarrow> text_of (quote fe s) (JStr s)"
  using parse_value_quotes [OF quotes_quote] starts_value_quote [OF quotes_quote, of s fe "[]"]
  by (auto intro!: text_of_now)

lemma text_of_Itoa: "text_of (Itoa i) (JNum (of_int i))"
  using marshal_starts [of "JInt i"] by (intro text_of_now) (simp_all add: marshal_cases parse_value_Itoa)

lemma text_of_lit:
  "text_of ''null'' JNull" "text_of ''true'' (JBool True)" "text_of ''false'' (JBool False)"
  by (auto intro!: text_of_now simp: starts_value_def value_start_def is_ws_def parse_value.simps
      lit_def HasPrefix_def)

lemma text_of_list:
  assumes "list_all2 text_of ws js"
  shows "text_of (''['' @ Join ws '','' @ '']'') (JArr js)"
proof -
  let ?xs = "zip ws js"
  have len: "length ws = length js" using assms by (rule list_all2_lengthD)
  have ok: "\<forall>x \<in> set ?xs. reads fst snd x \<and> starts_value (fst x)"
    using assms by (fastforce simp: list_all2_iff text_of_def)
  have "eventually_parses (\<lambda>f. parse_value f (([CHR 0x5B] @ Join (map fst ?xs) '','' @ [CHR 0x5D]) @ rest))
      (JArr (map snd ?xs)) rest" for rest
    using ok by (rule reads_array)
  then show ?thesis
    unfolding text_of_def using len
    by (auto simp: starts_value_def value_start_def is_ws_def)
qed

lemma text_of_object:
  assumes "list_all2 text_of ws js" and "length ks = length ws" and "distinct ks"
    and "\<forall>k \<in> set ks. json_clean k"
  shows "text_of (''{'' @ Join (map2 (\<lambda>k w. quote fe k @ '':'' @ w) ks ws) '','' @ ''}'') (JObj (zip ks js))"
proof -
  let ?m = "zip ks (zip ws js)"
  have len: "length ws = length js" using assms(1) by (rule list_all2_lengthD)
  have ok: "\<forall>(k, v) \<in> set ?m. quotes (quote fe) k \<and> reads fst snd v"
    using assms(1,4) by (fastforce simp: list_all2_iff text_of_def quotes_quote dest: set_zip_leftD set_zip_rightD)
  have wf: "wf_map ?m" using assms(2,3) len by (simp add: wf_map_def)
  have 1: "map (\<lambda>(k, v). quote fe k @ '':'' @ fst v) ?m = map2 (\<lambda>k w. quote fe k @ '':'' @ w) ks ws"
    using assms(2) len by (intro nth_equalityI) auto
  have 2: "map (map_prod id snd) ?m = zip ks js"
    using assms(2) len by (intro nth_equalityI) auto
  have "eventually_parses (\<lambda>f. parse_value f (([CHR 0x7B]
      @ Join (map2 (\<lambda>k w. quote fe k @ '':'' @ w) ks ws) '','' @ [CHR 0x7D]) @ rest)) (JObj (zip ks js)) rest" for rest
    using reads_object [OF ok wf, of rest] unfolding 1 2 .
  then show ?thesis
    unfolding text_of_def by (auto simp: starts_value_def value_start_def is_ws_def)
qed

definition encodes :: "string \<Rightarrow> 'o toml \<Rightarrow> bool" where
  "encodes w v \<longleftrightarrow> (\<exists>j. denotes v j \<and> text_of w j)"

lemma encodes_scalars:
  "json_clean s \<Longrightarrow> encodes (quote fe s) (TStr s)" "encodes (fmt_v fe (TInt i)) (TInt i)"
  "encodes (fmt_v fe (TBool b)) (TBool b)"
  unfolding encodes_def
  using text_of_quote text_of_Itoa text_of_lit
  by (force simp: fmt_v_def intro: denotes.intros)+

lemma encodes_choice:
  assumes "\<forall>x \<in> set xs. encodes (w x) x"
  shows "\<exists>js. list_all2 denotes xs js \<and> list_all2 text_of (map w xs) js"
  using assms
proof (induction xs)
  case (Cons x xs)
  then obtain j js where "denotes x j" "text_of (w x) j" "list_all2 denotes xs js"
    "list_all2 text_of (map w xs) js" by (auto simp: encodes_def)
  then show ?case by (intro exI [of _ "j # js"]) simp
qed simp

lemma encodes_list: "clean_toml (TArr xs) \<Longrightarrow> encodes (ListToJson fe xs) (TArr xs)"
proof (induction fe xs rule: ListToJson.induct)
  case (1 fe xs)
  let ?w = "\<lambda>v. case v of TArr ys \<Rightarrow> ListToJson fe ys | TStr s \<Rightarrow> quote fe s | _ \<Rightarrow> fmt_v fe v"
  have "encodes (?w x) x" if x: "x \<in> set xs" for x
  proof -
    have c: "\<not> is_table x" "clean_toml x" using x 1(2) by auto
    have arr: "encodes (ListToJson fe ys) (TArr ys)" if "x = TArr ys" for ys
      using 1(1) [OF x that] c(2) that by simp
    show ?thesis
      by (cases x) (use c arr encodes_scalars in \<open>auto simp: is_table_def\<close>)
  qed
  then obtain js where "list_all2 denotes xs js" "list_all2 text_of (map ?w xs) js"
    using encodes_choice [of xs ?w] by blast
  then show ?case
    unfolding encodes_def ListToJson.simps [of fe xs]
    using text_of_list by (intro exI [of _ "JArr js"]) (auto intro: denotes.intros)
qed

lemma opt_seq_map: "(\<forall>x \<in> set xs. f x = Some (g x)) \<Longrightarrow> opt_seq (map f xs) = Some (map g xs)"
  by (induction xs) auto

text \<open>The text of the value under a key, \<open>null\<close> if there is none.\<close>

definition key_denotes :: "'o toml \<Rightarrow> string \<Rightarrow> json \<Rightarrow> bool" where
  "key_denotes t k j \<longleftrightarrow> (Get t k = None \<and> j = JNull) \<or> (\<exists>v. Get t k = Some v \<and> denotes v j)"

lemma encodes_tree:
  assumes t: "t = TTree ks vs" and clean: "clean_toml t"
    and w: "\<forall>k \<in> set ks. \<exists>j. key_denotes t k j \<and> text_of (w k) j"
  shows "encodes (''{'' @ Join (map (\<lambda>k. quote fe k @ '':'' @ w k) ks) '','' @ ''}'') t"
proof -
  obtain f where f: "\<forall>k \<in> set ks. key_denotes t k (f k) \<and> text_of (w k) (f k)"
    using w by metis
  let ?js = "map f ks"
  have "list_all2 text_of (map w ks) ?js" using f by (simp add: list_all2_conv_all_nth)
  moreover have "distinct ks" "\<forall>k \<in> set ks. json_clean k" using t clean by auto
  ultimately have "text_of (''{'' @ Join (map2 (\<lambda>k w. quote fe k @ '':'' @ w) ks (map w ks)) '','' @ ''}'')
      (JObj (zip ks ?js))"
    by (intro text_of_object) simp_all
  moreover have "map2 (\<lambda>k w. quote fe k @ '':'' @ w) ks (map w ks) = map (\<lambda>k. quote fe k @ '':'' @ w k) ks"
    by (intro nth_equalityI) auto
  moreover have "denotes t (JObj (zip ks ?js))"
    using t by (rule den_tree) (use f in \<open>auto simp: list_all2_conv_all_nth key_denotes_def\<close>)
  ultimately show ?thesis unfolding encodes_def by auto
qed

lemma JsonEncode_clean:
  "clean_toml v \<Longrightarrow> size v < fuel \<Longrightarrow> \<exists>w. JsonEncode fuel fe (Some v) = Some w \<and> encodes w v"
proof (induction fuel arbitrary: v)
  case 0
  then show ?case by simp
next
  case (Suc fuel)
  show ?case
  proof (cases v)
    case (TTree ks vs)
    have sub: "\<exists>w j. JsonEncode fuel fe (Get v k) = Some w \<and> key_denotes v k j \<and> text_of w j"
      if k: "k \<in> set ks" for k
    proof (cases "Get v k")
      case None
      then show ?thesis using text_of_lit by (auto simp: JsonEncode_def key_denotes_def)
    next
      case (Some u)
      have "k \<noteq> []" using k TTree Suc.prems(1) by auto
      then have "size u < fuel" using Get_sub [OF Some] Suc.prems(2) by auto
      moreover have "clean_toml u" using Get_clean [OF Some Suc.prems(1)] .
      ultimately obtain w where "JsonEncode fuel fe (Some u) = Some w" "encodes w u"
        using Suc.IH by blast
      then show ?thesis using Some by (auto simp: encodes_def key_denotes_def)
    qed
    define w where "w k = the (JsonEncode fuel fe (Get v k))" for k
    have ok: "\<forall>k \<in> set ks. JsonEncode fuel fe (Get v k) = Some (w k)"
      "\<forall>k \<in> set ks. \<exists>j. key_denotes v k j \<and> text_of (w k) j"
      using sub by (fastforce simp: w_def)+
    have enc: "encodes (''{'' @ Join (map (\<lambda>k. quote fe k @ '':'' @ w k) ks) '','' @ ''}'') v"
      using encodes_tree [OF TTree Suc.prems(1) ok(2)] .
    have "opt_seq (map (\<lambda>k. map_option (\<lambda>valueB. quote fe k @ '':'' @ valueB) (JsonEncode fuel fe (Get v k))) ks)
        = Some (map (\<lambda>k. quote fe k @ '':'' @ w k) ks)"
      using ok(1) by (intro opt_seq_map) simp
    then have "JsonEncode (Suc fuel) fe (Some v)
        = Some (''{'' @ Join (map (\<lambda>k. quote fe k @ '':'' @ w k) ks) '','' @ ''}'')"
      by (simp add: JsonEncode_def TTree Keys_def cong: option.case_cong)
    with enc show ?thesis by blast
  qed (use Suc.prems encodes_scalars encodes_list in \<open>auto simp: JsonEncode_def\<close>)
qed

lemma text_of_Unmarshal: "text_of w j \<Longrightarrow> Unmarshal w = Ok j"
  using Unmarshal_fuel [of w j] by (metis append_Nil2 eventually_parses_def number_ends_marks(4) text_of_def)

section \<open>Configuration values as JSON\<close>

text \<open>C6: the JSON text that the client makes of a configuration (the value of the first key of its
  TOML document) exists and is decoded as a JSON value with the same content, for every
  document of tables, arrays, strings, integers and booleans whose strings and keys are ASCII without
  the control characters that only Go's syntax can escape.\<close>

theorem TomlConfigValueToJson_decodes:
  assumes "load content = Ok t" and "clean_toml t" and "Keys t = key # ks" and "Get t key = Some v"
  shows "\<exists>re j. TomlConfigValueToJson load fe content = Ok (Some re) \<and> denotes v j \<and> Unmarshal re = Ok j"
proof -
  have "key \<noteq> []" using assms(2,3) by (cases t) (auto simp: Keys_def)
  then have "size v < Suc (size t)" using Get_sub [OF assms(4)] by simp
  then obtain w where w: "JsonEncode (Suc (size t)) fe (Some v) = Some w" "encodes w v"
    using JsonEncode_clean [OF Get_clean [OF assms(4,2)]] by blast
  then obtain j where "denotes v j" "Unmarshal w = Ok j"
    by (auto simp: encodes_def text_of_Unmarshal)
  with w(1) assms show ?thesis
    by (auto simp: TomlConfigValueToJson_def returned_def)
qed

definition demo_fmt :: "unit fmtenv" where
  "demo_fmt = \<lparr>isPrint = (\<lambda>_. True), fmt_other = (\<lambda>_. []), fmt_ptr = (\<lambda>_. ''0x0'')\<rparr>"

definition demo_toml :: "unit toml" where
  "demo_toml = TTree [''Db'']
     [(''Db'', TTree [''host'', ''ports''] [(''host'', TStr ''a'' ), (''ports'', TArr [TInt 1, TBool True])])]"

theorem TomlConfigValueToJson_decodes_witness:
  "\<exists>re j. TomlConfigValueToJson (\<lambda>_. Ok demo_toml) demo_fmt ''x'' = Ok (Some re)
     \<and> denotes (TTree [''host'', ''ports'']
          [(''host'', TStr ''a'' ), (''ports'', TArr [TInt 1, TBool True])] :: unit toml) j
     \<and> Unmarshal re = Ok j"
proof (rule TomlConfigValueToJson_decodes [where t = demo_toml and key = "''Db''" and ks = "[]"])
  show "clean_toml demo_toml"
    by (simp add: demo_toml_def json_clean_def is_table_def not_json_def)
qed (simp_all add: demo_toml_def Keys_def Get_def subvalues_def)

text \<open>The quoted form of an ASCII string (\<^verbatim>\<open>%q\<close>) is JSON for that string exactly when the string has no
  control character besides backspace, tab, newline, form feed and carriage return; otherwise
  it is not JSON.\<close>

theorem quote_is_json_iff:
  assumes "\<forall>c \<in> set s. (of_char c :: nat) < 128"
  shows "Unmarshal (the (JsonEncode fuel fe (Some (TStr s)))) =
    (if \<exists>c \<in> set s. not_json c then Err json_error else Ok (JStr s))"
proof (cases "\<exists>c \<in> set s. not_json c")
  case True
  then have "parse_string (quote_body (isPrint fe) s @ [CHR 0x22]) = None"
    using parse_quote_body [OF assms, of "isPrint fe" "[]"] by simp
  then have "parse_value (2 * length (quote fe s) + 2) (quote fe s) = None"
    by (simp add: quote_def parse_value.simps is_ws_def)
  with True show ?thesis by (simp add: Unmarshal_def JsonEncode_def)
next
  case False
  then have "json_clean s" using assms by (simp add: json_clean_def)
  with False show ?thesis by (simp add: JsonEncode_def text_of_Unmarshal text_of_quote)
qed

theorem quote_is_json_iff_witness:
  "Unmarshal (the (JsonEncode 1 demo_fmt (Some (TStr [CHR 0x01])))) = Err json_error"
  using quote_is_json_iff [of "[CHR 0x01]" 1 demo_fmt] by (simp add: not_json_def)

end
