(* ===== verification/ConfigTypes.thy ===== *)
theory ConfigTypes
  imports Complex_Main Prelude
begin

text \<open>
  The settings of the client (\<^verbatim>\<open>config/setup_config.go\<close>: the type \<^verbatim>\<open>Config\<close>), and the part of
  the file system that the client looks at.  A \<^verbatim>\<open>float64\<close> that is not NaN or infinite is a
  rational number.
\<close>

record Config =
  ListenAddr :: string
  ListenAddrTransi :: string
  RunAsBi :: bool
  InstallDir :: string
  PidFile :: string
  DATA_ROOT :: string
  DATA_DIR :: string
  LOG_DIR :: string
  CONFIG_DIR :: "string list"
  DAEMON_USER :: string
  DAEMON_UID :: int
  DAEMON_GID :: int
  POST_UPDATE_CALLBACKS :: "string list"
  POST_UPDATE_SCRIPTS :: "string list"
  ENV :: string
  ClientVer :: string
  ENCRYPT_ENABLE :: bool
  ENCRYPT_KEY :: string
  ENCRYPT_IV :: string
  ENCRYPT_VER :: rat
  DEVMODE :: bool
  DEBUG_FILE :: string
  ETCD_CONNECTION_TIMEOUT :: int
  ETCD_DIAL_KEEP_ALIVE_TIME :: int
  ETCD_DIAL_KEEP_ALIVE_TIMEOUT :: int
  ETCD_HEARTBEAT_KEY :: string
  ETCD_REQUEST_TIMEOUT :: int
  ETCD_MIN_RETRY_INTERVAL :: int
  ETCD_RETRY_INTERVAL_RANGE :: int
  ETCD_AUTO_SYNC_INTERVAL :: int
  POST_UPDATE_SCRIPTS_RULE :: string
  PostUpdateRule :: "string list list"
  PPROF_LISTEN :: string
  DOVE_SERVER :: string

text \<open>The zero value of the struct.\<close>

definition zero_config :: Config where
  "zero_config =
     \<lparr>ListenAddr = [], ListenAddrTransi = [], RunAsBi = False, InstallDir = [], PidFile = [],
      DATA_ROOT = [], DATA_DIR = [], LOG_DIR = [], CONFIG_DIR = [], DAEMON_USER = [],
      DAEMON_UID = 0, DAEMON_GID = 0, POST_UPDATE_CALLBACKS = [], POST_UPDATE_SCRIPTS = [],
      ENV = [], ClientVer = [], ENCRYPT_ENABLE = False, ENCRYPT_KEY = [], ENCRYPT_IV = [],
      ENCRYPT_VER = 0, DEVMODE = False, DEBUG_FILE = [], ETCD_CONNECTION_TIMEOUT = 0,
      ETCD_DIAL_KEEP_ALIVE_TIME = 0, ETCD_DIAL_KEEP_ALIVE_TIMEOUT = 0, ETCD_HEARTBEAT_KEY = [],
      ETCD_REQUEST_TIMEOUT = 0, ETCD_MIN_RETRY_INTERVAL = 0, ETCD_RETRY_INTERVAL_RANGE = 0,
      ETCD_AUTO_SYNC_INTERVAL = 0, POST_UPDATE_SCRIPTS_RULE = [], PostUpdateRule = [],
      PPROF_LISTEN = [], DOVE_SERVER = []\<rparr>"

text \<open>
  A file system: the entries of a directory (its name and whether it is a directory) and
  the contents of a file, or the error of the system call.
\<close>

record fs =
  fs_dir :: "string \<Rightarrow> (string \<times> bool) list res"
  fs_file :: "string \<Rightarrow> bytes res"

definition FileExists :: "fs \<Rightarrow> string \<Rightarrow> bool" where
  "FileExists f name =
     ((case fs_file f name of Ok _ \<Rightarrow> True | _ \<Rightarrow> False)
      \<or> (case fs_dir f name of Ok _ \<Rightarrow> True | _ \<Rightarrow> False))"

end
