(* ===== verification/DebugConfig.thy ===== *)
theory DebugConfig
  imports ConfigTypes Toml
begin

text \<open>
  \<^verbatim>\<open>projconfig/debugconfig.go\<close>: values that a developer writes into a file
  \<^verbatim>\<open>config.debug.toml\<close> beside the schema files.  \<open>load\<close> is the TOML parser and \<open>tree_string\<close> the
  method \<^verbatim>\<open>ToString\<close> of a parsed tree.
\<close>

definition debugFilename :: string where
  "debugFilename = ''config.debug.toml''"

record 'o DebugConfigs =
  debugConfigs :: "(string, 'o toml) gomap"

definition LoadFile :: "(string \<Rightarrow> 'o toml res) \<Rightarrow> fs \<Rightarrow> string \<Rightarrow> 'o toml res" where
  "LoadFile load f path = res_bind (fs_file f path) load"

definition GetDebugValuesByFile :: "(string \<Rightarrow> 'o toml res) \<Rightarrow> fs \<Rightarrow> string \<Rightarrow> 'o toml res" where
  "GetDebugValuesByFile load f debugfilePath =
     (case LoadFile load f debugfilePath of
        Err e \<Rightarrow> Err (ErrWrap ''Failed to parse config debug file: '' e)
      | r \<Rightarrow> r)"

definition GetDebugFiles :: "fs \<Rightarrow> Config \<Rightarrow> string list" where
  "GetDebugFiles f cfg =
     (if DEBUG_FILE cfg \<noteq> [] \<and> FileExists f (DEBUG_FILE cfg) then [DEBUG_FILE cfg]
      else filter (FileExists f) (map (\<lambda>dir. TrimRight dir ''/'' @ ''/'' @ debugFilename) (CONFIG_DIR cfg)))"

definition LoadDebugConfigs ::
    "(string \<Rightarrow> 'o toml res) \<Rightarrow> fs \<Rightarrow> Config \<Rightarrow> 'o DebugConfigs res" where
  "LoadDebugConfigs load f cfg =
     res_bind (foldl (\<lambda>acc debugFile.
         res_bind acc (\<lambda>m. res_bind (GetDebugValuesByFile load f debugFile) (\<lambda>t. Ok (mset m debugFile t))))
       (Ok []) (GetDebugFiles f cfg))
     (\<lambda>m. Ok \<lparr>debugConfigs = m\<rparr>)"

section \<open>The debug file for a schema file\<close>

text \<open>The position of the first byte of \<open>d\<close> that is not the byte of \<open>expected\<close> there.\<close>

fun first_diff :: "string \<Rightarrow> string \<Rightarrow> nat \<Rightarrow> nat option" where
  "first_diff [] expected pos = None"
| "first_diff (c # d) expected pos =
     (if expected = [] \<or> c \<noteq> hd expected then Some pos else first_diff d (tl expected) (Suc pos))"

definition nearer :: "string \<Rightarrow> nat \<times> string \<Rightarrow> string \<Rightarrow> nat \<times> string" where
  "nearer expected best dName =
     (case first_diff dName expected 0 of
        None \<Rightarrow> best
      | Some pos \<Rightarrow> if pos \<ge> fst best then (pos, dName) else best)"

definition nearestDebugFile :: "string \<Rightarrow> string list \<Rightarrow> string" where
  "nearestDebugFile expected dNames = snd (foldl (nearer expected) (0, []) dNames)"

definition expectedDebugFile :: "string \<Rightarrow> string" where
  "expectedDebugFile schemaFile =
     (let pathPortions = Split schemaFile ''/''
      in Join (butlast pathPortions) ''/'' @ ''/'' @ debugFilename)"

definition debug_tree :: "'o DebugConfigs \<Rightarrow> string \<Rightarrow> 'o toml option" where
  "debug_tree d schemaFile =
     (let expected = expectedDebugFile schemaFile in
      case mget (debugConfigs d) expected of
        Some configs \<Rightarrow> Some configs
      | None \<Rightarrow> mget (debugConfigs d) (nearestDebugFile expected (map fst (debugConfigs d))))"

definition GetConfigBySchemafile ::
    "'o fmtenv \<Rightarrow> ('o toml \<Rightarrow> string) \<Rightarrow> 'o DebugConfigs \<Rightarrow> string \<Rightarrow> string \<Rightarrow> bool
     \<Rightarrow> (bytes option \<times> string) res" where
  "GetConfigBySchemafile fe tree_string d name schemaFile withToml =
     (if length (debugConfigs d) < 1 then Ok (None, [])
      else case debug_tree d schemaFile of
             None \<Rightarrow> Panic ''nil pointer dereference''
           | Some configs \<Rightarrow>
               (case Get configs name of
                  None \<Rightarrow> Ok (None, [])
                | Some v \<Rightarrow>
                    res_bind (returned (JsonEncode (Suc (size configs)) fe (Some v))) (\<lambda>re.
                      let lastName = last (Split name ''.'');
                          tomlV = (if \<not> withToml then []
                                   else case v of
                                          TTree _ _ \<Rightarrow> tree_string v
                                        | TStr s \<Rightarrow> lastName @ ''='' @ quote fe s
                                        | _ \<Rightarrow> lastName @ ''='' @ fmt_v fe v)
                      in Ok (Some re, tomlV))))"

section \<open>Which file is taken\<close>

lemma first_diff_None: "first_diff d expected pos = None \<longleftrightarrow> prefix d expected"
proof (induction d arbitrary: expected pos)
  case (Cons c d)
  then show ?case by (cases expected) auto
qed simp

lemma first_diff_common:
  "first_diff d expected pos = Some p \<Longrightarrow>
     pos \<le> p \<and> take (p - pos) d = take (p - pos) expected \<and> p - pos < length d
     \<and> (p - pos < length expected \<longrightarrow> d ! (p - pos) \<noteq> expected ! (p - pos))"
proof (induction d arbitrary: expected pos)
  case (Cons c d)
  show ?case
  proof (cases "expected = [] \<or> c \<noteq> hd expected")
    case True
    with Cons.prems show ?thesis by (cases expected) auto
  next
    case False
    then obtain e where e: "expected = c # e" by (cases expected) auto
    have "first_diff d e (Suc pos) = Some p" using Cons.prems e by simp
    from Cons.IH [OF this] have IH: "Suc pos \<le> p" "take (p - Suc pos) d = take (p - Suc pos) e"
      "p - Suc pos < length d" "p - Suc pos < length e \<longrightarrow> d ! (p - Suc pos) \<noteq> e ! (p - Suc pos)"
      by auto
    have "p - pos = Suc (p - Suc pos)" using IH(1) by simp
    with IH e show ?thesis by auto
  qed
qed simp

lemma first_diff_longest_common_prefix:
  assumes "first_diff d expected 0 = Some p"
  shows "p = length (longest_common_prefix d expected)"
proof -
  note c = first_diff_common [OF assms, simplified]
  have "prefix (take p d) (longest_common_prefix d expected)"
    using c by (intro longest_common_prefix_max_prefix) (simp_all add: take_is_prefix, metis take_is_prefix)
  then have 1: "p \<le> length (longest_common_prefix d expected)"
    using c prefix_length_le [of "take p d"] by (metis length_take min.absorb4)
  let ?l = "longest_common_prefix d expected"
  have pd: "prefix ?l d" "prefix ?l expected"
    by (simp_all add: longest_common_prefix_prefix1 longest_common_prefix_prefix2)
  have "\<not> p < length ?l"
  proof
    assume "p < length ?l"
    then have "d ! p = ?l ! p" "expected ! p = ?l ! p" "p < length expected"
      using pd by (metis nth_append prefixE, metis nth_append prefixE, metis order.strict_trans2 prefix_length_le)
    with c show False by simp
  qed
  with 1 show ?thesis by simp
qed

abbreviation common :: "string \<Rightarrow> string \<Rightarrow> nat" where
  "common a b \<equiv> length (longest_common_prefix a b)"

lemma nearest_best:
  assumes "foldl (nearer expected) (p0, n0) ds = (p, n)"
  shows "p0 \<le> p \<and> (\<forall>d \<in> set ds. \<not> prefix d expected \<longrightarrow> common d expected \<le> p)
    \<and> ((p, n) = (p0, n0) \<and> (\<forall>d \<in> set ds. \<not> prefix d expected \<longrightarrow> common d expected < p0)
       \<or> n \<in> set ds \<and> \<not> prefix n expected \<and> p = common n expected)"
  using assms
proof (induction ds arbitrary: p0 n0)
  case (Cons d ds)
  show ?case
  proof (cases "prefix d expected")
    case True
    then have "first_diff d expected 0 = None" using first_diff_None by blast
    then have "nearer expected (p0, n0) d = (p0, n0)" by (simp add: nearer_def)
    with Cons.prems Cons.IH [of p0 n0] True show ?thesis by auto
  next
    case False
    then obtain q where q: "first_diff d expected 0 = Some q" using first_diff_None by fastforce
    note lcp = first_diff_longest_common_prefix [OF q]
    obtain p1 n1 where p1: "nearer expected (p0, n0) d = (p1, n1)" by fastforce
    then have n1: "p1 = max p0 q" "n1 = (if q \<ge> p0 then d else n0)"
      using q by (auto simp: nearer_def split: if_splits)
    from Cons.IH [of p1 n1] Cons.prems p1 False show ?thesis
      by (auto simp: n1 lcp max_def split: if_splits)
  qed
qed simp

text \<open>The debug file consulted for a schema file is the one in the same directory if it is
  loaded, else one whose path shares the longest initial part with that place among the files that
  are not themselves an initial part of it; there is none (a nil pointer for the caller) exactly when every
  loaded file name is a proper initial part of the expected path.\<close>

theorem debug_tree_nearest:
  assumes "[] \<notin> fst ` set (debugConfigs d)"
  shows "case debug_tree d schemaFile of
      Some t \<Rightarrow> \<exists>n. mget (debugConfigs d) n = Some t \<and>
        (n = expectedDebugFile schemaFile
         \<or> expectedDebugFile schemaFile \<notin> fst ` set (debugConfigs d)
           \<and> (\<forall>m \<in> fst ` set (debugConfigs d). \<not> prefix m (expectedDebugFile schemaFile)
                \<longrightarrow> common m (expectedDebugFile schemaFile) \<le> common n (expectedDebugFile schemaFile)))
    | None \<Rightarrow> \<forall>n \<in> fst ` set (debugConfigs d). strict_prefix n (expectedDebugFile schemaFile)"
proof -
  let ?m = "debugConfigs d" and ?e = "expectedDebugFile schemaFile"
  show ?thesis
  proof (cases "mget ?m ?e")
    case (Some t)
    then show ?thesis by (auto simp: debug_tree_def)
  next
    case None
    obtain p n where fold: "foldl (nearer ?e) (0, []) (map fst ?m) = (p, n)" by fastforce
    have tree: "debug_tree d schemaFile = mget ?m n"
      using None fold by (simp add: debug_tree_def nearestDebugFile_def)
    have e: "?e \<notin> fst ` set ?m" using None by (simp add: map_of_eq_None_iff)
    from nearest_best [OF fold] have all: "\<forall>m \<in> fst ` set ?m. \<not> prefix m ?e \<longrightarrow> common m ?e \<le> p"
      and alt: "(n = [] \<and> (\<forall>m \<in> fst ` set ?m. prefix m ?e))
        \<or> n \<in> fst ` set ?m \<and> \<not> prefix n ?e \<and> p = common n ?e" by auto
    from alt show ?thesis
    proof
      assume n: "n = [] \<and> (\<forall>m \<in> fst ` set ?m. prefix m ?e)"
      then have "mget ?m n = None" using assms by (simp add: map_of_eq_None_iff)
      with tree n e show ?thesis by (force simp: strict_prefix_def)
    next
      assume n: "n \<in> fst ` set ?m \<and> \<not> prefix n ?e \<and> p = common n ?e"
      then obtain t where "mget ?m n = Some t" by (metis map_of_eq_None_iff not_None_eq)
      with tree n all e show ?thesis by auto
    qed
  qed
qed

definition demo_debug :: "unit DebugConfigs" where
  "demo_debug = \<lparr>debugConfigs = [(''/app/a/config.debug.toml'', TTree [] []),
     (''/app/b/config.debug.toml'', TTree [''x''] [(''x'', TInt 1)])]\<rparr>"

theorem debug_tree_nearest_witness:
  "debug_tree demo_debug ''/app/b/sub/db.schema.php'' = Some (TTree [''x''] [(''x'', TInt 1)])"
proof -
  have e: "expectedDebugFile ''/app/b/sub/db.schema.php'' = ''/app/b/sub/config.debug.toml''" by code_simp
  have k: "fst ` set (debugConfigs demo_debug) = {''/app/a/config.debug.toml'', ''/app/b/config.debug.toml''}"
    by (simp add: demo_debug_def)
  then have "[] \<notin> fst ` set (debugConfigs demo_debug)" by simp
  note nearest = debug_tree_nearest [OF this, of "''/app/b/sub/db.schema.php''", unfolded e k]
  have lens: "common ''/app/a/config.debug.toml'' ''/app/b/sub/config.debug.toml'' = 5"
    "common ''/app/b/config.debug.toml'' ''/app/b/sub/config.debug.toml'' = 7" by code_simp+
  have gets: "mget (debugConfigs demo_debug) ''/app/b/sub/config.debug.toml'' = None"
    "mget (debugConfigs demo_debug) ''/app/a/config.debug.toml'' = Some (TTree [] [])"
    "mget (debugConfigs demo_debug) ''/app/b/config.debug.toml'' = Some (TTree [''x''] [(''x'', TInt 1)])"
    by (simp_all add: demo_debug_def)
  show ?thesis
  proof (cases "debug_tree demo_debug ''/app/b/sub/db.schema.php''")
    case None
    with nearest have "strict_prefix ''/app/a/config.debug.toml'' ''/app/b/sub/config.debug.toml''" by simp
    then show ?thesis by (simp add: strict_prefix_def)
  next
    case (Some t)
    with nearest obtain n where n: "mget (debugConfigs demo_debug) n = Some t"
      "n = ''/app/b/sub/config.debug.toml'' \<or> (common ''/app/b/config.debug.toml'' ''/app/b/sub/config.debug.toml''
         \<le> common n ''/app/b/sub/config.debug.toml'')" by auto
    from n(1) k have "n = ''/app/a/config.debug.toml'' \<or> n = ''/app/b/config.debug.toml''"
      by (auto dest!: map_of_SomeD simp: demo_debug_def split: if_splits)
    with n gets lens Some show ?thesis by auto
  qed
qed

end
