(* ===== verification/Steps.thy ===== *)
theory Steps
  imports Prelude
begin

text \<open>
  What the step relations of the components share: a property that every step keeps holds in every later state, a property of
  the initial states that every step keeps holds in every reachable state, and a relation between the states before and after a
  step holds between a state and every later one.
\<close>

locale step_invariant =
  fixes step :: "'s \<Rightarrow> 's \<Rightarrow> bool"
    and inv :: "'s \<Rightarrow> bool"
  assumes inv_step: "step s s' \<Longrightarrow> inv s \<Longrightarrow> inv s'"
begin

lemma inv_steps: "step\<^sup>*\<^sup>* s s' \<Longrightarrow> inv s \<Longrightarrow> inv s'"
  by (induction rule: rtranclp_induct) (auto intro: inv_step)

end

locale reachable_invariant = step_invariant +
  fixes initial :: "'s \<Rightarrow> bool"
  assumes inv_initial: "initial s \<Longrightarrow> inv s"
begin

lemma inv_reach: "step\<^sup>*\<^sup>* s0 s \<Longrightarrow> initial s0 \<Longrightarrow> inv s"
  by (rule inv_steps) (auto intro: inv_initial)

end

locale step_progress = step_invariant +
  fixes rel :: "'s \<Rightarrow> 's \<Rightarrow> bool"
  assumes rel_refl: "rel s s"
    and rel_trans: "rel s s' \<Longrightarrow> rel s' s'' \<Longrightarrow> rel s s''"
    and rel_step: "step s s' \<Longrightarrow> inv s \<Longrightarrow> rel s s'"
begin

lemma rel_steps: "step\<^sup>*\<^sup>* s s' \<Longrightarrow> inv s \<Longrightarrow> rel s s'"
proof (induction rule: rtranclp_induct)
  case base
  show ?case by (rule rel_refl)
next
  case (step y z)
  then have "rel s y" and "rel y z" using inv_steps rel_step by auto
  then show ?case by (rule rel_trans)
qed

end

end
