(* ===== verification/FetchLock.thy ===== *)
theory FetchLock
  imports Steps
begin

text \<open>
  \<^verbatim>\<open>projconfig/projconfig.go\<close>: \<^verbatim>\<open>getLockOfSrv\<close> and \<^verbatim>\<open>releaseLockOfSrv\<close>.  For every configuration name
  there is a one-place channel; whoever holds its token (or has just created it, empty) may
  fetch the configuration from the server, and leaves the token in the channel afterwards.

  The first part gives the two functions as they run alone at a time \<open>now\<close>; a receive from an
  empty channel, and a send to a full one, do not return (\<open>None\<close>).  The second part interleaves any
  number of goroutines at the granularity of the channel operations.
\<close>

definition MIN_INTTERVAL_OF_FETCH_FROM_SERVER :: int where
  "MIN_INTTERVAL_OF_FETCH_FROM_SERVER = 1"

record serverAccessStatus =
  stateChan :: "int option"
  lastUpdateTime :: int

type_synonym fetch_queue = "(string, serverAccessStatus) gomap"

definition getLockOfSrv :: "int \<Rightarrow> string \<Rightarrow> fetch_queue \<Rightarrow> (int \<times> fetch_queue) option" where
  "getLockOfSrv now configName q =
     (case mget q configName of
        Some info \<Rightarrow>
          (case stateChan info of
             None \<Rightarrow> None
           | Some fetchState \<Rightarrow>
               if now - lastUpdateTime info > MIN_INTTERVAL_OF_FETCH_FROM_SERVER
               then Some (1, mset q configName (info\<lparr>stateChan := None\<rparr>))
               else Some (fetchState, mset q configName (info\<lparr>stateChan := Some 0\<rparr>)))
      | None \<Rightarrow> Some (1, mset q configName \<lparr>stateChan = None, lastUpdateTime = now\<rparr>))"

definition releaseLockOfSrv :: "int \<Rightarrow> string \<Rightarrow> fetch_queue \<Rightarrow> fetch_queue res option" where
  "releaseLockOfSrv now configName q =
     (case mget q configName of
        None \<Rightarrow> Some (Panic ''nil pointer dereference'')
      | Some info \<Rightarrow>
          if stateChan info \<noteq> None then None
          else Some (Ok (mset q configName (info\<lparr>lastUpdateTime := now + 3, stateChan := Some 0\<rparr>))))"

text \<open>
  The same two functions, interleaved, for one configuration name.  A goroutine has looked up the
  entry and waits for its token (\<open>Waiting\<close>), has received the token (\<open>Received\<close>), or fetches from
  the server (\<open>Fetching\<close>); whether the entry has expired is left to the clock.  Others fetch without the token (\<open>Unguarded\<close>):
  \<^verbatim>\<open>GetNewValueOfConfig\<close>, which updates and the first request for a configuration call, calls \<^verbatim>\<open>GetFromServer\<close> itself, and
  \<^verbatim>\<open>updateProjectConfigBySchemafile\<close> calls \<^verbatim>\<open>GetConfig\<close> with a false \<^verbatim>\<open>lockSrvCocur\<close>.
\<close>

datatype fetcher = Idle | Waiting | Received | Fetching | Unguarded

record fetch_state =
  entry :: bool
  token :: bool
  procs :: "nat \<Rightarrow> fetcher"

inductive fetch_step :: "fetch_state \<Rightarrow> fetch_state \<Rightarrow> bool" where
  fs_create: "\<not> entry s \<Longrightarrow> procs s p = Idle
    \<Longrightarrow> fetch_step s (s\<lparr>entry := True, procs := (procs s)(p := Fetching)\<rparr>)"
| fs_find: "entry s \<Longrightarrow> procs s p = Idle
    \<Longrightarrow> fetch_step s (s\<lparr>procs := (procs s)(p := Waiting)\<rparr>)"
| fs_receive: "procs s p = Waiting \<Longrightarrow> token s
    \<Longrightarrow> fetch_step s (s\<lparr>token := False, procs := (procs s)(p := Received)\<rparr>)"
| fs_expired: "procs s p = Received
    \<Longrightarrow> fetch_step s (s\<lparr>procs := (procs s)(p := Fetching)\<rparr>)"
| fs_fresh: "procs s p = Received \<Longrightarrow> \<not> token s
    \<Longrightarrow> fetch_step s (s\<lparr>token := True, procs := (procs s)(p := Idle)\<rparr>)"
| fs_release: "procs s p = Fetching \<Longrightarrow> \<not> token s
    \<Longrightarrow> fetch_step s (s\<lparr>token := True, procs := (procs s)(p := Idle)\<rparr>)"
| fs_unguarded: "procs s p = Idle
    \<Longrightarrow> fetch_step s (s\<lparr>procs := (procs s)(p := Unguarded)\<rparr>)"
| fs_unguarded_end: "procs s p = Unguarded \<Longrightarrow> fetch_step s (s\<lparr>procs := (procs s)(p := Idle)\<rparr>)"

inductive_cases fetch_stepE: "fetch_step s s'"

definition fetch_init :: fetch_state where
  "fetch_init = \<lparr>entry = False, token = False, procs = (\<lambda>_. Idle)\<rparr>"

abbreviation fetch_reach :: "fetch_state \<Rightarrow> bool" where
  "fetch_reach s \<equiv> fetch_step\<^sup>*\<^sup>* fetch_init s"

definition holds :: "fetch_state \<Rightarrow> nat \<Rightarrow> bool" where
  "holds s p \<longleftrightarrow> procs s p = Received \<or> procs s p = Fetching"

text \<open>
  One token: it is in the channel, or exactly one goroutine holds it; before the entry is
  created nobody waits or holds.
\<close>

definition one_token :: "fetch_state \<Rightarrow> bool" where
  "one_token s \<longleftrightarrow>
     (if \<not> entry s then \<not> token s \<and> (\<forall>p. procs s p = Idle \<or> procs s p = Unguarded)
      else if token s then (\<forall>p. \<not> holds s p)
      else (\<exists>!p. holds s p))"

lemma one_token_entry: "one_token s \<Longrightarrow> procs s p \<noteq> Idle \<Longrightarrow> procs s p \<noteq> Unguarded \<Longrightarrow> entry s"
  by (auto simp: one_token_def split: if_splits)

lemma one_token_step: "fetch_step s s' \<Longrightarrow> one_token s \<Longrightarrow> one_token s'"
proof (induction rule: fetch_step.induct)
  case (fs_find s p)
  then have "holds (s\<lparr>procs := (procs s)(p := Waiting)\<rparr>) = holds s"
    by (auto simp: holds_def fun_eq_iff)
  with fs_find show ?case by (simp add: one_token_def)
next
  case (fs_unguarded s p)
  then have "holds (s\<lparr>procs := (procs s)(p := Unguarded)\<rparr>) = holds s" by (auto simp: holds_def fun_eq_iff)
  with fs_unguarded show ?case by (auto simp: one_token_def)
next
  case (fs_unguarded_end s p)
  then have "holds (s\<lparr>procs := (procs s)(p := Idle)\<rparr>) = holds s" by (auto simp: holds_def fun_eq_iff)
  with fs_unguarded_end show ?case by (auto simp: one_token_def)
next
  case (fs_expired s p)
  then have "holds (s\<lparr>procs := (procs s)(p := Fetching)\<rparr>) = holds s"
    by (auto simp: holds_def fun_eq_iff)
  moreover have "entry s" using one_token_entry [OF fs_expired(2), of p] fs_expired(1) by simp
  ultimately show ?case using fs_expired by (simp add: one_token_def)
next
  case (fs_receive s p)
  have entry: "entry s" using one_token_entry [OF fs_receive(3), of p] fs_receive(1) by simp
  with fs_receive have "\<forall>q. \<not> holds s q" by (auto simp: one_token_def split: if_splits)
  with entry show ?case by (auto simp: one_token_def holds_def split: if_splits)
next
  case (fs_fresh s p)
  have entry: "entry s" using one_token_entry [OF fs_fresh(3), of p] fs_fresh(1) by simp
  with fs_fresh have "\<exists>!q. holds s q" "holds s p" by (auto simp: one_token_def holds_def split: if_splits)
  then have "\<forall>q. holds s q \<longrightarrow> q = p" by blast
  with entry show ?case by (auto simp: one_token_def holds_def)
next
  case (fs_release s p)
  have entry: "entry s" using one_token_entry [OF fs_release(3), of p] fs_release(1) by simp
  with fs_release have "\<exists>!q. holds s q" "holds s p" by (auto simp: one_token_def holds_def split: if_splits)
  then have "\<forall>q. holds s q \<longrightarrow> q = p" by blast
  with entry show ?case by (auto simp: one_token_def holds_def)
next
  case (fs_create s p)
  then have "\<not> holds s q" for q using one_token_entry [of s q] by (auto simp: holds_def)
  then have "holds (s\<lparr>entry := True, procs := (procs s)(p := Fetching)\<rparr>) = (\<lambda>q. q = p)" by (auto simp: holds_def fun_eq_iff)
  with fs_create show ?case by (simp add: one_token_def)
qed

interpretation tokens: reachable_invariant fetch_step one_token "\<lambda>s. s = fetch_init"
  by unfold_locales (auto simp: one_token_step, simp add: one_token_def fetch_init_def)

lemma one_token_reach: "fetch_reach s \<Longrightarrow> one_token s"
  by (rule tokens.inv_reach) simp_all

lemma waiting_moves:
  assumes inv: "one_token s" and w: "procs s p = Waiting"
  shows "\<exists>s'. fetch_step s s' \<and> token s' \<noteq> token s"
proof (cases "token s")
  case True
  then show ?thesis using fs_receive [OF w True] by (intro exI conjI) auto
next
  case False
  have "entry s" using one_token_entry [OF inv, of p] w by simp
  with inv False obtain h where "holds s h" by (auto simp: one_token_def)
  then have "fetch_step s (s\<lparr>token := True, procs := (procs s)(h := Idle)\<rparr>)"
    using False by (auto simp: holds_def intro: fs_fresh fs_release)
  then show ?thesis using False by (intro exI conjI) auto
qed

text \<open>Any number of goroutines that do not ask for the token, beside one that has it.\<close>

lemma unguarded_beside:
  "\<exists>s. fetch_reach s \<and> procs s n = Fetching \<and> (\<forall>p < n. procs s p = Unguarded)"
proof -
  define crowd where "crowd k = \<lparr>entry = True, token = False, procs = (\<lambda>p. if p < k then Unguarded else Idle)(n := Fetching)\<rparr>" for k
  have "k \<le> n \<Longrightarrow> fetch_reach (crowd k)" for k
  proof (induction k)
    case 0
    have "fetch_step fetch_init (crowd 0)" using fs_create [of fetch_init n] by (simp add: fetch_init_def crowd_def)
    then show ?case by blast
  next
    case (Suc k)
    have "(procs (crowd k))(k := Unguarded) = procs (crowd (Suc k))" using Suc.prems by (auto simp: crowd_def)
    then have "fetch_step (crowd k) (crowd (Suc k))"
      using fs_unguarded [of "crowd k" k] Suc.prems by (simp add: crowd_def)
    then show ?case using Suc by (simp add: rtranclp.rtrancl_into_rtrancl)
  qed
  from this [of n] show ?thesis by (intro exI [of _ "crowd n"]) (simp add: crowd_def)
qed

text \<open>C22: of the goroutines that ask for the token of a configuration (\<^verbatim>\<open>GetConfig\<close> with a true \<^verbatim>\<open>lockSrvCocur\<close>) at most one fetches it
  from the server at any time, whatever the interleaving; the one that does always finds the channel empty when it leaves its token
  there, so releasing never blocks; and as long as a goroutine waits, the token is available or another
  goroutine holds it, so some step that returns the token is possible.  Updates and first requests do not ask for the token: any number of
  them can fetch the same configuration at the same time, beside the one with the token.\<close>

theorem fetch_exclusive:
  "(\<forall>s p q. fetch_reach s \<longrightarrow>
      (procs s p = Fetching \<and> procs s q = Fetching \<longrightarrow> p = q)
      \<and> (procs s p = Fetching \<longrightarrow> \<not> token s)
      \<and> (procs s p = Waiting \<longrightarrow> (\<exists>s'. fetch_step s s' \<and> token s' \<noteq> token s)))
   \<and> (\<forall>n. \<exists>s. fetch_reach s \<and> procs s n = Fetching \<and> (\<forall>p < n. procs s p = Unguarded))"
proof (intro conjI allI impI unguarded_beside; (elim conjE)?)
  fix s p q
  assume "fetch_reach s"
  then have inv: "one_token s" by (rule one_token_reach)
  show "p = q" if "procs s p = Fetching" "procs s q = Fetching"
    using inv one_token_entry [OF inv, of p] that by (auto simp: one_token_def holds_def split: if_splits)
  show "\<not> token s" if "procs s p = Fetching"
    using inv that by (auto simp: one_token_def holds_def split: if_splits)
  show "\<exists>s'. fetch_step s s' \<and> token s' \<noteq> token s" if "procs s p = Waiting"
    by (rule waiting_moves [OF inv that])
qed

text \<open>Two goroutines: the first creates the entry and fetches, the second waits.\<close>

definition demo_fetch :: fetch_state where
  "demo_fetch = \<lparr>entry = True, token = False, procs = (\<lambda>_. Idle)(0 := Fetching, 1 := Waiting)\<rparr>"

lemma demo_fetch_reach: "fetch_reach demo_fetch"
proof -
  have 1: "fetch_step fetch_init \<lparr>entry = True, token = False, procs = (\<lambda>_. Idle)(0 := Fetching)\<rparr>"
    using fs_create [of fetch_init 0] by (simp add: fetch_init_def)
  have 2: "fetch_step \<lparr>entry = True, token = False, procs = (\<lambda>_. Idle)(0 := Fetching)\<rparr> demo_fetch"
    using fs_find [of "\<lparr>entry = True, token = False, procs = (\<lambda>_. Idle)(0 := Fetching)\<rparr>" 1]
    by (simp add: demo_fetch_def)
  show ?thesis using 1 2 by (meson rtranclp.rtrancl_into_rtrancl rtranclp.rtrancl_refl)
qed

theorem fetch_exclusive_witness:
  "procs demo_fetch 1 = Waiting \<and> (\<exists>s'. fetch_step demo_fetch s' \<and> token s' \<noteq> token demo_fetch)"
  using fetch_exclusive [THEN conjunct1, rule_format, OF demo_fetch_reach, of 1] by (simp add: demo_fetch_def)

text \<open>The functions that run alone refine the steps: what \<^verbatim>\<open>getLockOfSrv\<close> answers tells who fetches next.\<close>

lemma getLockOfSrv_first: "mget q c = None \<Longrightarrow> \<exists>q'. getLockOfSrv now c q = Some (1, q')"
  by (simp add: getLockOfSrv_def)

lemma getLock_release:
  assumes "getLockOfSrv now c q = Some (1, q1)" and "mget q c = None"
    and "releaseLockOfSrv now' c q1 = Some (Ok q2)" and "now'' \<le> now' + 4"
  shows "\<exists>q3. getLockOfSrv now'' c q2 = Some (0, q3)"
proof -
  have "mget q1 c = Some \<lparr>stateChan = None, lastUpdateTime = now\<rparr>"
    using assms(1,2) by (auto simp: getLockOfSrv_def)
  then have "mget q2 c = Some \<lparr>stateChan = Some 0, lastUpdateTime = now' + 3\<rparr>"
    using assms(3) by (auto simp: releaseLockOfSrv_def)
  with assms(4) show ?thesis
    by (auto simp: getLockOfSrv_def MIN_INTTERVAL_OF_FETCH_FROM_SERVER_def)
qed

end
