(* ===== verification/KvStore.thy ===== *)
theory KvStore
  imports Prelude
begin

text \<open>
  The contract of a key-value store: what a read returns after a write.  The client keeps
  the same configuration in several stores (the process memory, the local database, the
  raw texts, the registered nodes), and each of them meets the contract.  The lemmas of the
  locale are about the loops that write many keys.  \<open>ret\<close> is how a stored value comes back
  from a read (as it is, or wrapped as the successful result).
\<close>

locale kv_store =
  fixes get :: "'s \<Rightarrow> 'k \<Rightarrow> 'r"
    and put :: "'k \<Rightarrow> 'v \<Rightarrow> 's \<Rightarrow> 's"
    and ret :: "'v \<Rightarrow> 'r"
    and inv :: "'s \<Rightarrow> bool"
  assumes get_put: "inv s \<Longrightarrow> get (put k v s) k' = (if k' = k then ret v else get s k')"
    and inv_put: "inv s \<Longrightarrow> inv (put k v s)"
begin

definition puts :: "('k \<times> 'v) list \<Rightarrow> 's \<Rightarrow> 's" where
  "puts kvs s = fold (\<lambda>(k, v). put k v) kvs s"

lemma puts_Nil [simp]: "puts [] s = s"
  by (simp add: puts_def)

lemma puts_Cons [simp]: "puts ((k, v) # kvs) s = puts kvs (put k v s)"
  by (simp add: puts_def)

lemma inv_puts: "inv s \<Longrightarrow> inv (puts kvs s)"
  by (induction kvs arbitrary: s) (auto simp: inv_put)

text \<open>With distinct keys the order of the writes does not matter: every key reads its own value.\<close>

lemma get_puts:
  assumes "inv s" and "wf_map kvs"
  shows "get (puts kvs s) k = (case mget kvs k of Some v \<Rightarrow> ret v | None \<Rightarrow> get s k)"
  using assms
proof (induction kvs arbitrary: s)
  case Nil
  then show ?case by simp
next
  case (Cons kv kvs)
  obtain k0 v0 where kv: "kv = (k0, v0)" by (cases kv)
  have wf: "wf_map kvs" "mget kvs k0 = None"
    using Cons.prems(2) kv by (auto simp: wf_map_def map_of_eq_None_iff)
  have IH: "get (puts kvs (put k0 v0 s)) k
      = (case mget kvs k of Some v \<Rightarrow> ret v | None \<Rightarrow> get (put k0 v0 s) k)"
    using Cons.IH [OF inv_put [OF Cons.prems(1)] wf(1)] .
  then show ?case
    using kv wf(2) Cons.prems(1) by (auto simp: get_put split: option.split)
qed

lemma get_puts_other:
  "inv s \<Longrightarrow> k \<notin> fst ` set kvs \<Longrightarrow> get (puts kvs s) k = get s k"
  by (induction kvs arbitrary: s) (auto simp: get_put inv_put)

end

end
