(* ===== verification/MemStore.thy ===== *)
theory MemStore
  imports KvStore
begin

text \<open>
  \<^verbatim>\<open>storage/mem.go\<close>: the configurations held in the memory of the process.
  \<open>memCachedProjectConfigs\<close> maps a name to its JSON text; a read of a name that is not there
  gives the nil slice, exactly as a read of a name stored with a nil slice does.
  \<open>rawConfig\<close> maps a name to the TOML text it was read from.
\<close>

record mem_state =
  memCachedProjectConfigs :: "(string, bytes option) gomap"
  rawConfig :: "(string, string) gomap"

definition GetFromMem :: "string \<Rightarrow> mem_state \<Rightarrow> bytes option" where
  "GetFromMem name s =
     (case mget (memCachedProjectConfigs s) name of Some d \<Rightarrow> d | None \<Rightarrow> None)"

definition StoreToMem :: "string \<Rightarrow> bytes option \<Rightarrow> mem_state \<Rightarrow> mem_state" where
  "StoreToMem name data s =
     s\<lparr>memCachedProjectConfigs := mset (memCachedProjectConfigs s) name data\<rparr>"

definition SaveRawConfig :: "string \<Rightarrow> string \<Rightarrow> mem_state \<Rightarrow> mem_state" where
  "SaveRawConfig name value s = s\<lparr>rawConfig := mset (rawConfig s) name value\<rparr>"

definition GetRawConfig :: "string \<Rightarrow> mem_state \<Rightarrow> string res" where
  "GetRawConfig name s =
     (case mget (rawConfig s) name of
        Some value \<Rightarrow> Ok value
      | None \<Rightarrow> Err (ErrText (''Cannot find value for config['' @ name @ ''].'')))"

interpretation memory: kv_store "\<lambda>s name. GetFromMem name s" StoreToMem id "\<lambda>_. True"
  by unfold_locales (simp_all add: GetFromMem_def StoreToMem_def)

interpretation rawtext: kv_store "\<lambda>s name. GetRawConfig name s" SaveRawConfig Ok "\<lambda>_. True"
  by unfold_locales (simp_all add: SaveRawConfig_def GetRawConfig_def)

lemma GetFromMem_SaveRawConfig [simp]: "GetFromMem n (SaveRawConfig k v s) = GetFromMem n s"
  by (simp add: GetFromMem_def SaveRawConfig_def)

lemma GetFromMem_StoreToMem [simp]:
  "GetFromMem n (StoreToMem k v s) = (if n = k then v else GetFromMem n s)"
  using memory.get_put by simp

lemma GetRawConfig_SaveRawConfig [simp]:
  "GetRawConfig n (SaveRawConfig k v s) = (if n = k then Ok v else GetRawConfig n s)"
  using rawtext.get_put by simp

lemma GetRawConfig_StoreToMem [simp]: "GetRawConfig n (StoreToMem k v s) = GetRawConfig n s"
  by (simp add: GetRawConfig_def StoreToMem_def)

end
