(* ===== verification/LevelDb.thy ===== *)
theory LevelDb
  imports KvStore
begin

text \<open>
  \<^verbatim>\<open>storage/leveldb\<close>: the local database of the client, one connection shared by all
  goroutines and guarded by the one-place channel \<open>dbRWLock\<close>.

  The database engine (goleveldb) is a record of its operations; \<open>engine_ok\<close> states its
  documented behaviour: an open database reads back what was written, a closed one answers
  \<^verbatim>\<open>ErrClosed\<close>.  Opening a database (\<^verbatim>\<open>leveldb.OpenFile\<close>) is the argument \<open>open_file\<close>.
  The operations run one after the other, so a lock that is held when an operation starts
  stays held until the deadline of \<^verbatim>\<open>getDbRWLock\<close> (1.5 s) or \<^verbatim>\<open>GetDb\<close> (1 s) passes.
\<close>

definition ErrorDbLockFailed :: nat where "ErrorDbLockFailed = 1"
definition ErrorDbOpenFailed :: nat where "ErrorDbOpenFailed = 2"
definition ErrorDbCreateFailed :: nat where "ErrorDbCreateFailed = 3"

record 'd engine =
  eng_get :: "'d \<Rightarrow> bytes \<Rightarrow> bytes res"
  eng_put :: "'d \<Rightarrow> bytes \<Rightarrow> bytes \<Rightarrow> 'd \<times> goerr option"
  eng_close :: "'d \<Rightarrow> 'd"

definition engine_ok :: "'d engine \<Rightarrow> ('d \<Rightarrow> bool) \<Rightarrow> bool" where
  "engine_ok eng is_open \<longleftrightarrow>
     (\<forall>d k v k'. is_open d \<longrightarrow>
        snd (eng_put eng d k v) = None \<and> is_open (fst (eng_put eng d k v))
        \<and> eng_get eng (fst (eng_put eng d k v)) k' = (if k' = k then Ok v else eng_get eng d k')
        \<and> eng_get eng d k \<noteq> Err ErrClosed)
     \<and> (\<forall>d k v. \<not> is_open d \<longrightarrow>
        eng_get eng d k = Err ErrClosed \<and> eng_put eng d k v = (d, Some ErrClosed))
     \<and> (\<forall>d. \<not> is_open (eng_close eng d))"

record 'd ldb =
  rconn :: "'d option"
  dbRWLock :: bool
  dbObjCreateLock :: bool
  db_config :: string
  initialized :: bool

section \<open>The connection\<close>

definition createRealConn :: "(string \<Rightarrow> 'd res) \<Rightarrow> string \<Rightarrow> 'd res" where
  "createRealConn open_file dsn =
     (case open_file dsn of
        Ok d \<Rightarrow> Ok d
      | Err e \<Rightarrow> Err (DbError ErrorDbOpenFailed (err_text e))
      | Panic m \<Rightarrow> Panic m)"

definition reConnect :: "(string \<Rightarrow> 'd res) \<Rightarrow> 'd ldb \<Rightarrow> goerr option \<times> 'd ldb" where
  "reConnect open_file s =
     (case createRealConn open_file (db_config s) of
        Ok d \<Rightarrow> (None, s\<lparr>rconn := Some d\<rparr>)
      | Err e \<Rightarrow> (Some e, s)
      | Panic m \<Rightarrow> (Some (ErrText m), s))"

definition getDbRWLock :: "'d ldb \<Rightarrow> bool \<times> 'd ldb" where
  "getDbRWLock s = (if dbRWLock s then (False, s) else (True, s\<lparr>dbRWLock := True\<rparr>))"

definition releasedbRWLock :: "'d ldb \<Rightarrow> 'd ldb" where
  "releasedbRWLock s = s\<lparr>dbRWLock := False\<rparr>"

definition lock_failed :: goerr where
  "lock_failed = DbError ErrorDbLockFailed ''Failed to get db connection, cannot accqurie lock.''"

definition conn_get :: "'d engine \<Rightarrow> bytes \<Rightarrow> 'd ldb \<Rightarrow> bytes res" where
  "conn_get eng key s =
     (case rconn s of None \<Rightarrow> Panic ''nil pointer dereference'' | Some d \<Rightarrow> eng_get eng d key)"

definition conn_put :: "'d engine \<Rightarrow> bytes \<Rightarrow> bytes \<Rightarrow> 'd ldb \<Rightarrow> unit res \<times> 'd ldb" where
  "conn_put eng key val s =
     (case rconn s of
        None \<Rightarrow> (Panic ''nil pointer dereference'', s)
      | Some d \<Rightarrow>
          (case eng_put eng d key val of
             (d', e) \<Rightarrow> ((case e of None \<Rightarrow> Ok () | Some x \<Rightarrow> Err x), s\<lparr>rconn := Some d'\<rparr>)))"

text \<open>
  \<^verbatim>\<open>Conn.Get\<close> and \<^verbatim>\<open>Conn.Put\<close>.  The branch for a closed connection returns from inside: the
  call of \<^verbatim>\<open>releasedbRWLock\<close> at the end is not reached.
\<close>

definition Conn_Get ::
    "'d engine \<Rightarrow> (string \<Rightarrow> 'd res) \<Rightarrow> bytes \<Rightarrow> 'd ldb \<Rightarrow> bytes res \<times> 'd ldb" where
  "Conn_Get eng open_file key s =
     (case getDbRWLock s of
        (False, s1) \<Rightarrow> (Err lock_failed, s1)
      | (True, s1) \<Rightarrow>
          (case conn_get eng key s1 of
             Err ErrClosed \<Rightarrow>
               (case reConnect open_file s1 of
                  (Some _, s2) \<Rightarrow> (Err ErrClosed, s2)
                | (None, s2) \<Rightarrow> (conn_get eng key s2, s2))
           | r \<Rightarrow> (r, releasedbRWLock s1)))"

definition Conn_Put ::
    "'d engine \<Rightarrow> (string \<Rightarrow> 'd res) \<Rightarrow> bytes \<Rightarrow> bytes \<Rightarrow> 'd ldb \<Rightarrow> unit res \<times> 'd ldb" where
  "Conn_Put eng open_file key val s =
     (case getDbRWLock s of
        (False, s1) \<Rightarrow> (Err lock_failed, s1)
      | (True, s1) \<Rightarrow>
          (case conn_put eng key val s1 of
             (Err ErrClosed, s1') \<Rightarrow>
               (case reConnect open_file s1' of
                  (Some _, s2) \<Rightarrow> (Err ErrClosed, s2)
                | (None, s2) \<Rightarrow> conn_put eng key val s2)
           | (r, s1') \<Rightarrow> (r, releasedbRWLock s1')))"

section \<open>The singleton\<close>

definition InitDb :: "string \<Rightarrow> 'd ldb \<Rightarrow> 'd ldb" where
  "InitDb dsn s = s\<lparr>db_config := dsn, initialized := True\<rparr>"

definition IsIntialized :: "'d ldb \<Rightarrow> bool" where
  "IsIntialized s = initialized s"

text \<open>
  The loop that opens the database, \<open>n\<close> attempts left: \<open>attempt i\<close> is the result of the
  \<open>i\<close>-th call of \<^verbatim>\<open>createRealConn\<close>.
\<close>

fun open_retry :: "nat \<Rightarrow> (nat \<Rightarrow> 'd res) \<Rightarrow> nat \<Rightarrow> 'd res" where
  "open_retry 0 attempt i = Err (ErrText ''no attempt'')"
| "open_retry (Suc n) attempt i =
     (case attempt i of
        Ok d \<Rightarrow> Ok d
      | r \<Rightarrow> if n = 0 then r else open_retry n attempt (Suc i))"

definition maxRetryTimes :: nat where
  "maxRetryTimes = 180"

definition GetDb :: "(nat \<Rightarrow> string \<Rightarrow> 'd res) \<Rightarrow> 'd ldb \<Rightarrow> unit res \<times> 'd ldb" where
  "GetDb open_at s =
     (case rconn s of
        Some _ \<Rightarrow> (Ok (), s)
      | None \<Rightarrow>
          if dbObjCreateLock s
          then (Err (DbError ErrorDbCreateFailed
                  ''Failed to create db object, cannot accquire lock.''), s)
          else if \<not> initialized s
          then (Err (ErrText ''Db not initialized. You should call InitDb first!''), s)
          else case open_retry maxRetryTimes (\<lambda>i. createRealConn (open_at i) (db_config s)) 0 of
                 Ok d \<Rightarrow> (Ok (), s\<lparr>rconn := Some d\<rparr>)
               | Err e \<Rightarrow> (Err (ErrWrap ''Failed to create db connection: '' e), s)
               | Panic m \<Rightarrow> (Panic m, s))"

definition Close :: "'d engine \<Rightarrow> 'd ldb \<Rightarrow> 'd ldb" where
  "Close eng s = s\<lparr>rconn := map_option (eng_close eng) (rconn s)\<rparr>"

section \<open>An open database is a key-value store\<close>

definition ldb_ready :: "'d engine \<Rightarrow> ('d \<Rightarrow> bool) \<Rightarrow> 'd ldb \<Rightarrow> bool" where
  "ldb_ready eng is_open s \<longleftrightarrow>
     engine_ok eng is_open \<and> \<not> dbRWLock s \<and> (\<exists>d. rconn s = Some d \<and> is_open d)"

lemma engine_okD:
  assumes "engine_ok eng is_open" and "is_open d"
  shows "snd (eng_put eng d k v) = None" "is_open (fst (eng_put eng d k v))"
    "eng_get eng (fst (eng_put eng d k v)) k' = (if k' = k then Ok v else eng_get eng d k')"
    "eng_get eng d k \<noteq> Err ErrClosed"
  using assms unfolding engine_ok_def by blast+

lemma engine_closedD:
  assumes "engine_ok eng is_open" and "\<not> is_open d"
  shows "eng_get eng d k = Err ErrClosed" "eng_put eng d k v = (d, Some ErrClosed)"
  using assms unfolding engine_ok_def by blast+

lemma Conn_Get_ready:
  assumes "engine_ok eng is_open" "\<not> dbRWLock s" "rconn s = Some d" "is_open d"
  shows "Conn_Get eng open_file k s = (eng_get eng d k, s)"
  using assms engine_okD(4) [OF assms(1,4), of k]
  by (auto simp: Conn_Get_def getDbRWLock_def conn_get_def releasedbRWLock_def
      split: res.split goerr.split)

lemma Conn_Put_ready:
  assumes "engine_ok eng is_open" "\<not> dbRWLock s" "rconn s = Some d" "is_open d"
  shows "Conn_Put eng open_file k v s = (Ok (), s\<lparr>rconn := Some (fst (eng_put eng d k v))\<rparr>)"
  using assms engine_okD(1) [OF assms(1,4), of k v]
  by (cases "eng_put eng d k v")
    (simp add: Conn_Put_def getDbRWLock_def conn_put_def releasedbRWLock_def)

interpretation leveldb: kv_store "\<lambda>s k. fst (Conn_Get eng open_file k s)"
    "\<lambda>k v s. snd (Conn_Put eng open_file k v s)" Ok "ldb_ready eng is_open"
  for eng :: "'d engine" and open_file is_open
proof
  fix s :: "'d ldb" and k v k' :: bytes
  assume "ldb_ready eng is_open s"
  then obtain d where d: "engine_ok eng is_open" "\<not> dbRWLock s" "rconn s = Some d" "is_open d"
    by (auto simp: ldb_ready_def)
  let ?s' = "s\<lparr>rconn := Some (fst (eng_put eng d k v))\<rparr>"
  note d' = engine_okD [OF d(1,4)]
  have put: "snd (Conn_Put eng open_file k v s) = ?s'" using Conn_Put_ready [OF d] by simp
  have ready: "ldb_ready eng is_open ?s'" using d d'(2) by (simp add: ldb_ready_def)
  show "ldb_ready eng is_open (snd (Conn_Put eng open_file k v s))" using put ready by simp
  have "fst (Conn_Get eng open_file k' ?s') = eng_get eng (fst (eng_put eng d k v)) k'"
    using Conn_Get_ready [of eng is_open ?s'] d d'(2) by simp
  then show "fst (Conn_Get eng open_file k' (snd (Conn_Put eng open_file k v s)))
      = (if k' = k then Ok v else fst (Conn_Get eng open_file k' s))"
    using put d'(3) Conn_Get_ready [OF d] by simp
qed

section \<open>Runs of operations\<close>

datatype db_op = OpGet bytes | OpPut bytes bytes

definition db_step ::
    "'d engine \<Rightarrow> (string \<Rightarrow> 'd res) \<Rightarrow> db_op \<Rightarrow> 'd ldb \<Rightarrow> bytes res \<times> 'd ldb" where
  "db_step eng open_file oper s =
     (case oper of
        OpGet k \<Rightarrow> Conn_Get eng open_file k s
      | OpPut k v \<Rightarrow>
          (case Conn_Put eng open_file k v s of
             (r, s') \<Rightarrow> (res_bind r (\<lambda>_. Ok []), s')))"

fun db_run ::
    "'d engine \<Rightarrow> (string \<Rightarrow> 'd res) \<Rightarrow> db_op list \<Rightarrow> 'd ldb \<Rightarrow> bytes res list \<times> 'd ldb" where
  "db_run eng open_file [] s = ([], s)"
| "db_run eng open_file (oper # opers) s =
     (case db_step eng open_file oper s of
        (r, s1) \<Rightarrow> (case db_run eng open_file opers s1 of (rs, s2) \<Rightarrow> (r # rs, s2)))"

lemma db_step_locked: "dbRWLock s \<Longrightarrow> db_step eng open_file oper s = (Err lock_failed, s)"
  by (simp add: db_step_def Conn_Get_def Conn_Put_def getDbRWLock_def split: db_op.split)

lemma db_run_locked:
  "dbRWLock s \<Longrightarrow> db_run eng open_file opers s = (replicate (length opers) (Err lock_failed), s)"
  by (induction opers) (simp_all add: db_step_locked)

lemma db_step_closed_locks:
  assumes "engine_ok eng is_open" "\<not> dbRWLock s" "rconn s = Some d" "\<not> is_open d"
  shows "dbRWLock (snd (db_step eng open_file oper s))"
  using assms(2,3) engine_closedD [OF assms(1,4)]
  by (auto simp: db_step_def Conn_Get_def Conn_Put_def getDbRWLock_def conn_get_def conn_put_def
      reConnect_def split: db_op.split res.split option.split prod.split)

text \<open>C21: the first operation on a closed database takes the lock and never gives it back:
  whether or not the database could be reopened, every operation after it fails with
  \<^verbatim>\<open>ErrorDbLockFailed\<close>.\<close>

theorem leveldb_lock_leak:
  assumes "engine_ok eng is_open" and "\<not> dbRWLock s" and "rconn s = Some d" and "\<not> is_open d"
  shows "tl (fst (db_run eng open_file (oper # opers) s))
         = replicate (length opers) (Err lock_failed)"
proof -
  obtain r s1 where step: "db_step eng open_file oper s = (r, s1)" by fastforce
  then have "dbRWLock s1" using db_step_closed_locks [OF assms, of open_file oper] by simp
  then show ?thesis by (simp add: step db_run_locked)
qed

text \<open>An engine over a Go map, for concrete runs.\<close>

definition map_engine :: "(bool \<times> (bytes, bytes) gomap) engine" where
  "map_engine =
     \<lparr>eng_get = (\<lambda>(opn, m) k. if \<not> opn then Err ErrClosed
                  else case mget m k of Some v \<Rightarrow> Ok v | None \<Rightarrow> Err ErrNotFound),
      eng_put = (\<lambda>(opn, m) k v. if \<not> opn then ((opn, m), Some ErrClosed) else ((opn, mset m k v), None)),
      eng_close = (\<lambda>(opn, m). (False, m))\<rparr>"

lemma map_engine_ok: "engine_ok map_engine fst"
  by (auto simp: engine_ok_def map_engine_def split: option.split)

definition closed_db :: "(bool \<times> (bytes, bytes) gomap) ldb" where
  "closed_db = \<lparr>rconn = Some (False, [(''a.b'', ''1'')]), dbRWLock = False,
     dbObjCreateLock = False, db_config = ''/d'', initialized = True\<rparr>"

theorem leveldb_lock_leak_witness:
  "tl (fst (db_run map_engine (\<lambda>_. Ok (True, [(''a.b'', ''1'')]))
        [OpGet ''a.b'', OpGet ''a.b'', OpPut ''c'' ''2''] closed_db))
   = [Err lock_failed, Err lock_failed]"
  using leveldb_lock_leak [OF map_engine_ok, of closed_db "(False, [(''a.b'', ''1'')])"
      "\<lambda>_. Ok (True, [(''a.b'', ''1'')])" "OpGet ''a.b''" "[OpGet ''a.b'', OpPut ''c'' ''2'']"]
  by (simp add: closed_db_def numeral_eq_Suc)

text \<open>The retry loop succeeds with the first attempt that does.\<close>

lemma open_retry_Ok:
  "open_retry n attempt i = Ok d \<longleftrightarrow>
     (\<exists>j < n. attempt (i + j) = Ok d \<and> (\<forall>k < j. \<forall>x. attempt (i + k) \<noteq> Ok x))"
proof (induction n arbitrary: i)
  case 0
  then show ?case by simp
next
  case (Suc n)
  show ?case
  proof (cases "\<exists>x. attempt i = Ok x")
    case True
    then obtain x where x: "attempt i = Ok x" by blast
    have "(\<exists>j < Suc n. attempt (i + j) = Ok d \<and> (\<forall>k < j. \<forall>x. attempt (i + k) \<noteq> Ok x))
        \<longleftrightarrow> x = d"
      using x by (auto simp: Ex_less_Suc2)
    with x show ?thesis by simp
  next
    case False
    then have "open_retry (Suc n) attempt i = Ok d \<longleftrightarrow> open_retry n attempt (Suc i) = Ok d"
      by (cases "attempt i") auto
    also have "\<dots> \<longleftrightarrow>
        (\<exists>j < Suc n. attempt (i + j) = Ok d \<and> (\<forall>k < j. \<forall>x. attempt (i + k) \<noteq> Ok x))"
      using False Suc.IH [of "Suc i"] by (simp add: Ex_less_Suc2 All_less_Suc2)
    finally show ?thesis .
  qed
qed

text \<open>\<^verbatim>\<open>GetDb\<close> on an initialized client without a connection succeeds exactly when one of
  the first 180 attempts to open the database does, and then holds the connection of the
  first one that does.\<close>

theorem GetDb_opens:
  assumes "rconn s = None" and "initialized s" and "\<not> dbObjCreateLock s"
  shows "GetDb open_at s = (Ok (), s\<lparr>rconn := Some d\<rparr>) \<longleftrightarrow>
    (\<exists>j < 180. open_at j (db_config s) = Ok d \<and> (\<forall>k < j. \<forall>x. open_at k (db_config s) \<noteq> Ok x))"
proof -
  have conn: "createRealConn f dsn = Ok x \<longleftrightarrow> f dsn = Ok x" for f :: "string \<Rightarrow> 'a res" and dsn x
    by (cases "f dsn") (simp_all add: createRealConn_def)
  have "GetDb open_at s = (Ok (), s\<lparr>rconn := Some d\<rparr>) \<longleftrightarrow>
      open_retry 180 (\<lambda>i. createRealConn (open_at i) (db_config s)) 0 = Ok d"
    using assms by (auto simp: GetDb_def maxRetryTimes_def split: res.split dest!: arg_cong [of _ _ rconn])
  then show ?thesis by (simp add: open_retry_Ok conn)
qed

theorem GetDb_opens_witness:
  "GetDb (\<lambda>i _. if i < 2 then Err (ErrText ''busy'') else Ok (5::nat))
     \<lparr>rconn = None, dbRWLock = False, dbObjCreateLock = False, db_config = ''/d'', initialized = True\<rparr>
   = (Ok (), \<lparr>rconn = Some 5, dbRWLock = False, dbObjCreateLock = False, db_config = ''/d'',
              initialized = True\<rparr>)"
  using GetDb_opens [of "\<lparr>rconn = None, dbRWLock = False, dbObjCreateLock = False,
      db_config = ''/d'', initialized = True\<rparr>"
      "\<lambda>i _. if i < 2 then Err (ErrText ''busy'') else Ok (5::nat)" 5]
  by (auto intro!: exI [of _ 2])

end
