(* ===== verification/ZkStore.thy ===== *)
theory ZkStore
  imports GoStrings KvStore
begin

text \<open>
  \<^verbatim>\<open>storage/zk\<close>: access to the configuration server.  The package kept the name of its first
  back end; the server is etcd.  The rest of the client names configurations by dotted
  names, this package by paths under a root: \<open>CN2P\<close> and \<open>P2CN\<close> convert.  \<open>root\<close> is the
  setting \<^verbatim>\<open>Zookeeper.root\<close>.

  The etcd client is a record of its two operations on a server state: \<open>et_get\<close> gives the
  values stored under exactly one key (\<^verbatim>\<open>resp.Kvs\<close>), \<open>et_put\<close> stores a value with an optional
  lease.
\<close>

section \<open>Names and paths\<close>

definition CN2P :: "string \<Rightarrow> string \<Rightarrow> string" where
  "CN2P root name =
     (let path = root in
      if name \<noteq> [] \<and> name \<noteq> ''/''
      then TrimRight (path @ ''/'' @ Replace name ''.'' ''/'' (-1)) ''/''
      else path)"

definition P2CN :: "string \<Rightarrow> string \<Rightarrow> string" where
  "P2CN root path =
     (let name = TrimPrefix path (TrimRight root ''/'' @ ''/'')
      in Replace (Trim name ''/'') ''/'' ''.'' (-1))"

definition MonitorNodeRoot :: "string \<Rightarrow> string" where
  "MonitorNodeRoot root = root @ ''_monitor''"

text \<open>
  \<^verbatim>\<open>MyMonitorNode\<close>: the cached value \<open>cached\<close> if there is one, else a name built from the
  host name, the local address of a connection to the server, the process id and the
  version of the client.
\<close>

definition MyMonitorNode ::
    "string \<Rightarrow> string \<Rightarrow> string res \<Rightarrow> string res \<Rightarrow> int \<Rightarrow> string \<Rightarrow> string res \<times> string" where
  "MyMonitorNode root cached hostname localAddr pid clientVer =
     (if cached \<noteq> [] then (Ok cached, cached)
      else case hostname of
             Err e \<Rightarrow> (Err e, cached)
           | Panic m \<Rightarrow> (Panic m, cached)
           | Ok hostName \<Rightarrow>
               (case localAddr of
                  Err e \<Rightarrow> (Err e, cached)
                | Panic m \<Rightarrow> (Panic m, cached)
                | Ok addr \<Rightarrow>
                    (let node = MonitorNodeRoot root @ ''/'' @ hostName @ '':''
                           @ hd (Split addr '':'') @ ''@'' @ Itoa pid @ '':'' @ clientVer
                     in (Ok node, node))))"

section \<open>The connection\<close>

record 'e etcd =
  et_get :: "'e \<Rightarrow> string \<Rightarrow> bytes list res"
  et_put :: "'e \<Rightarrow> string \<Rightarrow> bytes \<Rightarrow> int option \<Rightarrow> 'e res"

definition zk_Get :: "'e etcd \<Rightarrow> string \<Rightarrow> 'e \<Rightarrow> string \<Rightarrow> bytes res" where
  "zk_Get et root srv path =
     res_bind (et_get et srv (P2CN root path)) (\<lambda>kvs.
       if length kvs = 0 then Ok [] else Ok (kvs ! 0))"

definition zk_Exists :: "'e etcd \<Rightarrow> string \<Rightarrow> 'e \<Rightarrow> string \<Rightarrow> bool res" where
  "zk_Exists et root srv path =
     res_bind (et_get et srv (P2CN root path)) (\<lambda>kvs. Ok (length kvs > 0))"

definition zk_Create ::
    "'e etcd \<Rightarrow> string \<Rightarrow> 'e \<Rightarrow> string \<Rightarrow> bytes \<Rightarrow> int \<Rightarrow> 'e res" where
  "zk_Create et root srv path data lease = et_put et srv (P2CN root path) data (Some lease)"

definition zk_Set ::
    "'e etcd \<Rightarrow> string \<Rightarrow> 'e \<Rightarrow> string \<Rightarrow> bytes \<Rightarrow> int list \<Rightarrow> 'e res" where
  "zk_Set et root srv path data lease =
     (if length lease > 0 then et_put et srv (P2CN root path) data (Some (lease ! 0))
      else et_put et srv (P2CN root path) data None)"

section \<open>The two conversions\<close>

definition plain_name :: "string \<Rightarrow> bool" where
  "plain_name name \<longleftrightarrow>
     name \<noteq> [] \<and> CHR ''/'' \<notin> set name \<and> hd name \<noteq> CHR ''.'' \<and> last name \<noteq> CHR ''.''"

abbreviation dots_to_slashes :: "string \<Rightarrow> string" where
  "dots_to_slashes \<equiv> map (\<lambda>x. if x = CHR ''.'' then CHR ''/'' else x)"

abbreviation slashes_to_dots :: "string \<Rightarrow> string" where
  "slashes_to_dots \<equiv> map (\<lambda>x. if x = CHR ''/'' then CHR ''.'' else x)"

lemma slashes_dots_id: "CHR ''/'' \<notin> set name \<Longrightarrow> slashes_to_dots (dots_to_slashes name) = name"
  by (induction name) auto

lemma plain_path_ends:
  assumes "plain_name name"
  shows "dots_to_slashes name \<noteq> []" "hd (dots_to_slashes name) \<noteq> CHR ''/''"
    "last (dots_to_slashes name) \<noteq> CHR ''/''"
proof -
  have ne: "name \<noteq> []" and ns: "CHR ''/'' \<notin> set name"
    and ends: "hd name \<noteq> CHR ''.''" "last name \<noteq> CHR ''.''"
    using assms by (simp_all add: plain_name_def)
  then have "hd name \<noteq> CHR ''/''" "last name \<noteq> CHR ''/''"
    using hd_in_set last_in_set by metis+
  with ne ends show "dots_to_slashes name \<noteq> []" "hd (dots_to_slashes name) \<noteq> CHR ''/''"
    "last (dots_to_slashes name) \<noteq> CHR ''/''"
    by (simp_all add: hd_map last_map)
qed

lemma CN2P_plain:
  assumes "plain_name name"
  shows "CN2P root name = root @ ''/'' @ dots_to_slashes name"
proof -
  have "name \<noteq> ''/''" using assms by (auto simp: plain_name_def)
  moreover have "TrimRight (root @ ''/'' @ dots_to_slashes name) ''/''
      = root @ ''/'' @ dots_to_slashes name"
    using plain_path_ends [OF assms] by (intro TrimRight_id) simp
  ultimately show ?thesis
    using assms by (simp add: CN2P_def Replace_char_all plain_name_def)
qed

lemma TrimPrefix_root:
  "\<exists>t. set t \<subseteq> {CHR ''/''} \<and> TrimPrefix (root @ ''/'' @ s) (TrimRight root ''/'' @ ''/'') = t @ s"
proof -
  obtain t where t: "root = TrimRight root ''/'' @ t" "set t \<subseteq> {CHR ''/''}"
    using TrimRight_decomp [of root "''/''"] by auto
  then have "t = replicate (length t) (CHR ''/'')"
    by (metis replicate_length_same singletonD subset_iff)
  then have "t @ ''/'' = ''/'' @ t" by (metis append_Cons append_Nil replicate_append_same)
  then have "root @ ''/'' @ s = (TrimRight root ''/'' @ ''/'') @ t @ s"
    using t(1) by (metis append.assoc)
  then have "TrimPrefix (root @ ''/'' @ s) (TrimRight root ''/'' @ ''/'') = t @ s"
    by (metis TrimPrefix_def append_eq_conv_conj prefixI)
  with t(2) show ?thesis by blast
qed

lemma P2CN_CN2P_plain: "plain_name name \<Longrightarrow> P2CN root (CN2P root name) = name"
proof -
  assume plain: "plain_name name"
  obtain t where t: "set t \<subseteq> {CHR ''/''}"
    "TrimPrefix (root @ ''/'' @ dots_to_slashes name) (TrimRight root ''/'' @ ''/'')
      = t @ dots_to_slashes name"
    using TrimPrefix_root by blast
  have "Trim (t @ dots_to_slashes name @ []) ''/'' = dots_to_slashes name"
    using t(1) plain_path_ends [OF plain] by (intro Trim_between) simp_all
  then have "P2CN root (CN2P root name) = slashes_to_dots (dots_to_slashes name)"
    using t(2) by (simp add: P2CN_def CN2P_plain [OF plain] Replace_char_all)
  also have "\<dots> = name" using plain by (intro slashes_dots_id) (simp add: plain_name_def)
  finally show ?thesis .
qed

text \<open>A configuration name that does not contain a slash and neither starts nor ends with a
  dot survives the way to a server path and back, whatever the root is (with or without
  trailing slashes), so the client reads from the server exactly the key named like the
  configuration.\<close>

theorem zk_Get_reads_named_key:
  assumes "plain_name name"
  shows "P2CN root (CN2P root name) = name
    \<and> zk_Get et root srv (CN2P root name)
      = res_bind (et_get et srv name) (\<lambda>kvs. Ok (if kvs = [] then [] else hd kvs))"
proof -
  have hd: "kvs \<noteq> [] \<Longrightarrow> kvs ! 0 = hd kvs" for kvs :: "bytes list" by (simp add: hd_conv_nth)
  then have "zk_Get et root srv (CN2P root name)
      = res_bind (et_get et srv name) (\<lambda>kvs. Ok (if kvs = [] then [] else hd kvs))"
    using P2CN_CN2P_plain [OF assms]
    by (cases "et_get et srv name") (simp_all add: zk_Get_def)
  with P2CN_CN2P_plain [OF assms] show ?thesis by simp
qed

text \<open>A server that is a Go map, for concrete reads.\<close>

definition map_etcd :: "(string, bytes) gomap etcd" where
  "map_etcd =
     \<lparr>et_get = (\<lambda>m k. Ok (case mget m k of None \<Rightarrow> [] | Some v \<Rightarrow> [v])),
      et_put = (\<lambda>m k v lease. Ok (mset m k v))\<rparr>"

theorem zk_Get_reads_named_key_witness:
  "zk_Get map_etcd ''/jumeiconf//'' [(''Pay.Db.host'', ''x'')]
     (CN2P ''/jumeiconf//'' ''Pay.Db.host'') = Ok ''x''"
  using zk_Get_reads_named_key [of "''Pay.Db.host''" "''/jumeiconf//''" map_etcd
      "[(''Pay.Db.host'', ''x'')]"]
  by (simp add: plain_name_def map_etcd_def)

end
