(* ===== verification/Base64.thy ===== *)
theory Base64
  imports GoStrings
begin

text \<open>
  \<^verbatim>\<open>base64.StdEncoding\<close>: decoding as \<^verbatim>\<open>DecodeString\<close> does it (line breaks are dropped, the text is
  read in groups of four, padding is allowed at the end only) and the encoding it undoes.
\<close>

definition b64_val :: "char \<Rightarrow> nat option" where
  "b64_val c = (let n = of_char c :: nat in
     if 65 \<le> n \<and> n \<le> 90 then Some (n - 65)
     else if 97 \<le> n \<and> n \<le> 122 then Some (n - 71)
     else if 48 \<le> n \<and> n \<le> 57 then Some (n + 4)
     else if n = 43 then Some 62
     else if n = 47 then Some 63
     else None)"

definition b64_char :: "nat \<Rightarrow> char" where
  "b64_char v =
     (if v < 26 then char_of (v + 65)
      else if v < 52 then char_of (v + 71)
      else if v < 62 then char_of (v - 4)
      else if v = 62 then CHR ''+'' else CHR ''/'')"

abbreviation pad :: char where
  "pad \<equiv> CHR ''=''"

definition b64_corrupt :: goerr where
  "b64_corrupt = ErrText ''illegal base64 data''"

definition dec3 :: "nat \<Rightarrow> nat \<Rightarrow> nat \<Rightarrow> nat \<Rightarrow> string" where
  "dec3 a b c d = [char_of (a * 4 + b div 16), char_of (b mod 16 * 16 + c div 4), char_of (c mod 4 * 64 + d)]"

fun b64_decode :: "string \<Rightarrow> bytes res" where
  "b64_decode [] = Ok []"
| "b64_decode (w # x # y # z # rest) =
     (case (b64_val w, b64_val x) of
        (Some a, Some b) \<Rightarrow>
          (if y = pad then
             (if z = pad \<and> rest = [] then Ok (take 1 (dec3 a b 0 0)) else Err b64_corrupt)
           else case b64_val y of
                  None \<Rightarrow> Err b64_corrupt
                | Some c \<Rightarrow>
                    if z = pad then (if rest = [] then Ok (take 2 (dec3 a b c 0)) else Err b64_corrupt)
                    else (case b64_val z of
                            None \<Rightarrow> Err b64_corrupt
                          | Some d \<Rightarrow> res_bind (b64_decode rest) (\<lambda>t. Ok (dec3 a b c d @ t))))
      | _ \<Rightarrow> Err b64_corrupt)"
| "b64_decode _ = Err b64_corrupt"

definition DecodeString :: "string \<Rightarrow> bytes res" where
  "DecodeString s = b64_decode (filter (\<lambda>c. c \<noteq> CHR 0x0D \<and> c \<noteq> CHR 0x0A) s)"

abbreviation ord :: "char \<Rightarrow> nat" where
  "ord c \<equiv> of_char c"

fun b64_encode :: "bytes \<Rightarrow> string" where
  "b64_encode [] = []"
| "b64_encode [p] = [b64_char (ord p div 4), b64_char (ord p mod 4 * 16), pad, pad]"
| "b64_encode [p, q] =
     [b64_char (ord p div 4), b64_char (ord p mod 4 * 16 + ord q div 16),
      b64_char (ord q mod 16 * 4), pad]"
| "b64_encode (p # q # r # rest) =
     [b64_char (ord p div 4), b64_char (ord p mod 4 * 16 + ord q div 16),
      b64_char (ord q mod 16 * 4 + ord r div 64), b64_char (ord r mod 64)] @ b64_encode rest"

lemma b64_val_char: "v < 64 \<Longrightarrow> b64_val (b64_char v) = Some v"
  by (auto simp: b64_val_def b64_char_def of_char_of Let_def)

lemma b64_char_plain: "v < 64 \<Longrightarrow> b64_char v \<noteq> pad \<and> b64_char v \<noteq> CHR 0x0D \<and> b64_char v \<noteq> CHR 0x0A"
proof -
  assume "v < 64"
  then have "b64_val (b64_char v) = Some v" by (rule b64_val_char)
  moreover have "b64_val pad = None" "b64_val (CHR 0x0D) = None" "b64_val (CHR 0x0A) = None"
    by (simp_all add: b64_val_def)
  ultimately show ?thesis by auto
qed

lemma ord_bounds: "ord p div 4 < 64" "ord p mod 4 * 16 + ord q div 16 < 64"
  "ord q mod 16 * 4 + ord r div 64 < 64" "ord r mod 64 < 64" "ord p mod 4 * 16 < 64"
  "ord q mod 16 * 4 < 64"
  using of_char_less_256 [of p] of_char_less_256 [of q] of_char_less_256 [of r] by linarith+

lemma nat_join:
  fixes p q r :: nat
  assumes "q < 256" and "r < 256"
  shows "p div 4 * 4 + (p mod 4 * 16 + q div 16) div 16 = p"
    and "(p mod 4 * 16 + q div 16) mod 16 * 16 + (q mod 16 * 4 + r div 64) div 4 = q"
    and "(q mod 16 * 4 + r div 64) mod 4 * 64 + r mod 64 = r"
proof -
  have q: "q div 16 < 16" and r: "r div 64 < 4" using assms by simp_all
  then have "(p mod 4 * 16 + q div 16) div 16 = p mod 4" "(p mod 4 * 16 + q div 16) mod 16 = q div 16"
    "(q mod 16 * 4 + r div 64) div 4 = q mod 16" "(q mod 16 * 4 + r div 64) mod 4 = r div 64"
    by simp_all
  then show "p div 4 * 4 + (p mod 4 * 16 + q div 16) div 16 = p"
    "(p mod 4 * 16 + q div 16) mod 16 * 16 + (q mod 16 * 4 + r div 64) div 4 = q"
    "(q mod 16 * 4 + r div 64) mod 4 * 64 + r mod 64 = r"
    by (simp_all only: div_mult_mod_eq)
qed

lemmas ord_join = nat_join [OF of_char_less_256 of_char_less_256]

lemma dec3_join:
  "dec3 (ord p div 4) (ord p mod 4 * 16 + ord q div 16) (ord q mod 16 * 4 + ord r div 64) (ord r mod 64) = [p, q, r]"
  unfolding dec3_def ord_join by simp

lemma dec3_join2:
  "take 2 (dec3 (ord p div 4) (ord p mod 4 * 16 + ord q div 16) (ord q mod 16 * 4) 0) = [p, q]"
  using dec3_join [of p q "CHR 0x00"] by simp

lemma dec3_join1: "take 1 (dec3 (ord p div 4) (ord p mod 4 * 16) 0 0) = [p]"
  using dec3_join [of p "CHR 0x00" "CHR 0x00"] by simp

lemmas b64_simps = b64_val_char [OF ord_bounds(1)] b64_val_char [OF ord_bounds(2)]
  b64_val_char [OF ord_bounds(3)] b64_val_char [OF ord_bounds(4)] b64_val_char [OF ord_bounds(5)]
  b64_val_char [OF ord_bounds(6)] b64_char_plain [OF ord_bounds(3), THEN conjunct1]
  b64_char_plain [OF ord_bounds(4), THEN conjunct1] b64_char_plain [OF ord_bounds(6), THEN conjunct1]

lemma b64_decode_encode: "b64_decode (b64_encode s) = Ok s"
proof (induction s rule: b64_encode.induct)
  case (2 p)
  then show ?case
    by (simp only: b64_encode.simps b64_decode.simps b64_simps option.case prod.case dec3_join1 simp_thms if_True)
next
  case (3 p q)
  then show ?case
    by (simp only: b64_encode.simps b64_decode.simps b64_simps option.case prod.case dec3_join2 simp_thms if_True if_False)
next
  case (4 p q r rest)
  then show ?case
    by (simp only: b64_encode.simps append.simps b64_decode.simps b64_simps option.case prod.case if_False res_bind_simps dec3_join)
qed simp

lemma b64_encode_ascii: "\<forall>c \<in> set (b64_encode s). c = pad \<or> b64_val c \<noteq> None"
  by (induction s rule: b64_encode.induct)
    (simp_all only: b64_encode.simps set_append list.set ball_Un ball_simps b64_simps option.simps simp_thms)

lemma DecodeString_encode: "DecodeString (b64_encode s) = Ok s"
proof -
  have "b64_val (CHR 0x0D) = None" "b64_val (CHR 0x0A) = None" by (simp_all add: b64_val_def)
  then have "\<forall>c \<in> set (b64_encode s). c \<noteq> CHR 0x0D \<and> c \<noteq> CHR 0x0A"
    using b64_encode_ascii [of s] by force
  then have "filter (\<lambda>c. c \<noteq> CHR 0x0D \<and> c \<noteq> CHR 0x0A) (b64_encode s) = b64_encode s"
    by (simp add: filter_id_conv)
  then show ?thesis by (simp add: DecodeString_def b64_decode_encode)
qed

lemma b64_val_less_128: "b64_val c \<noteq> None \<Longrightarrow> (of_char c :: nat) < 128"
  by (simp add: b64_val_def Let_def split: if_splits)

lemma b64_encode_less_128: "\<forall>c \<in> set (b64_encode s). (of_char c :: nat) < 128"
proof
  fix c
  assume "c \<in> set (b64_encode s)"
  then have "c = pad \<or> b64_val c \<noteq> None" using b64_encode_ascii by blast
  then show "(of_char c :: nat) < 128" using b64_val_less_128 by auto
qed

end
