(* ===== verification/ProjConfig.thy ===== *)
theory ProjConfig
  imports DebugConfig FetchLock MemStore LevelDb ZkStore Encrypt Base64 JsonLaws
begin

text \<open>
  \<^verbatim>\<open>projconfig/projconfig.go\<close>: reading and writing one configuration.  A configuration is
  looked for in the debug files, in memory, in the local database and on the server, in this order;
  what comes from the database or the server is kept in memory, what comes from the server also
  in the database.

  \<open>env\<close> collects what the client runs in: its settings and the code that is not its own
  (the database engine, the etcd client, the TOML parser, the constants of Blowfish, the file
  system).  \<open>client\<close> is the state it changes.  A call that returns an error returns no value.
\<close>

record ('d, 'e, 'o) env =
  cfg :: Config
  zkRoot :: string
  engine :: "'d engine"
  open_db :: "nat \<Rightarrow> string \<Rightarrow> 'd res"
  reopen_db :: "string \<Rightarrow> 'd res"
  etcd :: "'e etcd"
  remote :: "unit res"
  tables :: Cipher
  load :: "string \<Rightarrow> 'o toml res"
  fmtenv :: "'o fmtenv"
  tree_string :: "'o toml \<Rightarrow> string"
  files :: fs

record ('d, 'e) client =
  mem :: mem_state
  disk :: "'d ldb"
  server :: 'e
  queued :: fetch_queue

definition GetLocalStorageDir :: "Config \<Rightarrow> string" where
  "GetLocalStorageDir c =
     DATA_DIR c @ (if ENCRYPT_ENABLE c then ''/configs_crypt/'' else ''/configs/'')"

definition getLocalStorage ::
    "('d, 'e, 'o) env \<Rightarrow> ('d, 'e) client \<Rightarrow> unit res \<times> ('d, 'e) client" where
  "getLocalStorage E s =
     (let d = (if IsIntialized (disk s) then disk s else InitDb (GetLocalStorageDir (cfg E)) (disk s));
          (r, d') = GetDb (open_db E) d
      in (r, s\<lparr>disk := d'\<rparr>))"

definition GetEncryptor :: "('d, 'e, 'o) env \<Rightarrow> Encryptor" where
  "GetEncryptor E =
     \<lparr>IV = ENCRYPT_IV (cfg E), Key = ENCRYPT_KEY (cfg E), enc_Mode = [], enc_Cipher = []\<rparr>"

section \<open>The local database\<close>

definition GetFromDisk ::
    "('d, 'e, 'o) env \<Rightarrow> string \<Rightarrow> ('d, 'e) client \<Rightarrow> bytes res \<times> ('d, 'e) client" where
  "GetFromDisk E name s =
     (case getLocalStorage E s of
        (Ok _, s1) \<Rightarrow>
          (case Conn_Get (engine E) (reopen_db E) name (disk s1) of
             (r, d) \<Rightarrow>
               ((case r of
                   Ok re \<Rightarrow>
                     if ENCRYPT_ENABLE (cfg E) then
                       (case Decrypt (tables E) (GetEncryptor E) re of
                          Err e \<Rightarrow> Err (ErrWrap (''Failed to decrypt config['' @ name @ '']: '') e)
                        | x \<Rightarrow> x)
                     else Ok re
                 | Err e \<Rightarrow> Err (ErrWrap (''Failed to read config ['' @ name @ ''] from db: '') e)
                 | Panic m \<Rightarrow> Panic m),
                s1\<lparr>disk := d\<rparr>))
      | (Err e, s1) \<Rightarrow> (Err e, s1)
      | (Panic m, s1) \<Rightarrow> (Panic m, s1))"

definition SaveToDisk ::
    "('d, 'e, 'o) env \<Rightarrow> string \<Rightarrow> bytes \<Rightarrow> ('d, 'e) client \<Rightarrow> unit res \<times> ('d, 'e) client" where
  "SaveToDisk E name content s =
     (case getLocalStorage E s of
        (Ok _, s1) \<Rightarrow>
          (case (if ENCRYPT_ENABLE (cfg E) then Encrypt (tables E) (GetEncryptor E) content else Ok content) of
             Ok c \<Rightarrow>
               (case Conn_Put (engine E) (reopen_db E) name c (disk s1) of
                  (r, d) \<Rightarrow> (r, s1\<lparr>disk := d\<rparr>))
           | Err e \<Rightarrow>
               (Err (ErrWrap (''Failed to enctypt config['' @ name @ ''] when saving to disk: '') e), s1)
           | Panic m \<Rightarrow> (Panic m, s1))
      | (r, s1) \<Rightarrow> (r, s1))"

section \<open>The configuration server\<close>

text \<open>\<^verbatim>\<open>int(f)\<close> of a float: truncation.\<close>

definition trunc :: "rat \<Rightarrow> int" where
  "trunc r = (if r < 0 then - \<lfloor>- r\<rfloor> else \<lfloor>r\<rfloor>)"

definition as_float :: "json option \<Rightarrow> rat res" where
  "as_float j = (case j of Some (JNum r) \<Rightarrow> Ok r | _ \<Rightarrow> Panic ''interface conversion: not float64'')"

definition is_nil :: "json option \<Rightarrow> bool" where
  "is_nil j = (case j of None \<Rightarrow> True | Some JNull \<Rightarrow> True | _ \<Rightarrow> False)"

text \<open>What follows a value printed with \<^verbatim>\<open>%f\<close> or \<^verbatim>\<open>%v\<close> in a message is left out.\<close>

definition content_of_server ::
    "('d, 'e, 'o) env \<Rightarrow> string \<Rightarrow> (string \<times> json) list \<Rightarrow> bytes res" where
  "content_of_server E name rawMap =
     (case mget rawMap ''metadata'' of
        Some (JObj metadata) \<Rightarrow>
          res_bind (if is_nil (mget metadata ''encrypted'') then Ok 0
                    else res_bind (as_float (mget metadata ''encrypted'')) (\<lambda>r. Ok (trunc r)))
            (\<lambda>encrypted.
          res_bind (as_float (mget metadata ''state'')) (\<lambda>state.
            if trunc state \<noteq> 1 then
              Err (ErrText (''config['' @ name @ ''] is marked as un-published on config server. Skipped this version of the content''))
            else if encrypted = 1 then
              (if \<not> is_nil (mget metadata ''encrypt_ver'')
                  \<and> mget metadata ''encrypt_ver'' \<noteq> Some (JNum (ENCRYPT_VER (cfg E)))
               then Err (ErrText (''config ['' @ name @ ''] is an encrypted version on config server, but your encryption settings is ver''))
               else case mget rawMap ''content'' of
                      Some (JStr b64) \<Rightarrow>
                        (case DecodeString b64 of
                           Ok re \<Rightarrow>
                             (case Decrypt (tables E) (GetEncryptor E) re of
                                Err e \<Rightarrow> Err (ErrWrap (''Failed to decrypt of ['' @ name @ ''] config from server: '') e)
                              | x \<Rightarrow> x)
                         | Err e \<Rightarrow> Err (ErrWrap (''Failed to decode content of ['' @ name @ ''] config from server: '') e)
                         | Panic m \<Rightarrow> Panic m)
                    | _ \<Rightarrow> Panic ''interface conversion: not string'')
            else
              (if is_nil (mget rawMap ''content'') then Ok []
               else case mget rawMap ''content'' of
                      Some (JStr c) \<Rightarrow> Ok c
                    | _ \<Rightarrow> Err (ErrText (''config content of ['' @ name @ ''] on config server is broken'')))))
      | _ \<Rightarrow> Panic ''interface conversion: not map[string]interface {}'')"

definition GetFromServer :: "('d, 'e, 'o) env \<Rightarrow> string \<Rightarrow> ('d, 'e) client \<Rightarrow> bytes res" where
  "GetFromServer E name s =
     (case remote E of
        Err e \<Rightarrow> Err (ErrWrap ''Failed to get remote storage engine: '' e)
      | Panic m \<Rightarrow> Panic m
      | Ok _ \<Rightarrow>
          res_bind (zk_Get (etcd E) (zkRoot E) (server s) (CN2P (zkRoot E) name)) (\<lambda>rawContent.
            case UnmarshalMap rawContent of
              Err e \<Rightarrow> Err (ErrWrap ''Failed to decode config content from config server: '' e)
            | Panic m \<Rightarrow> Panic m
            | Ok rawMap \<Rightarrow> content_of_server E name rawMap))"

section \<open>By any means\<close>

definition no_means :: "string \<Rightarrow> goerr" where
  "no_means name = ErrText (''Failed to get config['' @ name @ ''] by any means!'')"

text \<open>The part of \<^verbatim>\<open>GetConfig\<close> after the lock: database, then server.\<close>

definition fetch_toml ::
    "('d, 'e, 'o) env \<Rightarrow> string \<Rightarrow> ('d, 'e) client \<Rightarrow> bytes res \<times> ('d, 'e) client" where
  "fetch_toml E name s =
     (case GetFromDisk E name s of
        (Err _, s1) \<Rightarrow>
          (case GetFromServer E name s1 of
             Ok re \<Rightarrow>
               (case SaveToDisk E name re s1 of
                  (Panic m, s2) \<Rightarrow> (Panic m, s2)
                | (_, s2) \<Rightarrow> (Ok re, s2))
           | x \<Rightarrow> (x, s1))
      | x \<Rightarrow> x)"

definition fetch ::
    "('d, 'e, 'o) env \<Rightarrow> string \<Rightarrow> ('d, 'e) client \<Rightarrow> bytes option res \<times> ('d, 'e) client" where
  "fetch E name s =
     (case fetch_toml E name s of
        (Ok re, s2) \<Rightarrow>
          (case TomlConfigValueToJson (load E) (fmtenv E) re of
             Ok j \<Rightarrow> (Ok j, s2\<lparr>mem := StoreToMem name j (mem s2)\<rparr>)
           | x \<Rightarrow> (x, s2))
      | (Err _, s2) \<Rightarrow> (Err (no_means name), s2)
      | (Panic m, s2) \<Rightarrow> (Panic m, s2))"

text \<open>
  \<open>t1\<close> and \<open>t2\<close> are the times at which the lock is asked for and released; \<open>None\<close> stands for waiting
  for another goroutine.
\<close>

definition GetConfig ::
    "('d, 'e, 'o) env \<Rightarrow> int \<Rightarrow> int \<Rightarrow> string \<Rightarrow> 'o DebugConfigs option \<Rightarrow> string \<Rightarrow> bool
     \<Rightarrow> ('d, 'e) client \<Rightarrow> (bytes option res \<times> ('d, 'e) client) option" where
  "GetConfig E t1 t2 name dbc schemafilePath lockSrvCocur s =
     (case (case dbc of
              None \<Rightarrow> Ok (None, [])
            | Some d \<Rightarrow> GetConfigBySchemafile (fmtenv E) (tree_string E) d name schemafilePath False) of
        Panic m \<Rightarrow> Some (Panic m, s)
      | Err e \<Rightarrow> Some (Err e, s)
      | Ok (Some re, _) \<Rightarrow> Some (Ok (Some re), s)
      | Ok (None, _) \<Rightarrow>
          (case GetFromMem name (mem s) of
             Some re \<Rightarrow> Some (Ok (Some re), s)
           | None \<Rightarrow>
               if lockSrvCocur then
                 (case getLockOfSrv t1 name (queued s) of
                    None \<Rightarrow> None
                  | Some (fetchState, q) \<Rightarrow>
                      if fetchState = 0 then
                        (case GetFromMem name (mem s) of
                           Some re \<Rightarrow> Some (Ok (Some re), s\<lparr>queued := q\<rparr>)
                         | None \<Rightarrow>
                             Some (Err (ErrText (''Failed to get config['' @ name @ ''] by any means after a waiting!'')),
                                   s\<lparr>queued := q\<rparr>))
                      else
                        (case fetch E name (s\<lparr>queued := q\<rparr>) of
                           (r, s') \<Rightarrow>
                             (case releaseLockOfSrv t2 name (queued s') of
                                None \<Rightarrow> None
                              | Some (Ok q') \<Rightarrow> Some (r, s'\<lparr>queued := q'\<rparr>)
                              | Some (Err e) \<Rightarrow> Some (Err e, s')
                              | Some (Panic m) \<Rightarrow> Some (Panic m, s'))))
               else Some (fetch E name s)))"

section \<open>The database keeps what it is given\<close>

definition db_open :: "('d, 'e, 'o) env \<Rightarrow> ('d \<Rightarrow> bool) \<Rightarrow> ('d, 'e) client \<Rightarrow> bool" where
  "db_open E is_open s \<longleftrightarrow> ldb_ready (engine E) is_open (disk s) \<and> initialized (disk s)"

lemma getLocalStorage_open: "db_open E is_open s \<Longrightarrow> getLocalStorage E s = (Ok (), s)"
  by (auto simp: db_open_def ldb_ready_def getLocalStorage_def IsIntialized_def GetDb_def)

lemma Conn_Get_open:
  "ldb_ready eng is_open d \<Longrightarrow> snd (Conn_Get eng f k d) = d"
  using Conn_Get_ready [of eng is_open d _ f k] by (auto simp: ldb_ready_def)

lemma Conn_Put_open:
  "ldb_ready eng is_open d \<Longrightarrow> fst (Conn_Put eng f k v d) = Ok ()
     \<and> initialized (snd (Conn_Put eng f k v d)) = initialized d"
  using Conn_Put_ready [of eng is_open d _ f k v] by (auto simp: ldb_ready_def)

text \<open>What a stored text reads back as: encryption drops trailing zero bytes.\<close>

definition stored :: "('d, 'e, 'o) env \<Rightarrow> bytes \<Rightarrow> bytes" where
  "stored E c = (if ENCRYPT_ENABLE (cfg E) then TrimRight c [NUL] else c)"

definition keys_ok :: "('d, 'e, 'o) env \<Rightarrow> bool" where
  "keys_ok E \<longleftrightarrow> wf_encryptor (GetEncryptor E)"

lemma SaveToDisk_open:
  assumes "db_open E is_open s" and "keys_ok E"
  obtains c where "(if ENCRYPT_ENABLE (cfg E) then Encrypt (tables E) (GetEncryptor E) content else Ok content) = Ok c"
    and "SaveToDisk E name content s
      = (Ok (), s\<lparr>disk := snd (Conn_Put (engine E) (reopen_db E) name c (disk s))\<rparr>)"
proof -
  obtain c where c: "(if ENCRYPT_ENABLE (cfg E) then Encrypt (tables E) (GetEncryptor E) content else Ok content) = Ok c"
    using assms(2) Encrypt_wf by (cases "ENCRYPT_ENABLE (cfg E)") (auto simp: keys_ok_def)
  have "ldb_ready (engine E) is_open (disk s)" using assms(1) by (simp add: db_open_def)
  then have "fst (Conn_Put (engine E) (reopen_db E) name c (disk s)) = Ok ()"
    by (rule Conn_Put_open [THEN conjunct1])
  then have "SaveToDisk E name content s
      = (Ok (), s\<lparr>disk := snd (Conn_Put (engine E) (reopen_db E) name c (disk s))\<rparr>)"
    using c getLocalStorage_open [OF assms(1)]
    by (cases "Conn_Put (engine E) (reopen_db E) name c (disk s)") (simp add: SaveToDisk_def)
  with c show thesis by (rule that)
qed

text \<open>A write of another key, whoever makes it.\<close>

lemma db_open_Put:
  assumes "db_open E is_open s"
  shows "db_open E is_open (s\<lparr>disk := snd (Conn_Put (engine E) (reopen_db E) k c (disk s))\<rparr>)"
proof -
  have r: "ldb_ready (engine E) is_open (disk s)" "initialized (disk s)"
    using assms by (simp_all add: db_open_def)
  then show ?thesis using leveldb.inv_put [OF r(1)] Conn_Put_open [OF r(1), THEN conjunct2] by (simp add: db_open_def)
qed

lemma GetFromDisk_Put_other:
  assumes "db_open E is_open s" and "name \<noteq> k"
  shows "fst (GetFromDisk E name (s\<lparr>disk := snd (Conn_Put (engine E) (reopen_db E) k c (disk s))\<rparr>)) = fst (GetFromDisk E name s)"
proof -
  let ?s = "s\<lparr>disk := snd (Conn_Put (engine E) (reopen_db E) k c (disk s))\<rparr>"
  have r: "ldb_ready (engine E) is_open (disk s)" using assms(1) by (simp add: db_open_def)
  have "fst (Conn_Get (engine E) (reopen_db E) name (disk ?s)) = fst (Conn_Get (engine E) (reopen_db E) name (disk s))"
    using leveldb.get_put [OF r] assms(2) by simp
  then show ?thesis
    using getLocalStorage_open [OF db_open_Put [OF assms(1), of k c]] getLocalStorage_open [OF assms(1)]
    by (cases "Conn_Get (engine E) (reopen_db E) name (disk ?s)";
        cases "Conn_Get (engine E) (reopen_db E) name (disk s)") (simp add: GetFromDisk_def)
qed

lemma db_open_SaveToDisk:
  assumes "db_open E is_open s" and "keys_ok E"
  shows "db_open E is_open (snd (SaveToDisk E name content s))"
  using SaveToDisk_open [OF assms] db_open_Put [OF assms(1)] by (metis snd_conv)

lemma SaveToDisk_mem:
  assumes "db_open E is_open s" and "keys_ok E"
  shows "mem (snd (SaveToDisk E name content s)) = mem s" "server (snd (SaveToDisk E name content s)) = server s"
    "fst (SaveToDisk E name content s) = Ok ()"
  using SaveToDisk_open [OF assms, of content name] by fastforce+

lemma GetFromDisk_open:
  "db_open E is_open s \<Longrightarrow> snd (GetFromDisk E name s) = s"
  using Conn_Get_open [of "engine E" is_open "disk s" "reopen_db E" name]
  by (cases "Conn_Get (engine E) (reopen_db E) name (disk s)")
    (auto simp: GetFromDisk_def getLocalStorage_open db_open_def)

lemma GetFromDisk_SaveToDisk_same:
  assumes "db_open E is_open s" and "keys_ok E"
  shows "fst (GetFromDisk E name (snd (SaveToDisk E name content s))) = Ok (stored E content)"
proof -
  obtain c where c: "(if ENCRYPT_ENABLE (cfg E) then Encrypt (tables E) (GetEncryptor E) content else Ok content) = Ok c"
    and save: "SaveToDisk E name content s
      = (Ok (), s\<lparr>disk := snd (Conn_Put (engine E) (reopen_db E) name c (disk s))\<rparr>)"
    using SaveToDisk_open [OF assms] by blast
  let ?s = "snd (SaveToDisk E name content s)"
  have r: "ldb_ready (engine E) is_open (disk s)" using assms(1) by (simp add: db_open_def)
  have "fst (Conn_Get (engine E) (reopen_db E) name (disk ?s)) = Ok c"
    using leveldb.get_put [OF r] save by simp
  moreover have "getLocalStorage E ?s = (Ok (), ?s)"
    using db_open_SaveToDisk [OF assms] by (rule getLocalStorage_open)
  ultimately have "fst (GetFromDisk E name ?s) =
      (if ENCRYPT_ENABLE (cfg E) then
         (case Decrypt (tables E) (GetEncryptor E) c of
            Err e \<Rightarrow> Err (ErrWrap (''Failed to decrypt config['' @ name @ '']: '') e) | x \<Rightarrow> x)
       else Ok c)"
    by (cases "Conn_Get (engine E) (reopen_db E) name (disk ?s)") (simp add: GetFromDisk_def)
  then show ?thesis
    using c Decrypt_Encrypt_TrimRight [of "GetEncryptor E" "tables E" content c] assms(2)
    by (cases "ENCRYPT_ENABLE (cfg E)") (simp_all add: stored_def keys_ok_def)
qed

lemma GetFromDisk_SaveToDisk_other:
  assumes "db_open E is_open s" and "keys_ok E" and "name' \<noteq> name"
  shows "fst (GetFromDisk E name' (snd (SaveToDisk E name content s))) = fst (GetFromDisk E name' s)"
  using SaveToDisk_open [OF assms(1,2)] GetFromDisk_Put_other [OF assms(1,3)] by (metis snd_conv)

interpretation localdb: kv_store "\<lambda>s name. fst (GetFromDisk E name s)"
    "\<lambda>name content s. snd (SaveToDisk E name content s)" "\<lambda>content. Ok (stored E content)"
    "\<lambda>s. db_open E is_open s \<and> keys_ok E" for E :: "('d, 'e, 'o) env" and is_open
  by unfold_locales (auto simp: GetFromDisk_SaveToDisk_same GetFromDisk_SaveToDisk_other db_open_SaveToDisk)

section \<open>A concrete client\<close>

definition demo_config :: Config where
  "demo_config = zero_config\<lparr>ENCRYPT_ENABLE := True, ENCRYPT_KEY := ''dove-key'', ENCRYPT_IV := ''JM-20150'',
     ENCRYPT_VER := 1\<rparr>"

text \<open>A parser that takes every text for a document with one key \<^verbatim>\<open>host\<close>.\<close>

definition demo_load :: "string \<Rightarrow> unit toml res" where
  "demo_load text = Ok (TTree [''host''] [(''host'', TStr text)])"

type_synonym demo_db = "bool \<times> (bytes, bytes) gomap"

definition demo_env :: "unit res \<Rightarrow> (demo_db, (string, bytes) gomap, unit) env" where
  "demo_env rem =
     \<lparr>cfg = demo_config, zkRoot = ''/jumeiconf'', engine = map_engine, open_db = (\<lambda>_ _. Ok (True, [])),
      reopen_db = (\<lambda>_. Ok (True, [])), etcd = map_etcd, remote = rem,
      tables = \<lparr>c_p = (\<lambda>_. 1), c_s0 = (\<lambda>_. 2), c_s1 = (\<lambda>_. 3), c_s2 = (\<lambda>_. 4), c_s3 = (\<lambda>_. 5)\<rparr>,
      load = demo_load,
      fmtenv = \<lparr>isPrint = (\<lambda>_. True), fmt_other = (\<lambda>_. []), fmt_ptr = (\<lambda>_. [])\<rparr>,
      tree_string = (\<lambda>_. []),
      files = \<lparr>fs_dir = (\<lambda>_. Err (ErrText ''none'')), fs_file = (\<lambda>_. Err (ErrText ''none''))\<rparr>\<rparr>"

definition demo_client :: "(string, bytes) gomap \<Rightarrow> (demo_db, (string, bytes) gomap) client" where
  "demo_client srv =
     \<lparr>mem = \<lparr>memCachedProjectConfigs = [], rawConfig = []\<rparr>,
      disk = \<lparr>rconn = Some (True, []), dbRWLock = False, dbObjCreateLock = False,
              db_config = ''/d'', initialized = True\<rparr>,
      server = srv, queued = []\<rparr>"

lemma demo_open: "db_open (demo_env rem) fst (demo_client srv)"
  using map_engine_ok by (simp add: db_open_def demo_client_def demo_env_def ldb_ready_def)

lemma demo_keys: "keys_ok (demo_env rem)"
  by (simp add: keys_ok_def demo_env_def GetEncryptor_def demo_config_def wf_encryptor_def
      ENC_IV_SIZE_def zero_config_def)

section \<open>What the stores promise\<close>

definition save_all :: "('d, 'e, 'o) env \<Rightarrow> (string \<times> bytes) list \<Rightarrow> ('d, 'e) client \<Rightarrow> ('d, 'e) client" where
  "save_all E kvs s = fold (\<lambda>(k, v). (\<lambda>s. snd (SaveToDisk E k v s))) kvs s"

text \<open>C5: with an open database and valid encryption settings, saving any number of
  configurations and reading one gives its content back (without trailing zero bytes when encryption
  is enabled), and leaves every other configuration as it was.\<close>

theorem SaveToDisk_roundtrip:
  assumes "db_open E is_open s" and "keys_ok E" and "wf_map kvs"
  shows "fst (GetFromDisk E name (save_all E kvs s)) =
    (case mget kvs name of
       Some content \<Rightarrow> Ok (stored E content)
     | None \<Rightarrow> fst (GetFromDisk E name s))"
  using localdb.get_puts [where E = E and is_open = is_open and s = s and kvs = kvs and k = name] assms
  unfolding save_all_def localdb.puts_def by simp

theorem SaveToDisk_roundtrip_witness:
  "fst (GetFromDisk (demo_env (Ok ())) ''A.b''
     (save_all (demo_env (Ok ())) [(''A.a'', ''x=1''), (''A.b'', ''x=2'')] (demo_client []))) = Ok ''x=2''"
proof -
  have "stored (demo_env (Ok ())) ''x=2'' = ''x=2''"
    by (simp add: stored_def TrimRight_id)
  then show ?thesis
    using SaveToDisk_roundtrip [OF demo_open demo_keys, of "[(''A.a'', ''x=1''), (''A.b'', ''x=2'')]" "Ok ()" "''A.b''" "[]"]
    by (simp add: wf_map_def)
qed

text \<open>What the configuration system writes on the server for a published configuration.\<close>

definition published :: "(rat \<Rightarrow> string) \<Rightarrow> bool \<Rightarrow> string \<Rightarrow> bytes" where
  "published fmt_num encrypted content =
     marshal fmt_num (JObj [(''content'', JStr content),
       (''metadata'', JObj [(''encrypted'', JInt (if encrypted then 1 else 0)), (''state'', JInt 1)])])"

lemma UnmarshalMap_published:
  assumes "\<forall>c \<in> set content. (of_char c :: nat) < 128"
  shows "UnmarshalMap (published fmt_num enc content) =
    Ok [(''content'', JStr content), (''metadata'', JObj [(''encrypted'', JNum (if enc then 1 else 0)), (''state'', JNum 1)])]"
proof -
  have "plain_json (JObj [(''content'', JStr content),
      (''metadata'', JObj [(''encrypted'', JInt (if enc then 1 else 0)), (''state'', JInt 1)])])"
    using assms by (simp add: wf_map_def)
  from Unmarshal_marshal [OF this, of fmt_num] show ?thesis
    by (simp add: published_def UnmarshalMap_def sort_keys_def)
qed

lemma GetFromServer_published:
  assumes "remote E = Ok ()" and "plain_name name"
    and "et_get (etcd E) (server s) name = Ok (published fmt_num enc content # kvs)"
    and "\<forall>c \<in> set content. (of_char c :: nat) < 128"
  shows "GetFromServer E name s =
    (if enc then
       (case DecodeString content of
          Ok re \<Rightarrow> (case Decrypt (tables E) (GetEncryptor E) re of
              Err e \<Rightarrow> Err (ErrWrap (''Failed to decrypt of ['' @ name @ ''] config from server: '') e) | x \<Rightarrow> x)
        | Err e \<Rightarrow> Err (ErrWrap (''Failed to decode content of ['' @ name @ ''] config from server: '') e)
        | Panic m \<Rightarrow> Panic m)
     else Ok content)"
  using assms(1) P2CN_CN2P_plain [OF assms(2)] assms(3) UnmarshalMap_published [OF assms(4)]
  by (simp add: GetFromServer_def zk_Get_def content_of_server_def as_float_def is_nil_def trunc_def)

text \<open>C4: the client reads from the server exactly the content that was published there: a plain
  content as it is; a content that was encrypted under the client's key and written in base64 as
  the plain text it was made from (without trailing zero bytes).\<close>

theorem GetFromServer_reads_published:
  assumes "remote E = Ok ()" and "plain_name name" and "keys_ok E"
    and "Encrypt (tables E) (GetEncryptor E) secret = Ok c"
    and "\<forall>x \<in> set content. (of_char x :: nat) < 128"
    and "et_get (etcd E) (server sa) name = Ok [published fmt_num False content]"
    and "et_get (etcd E) (server sb) name = Ok [published fmt_num True (b64_encode c)]"
  shows "GetFromServer E name sa = Ok content \<and> GetFromServer E name sb = Ok (TrimRight secret [NUL])"
  using GetFromServer_published [OF assms(1,2,6,5)]
    GetFromServer_published [OF assms(1,2,7) b64_encode_less_128]
    Decrypt_Encrypt_TrimRight [OF _ assms(4)] assms(3)
  by (simp add: DecodeString_encode keys_ok_def)

theorem GetFromServer_reads_published_witness:
  "\<exists>c. GetFromServer (demo_env (Ok ())) ''Pay.Db.host''
     (demo_client [(''Pay.Db.host'', published (\<lambda>_. []) True (b64_encode c))]) = Ok ''host=1''"
proof -
  obtain c where c: "Encrypt (tables (demo_env (Ok ()))) (GetEncryptor (demo_env (Ok ()))) ''host=1'' = Ok c"
    using demo_keys Encrypt_wf unfolding keys_ok_def by blast
  have "TrimRight ''host=1'' [NUL] = ''host=1''" by (rule TrimRight_id) simp
  moreover have "plain_name ''Pay.Db.host''" by (simp add: plain_name_def)
  moreover have "remote (demo_env (Ok ())) = Ok ()" by (simp add: demo_env_def)
  moreover have "et_get (etcd (demo_env (Ok ()))) (server (demo_client [(''Pay.Db.host'', v)])) ''Pay.Db.host'' = Ok [v]" for v
    by (simp add: demo_env_def demo_client_def map_etcd_def)
  ultimately have "GetFromServer (demo_env (Ok ())) ''Pay.Db.host''
     (demo_client [(''Pay.Db.host'', published (\<lambda>_. []) True (b64_encode c))]) = Ok ''host=1''"
    using GetFromServer_reads_published [where E = "demo_env (Ok ())" and name = "''Pay.Db.host''"
        and content = "[]" and sa = "demo_client [(''Pay.Db.host'', published (\<lambda>_. []) False [])]"
        and fmt_num = "\<lambda>_. []", OF _ _ demo_keys c] by simp
  then show ?thesis by blast
qed

section \<open>Reading by any means\<close>

lemma getLocalStorage_frame:
  "mem (snd (getLocalStorage E s)) = mem s" "queued (snd (getLocalStorage E s)) = queued s"
  by (simp_all add: getLocalStorage_def case_prod_beta Let_def)

lemma GetFromDisk_frame:
  "mem (snd (GetFromDisk E n s)) = mem s" "queued (snd (GetFromDisk E n s)) = queued s"
  using getLocalStorage_frame [of E s]
  by (cases "getLocalStorage E s"; auto simp: GetFromDisk_def split: res.split prod.split)+

lemma SaveToDisk_frame:
  "mem (snd (SaveToDisk E n c s)) = mem s" "queued (snd (SaveToDisk E n c s)) = queued s"
  using getLocalStorage_frame [of E s]
  by (cases "getLocalStorage E s"; auto simp: SaveToDisk_def split: res.split prod.split)+

lemma fetch_toml_frame:
  "mem (snd (fetch_toml E name s)) = mem s \<and> queued (snd (fetch_toml E name s)) = queued s"
proof -
  obtain rd s1 where d: "GetFromDisk E name s = (rd, s1)" by fastforce
  then have f1: "mem s1 = mem s" "queued s1 = queued s"
    using GetFromDisk_frame [of E name s] by simp_all
  have "mem s2 = mem s \<and> queued s2 = queued s" if "SaveToDisk E name re s1 = (rs, s2)" for re rs s2
    using SaveToDisk_frame [of E name re s1] f1 that by simp
  with d f1 show ?thesis by (auto simp: fetch_toml_def split: res.split prod.split)
qed

lemma fetch_state:
  assumes "fetch E name s = (r, s')"
  shows "queued s' = queued s
    \<and> mem s' = (case r of Ok j \<Rightarrow> StoreToMem name j (mem s) | _ \<Rightarrow> mem s)"
  using assms fetch_toml_frame [of E name s]
  by (cases "fetch_toml E name s") (auto simp: fetch_def split: res.splits)

lemma GetConfig_memory:
  "GetFromMem name (mem s) = Some re \<Longrightarrow> GetConfig E t1 t2 name None sf lock s = Some (Ok (Some re), s)"
  by (simp add: GetConfig_def)

lemma GetConfig_fetch:
  assumes "GetFromMem name (mem s) = None"
    and "GetConfig E t1 t2 name None sf lock s = Some (Ok (Some re), s')"
  shows "\<exists>s0 s1. fetch E name s0 = (Ok (Some re), s1) \<and> mem s0 = mem s \<and> mem s' = mem s1"
proof (cases lock)
  case False
  with assms show ?thesis by (auto simp: GetConfig_def)
next
  case True
  with assms obtain f q where q: "getLockOfSrv t1 name (queued s) = Some (f, q)"
    by (auto simp: GetConfig_def split: option.splits)
  obtain r s1 where f: "fetch E name (s\<lparr>queued := q\<rparr>) = (r, s1)" by fastforce
  from True assms q f have "r = Ok (Some re) \<and> mem s' = mem s1"
    by (auto simp: GetConfig_def split: option.splits if_splits res.splits)
  with f show ?thesis by (intro exI [of _ "s\<lparr>queued := q\<rparr>"] exI [of _ s1]) simp
qed

text \<open>A configuration that \<^verbatim>\<open>GetConfig\<close> returned is in memory afterwards, the other
  configurations in memory are as before, and every later call returns the same value
  without changing the state of the client.\<close>

theorem GetConfig_cached:
  assumes "GetConfig E t1 t2 name None sf lock s = Some (Ok (Some re), s')"
  shows "GetFromMem name (mem s') = Some re
    \<and> (\<forall>n. n \<noteq> name \<longrightarrow> GetFromMem n (mem s') = GetFromMem n (mem s))
    \<and> GetConfig E t3 t4 name None sf' lock' s' = Some (Ok (Some re), s')"
proof (cases "GetFromMem name (mem s)")
  case (Some v)
  with assms show ?thesis by (simp add: GetConfig_memory)
next
  case None
  from GetConfig_fetch [OF this assms] obtain s0 s1 where
    "fetch E name s0 = (Ok (Some re), s1)" "mem s0 = mem s" "mem s' = mem s1" by blast
  then have "mem s' = StoreToMem name (Some re) (mem s)" using fetch_state by fastforce
  then show ?thesis by (simp add: GetConfig_memory)
qed

lemma fetch_from_disk:
  assumes "GetFromDisk E name s = (Ok content, s1)"
    and "TomlConfigValueToJson (load E) (fmtenv E) content = Ok j"
  shows "fetch E name s = (Ok j, s1\<lparr>mem := StoreToMem name j (mem s1)\<rparr>)"
  using assms by (simp add: fetch_def fetch_toml_def)

lemma GetFromDisk_env:
  "GetFromDisk (E\<lparr>remote := r\<rparr>) name (s\<lparr>mem := m\<rparr>) = map_prod id (\<lambda>s. s\<lparr>mem := m\<rparr>) (GetFromDisk E name s)"
proof -
  have st: "getLocalStorage (E\<lparr>remote := r\<rparr>) (s\<lparr>mem := m\<rparr>) = map_prod id (\<lambda>s. s\<lparr>mem := m\<rparr>) (getLocalStorage E s)"
    by (simp add: getLocalStorage_def case_prod_beta Let_def)
  have enc: "GetEncryptor (E\<lparr>remote := r\<rparr>) = GetEncryptor E" by (simp add: GetEncryptor_def)
  show ?thesis
    by (cases "getLocalStorage E s")
      (simp add: GetFromDisk_def st enc split: res.split prod.split)
qed

lemma GetConfig_fetches:
  assumes "db_open E is_open s" and "keys_ok E" and "GetFromMem name (mem s) = None"
    and "fst (GetFromDisk E name s) = Err x" and "GetFromServer E name s = Ok content"
    and "TomlConfigValueToJson (load E) (fmtenv E) content = Ok j"
  shows "GetConfig E t1 t2 name None sf False s =
    Some (Ok j, (snd (SaveToDisk E name content s))\<lparr>mem := StoreToMem name j (mem (snd (SaveToDisk E name content s)))\<rparr>)"
proof -
  have d: "GetFromDisk E name s = (Err x, s)"
    using assms(4) GetFromDisk_open [OF assms(1), of name] by (simp add: prod_eq_iff)
  have "fst (SaveToDisk E name content s) = Ok ()"
    using SaveToDisk_open [OF assms(1,2)] by (metis fst_conv)
  with d assms(3,5,6) show ?thesis
    by (cases "SaveToDisk E name content s") (simp add: GetConfig_def fetch_def fetch_toml_def)
qed

text \<open>What the database has is handed out by a process with other contents in memory, without the server.\<close>

lemma GetConfig_from_disk:
  assumes "fst (GetFromDisk E name s) = Ok content" and "TomlConfigValueToJson (load E) (fmtenv E) content = Ok j"
    and "GetFromMem name m = None"
  shows "\<exists>s'. GetConfig (E\<lparr>remote := r\<rparr>) t1 t2 name None sf False (s\<lparr>mem := m\<rparr>) = Some (Ok j, s')"
proof -
  obtain s1 where "GetFromDisk E name s = (Ok content, s1)" using assms(1) by (cases "GetFromDisk E name s") auto
  then have "GetFromDisk (E\<lparr>remote := r\<rparr>) name (s\<lparr>mem := m\<rparr>) = (Ok content, s1\<lparr>mem := m\<rparr>)"
    using GetFromDisk_env [where E = E and r = r and name = name and s = s and m = m] by simp
  from fetch_from_disk [OF this, of j] assms(2,3) show ?thesis by (simp add: GetConfig_def)
qed

text \<open>C1: a configuration that was neither in memory nor in the database is fetched from the server,
  decoded, kept in memory and written to the database; from then on it survives a restart (a process
  with other contents in memory) even when the server cannot be reached.\<close>

theorem GetConfig_survives_restart:
  assumes "db_open E is_open s" and "keys_ok E" and "stored E content = content"
    and "GetFromMem name (mem s) = None" and "fst (GetFromDisk E name s) = Err x"
    and "GetFromServer E name s = Ok content"
    and "TomlConfigValueToJson (load E) (fmtenv E) content = Ok j"
  shows "\<exists>s'. GetConfig E t1 t2 name None sf False s = Some (Ok j, s')
    \<and> GetFromMem name (mem s') = j \<and> fst (GetFromDisk E name s') = Ok content
    \<and> (\<forall>m e. GetFromMem name m = None \<longrightarrow>
         (\<exists>s''. GetConfig (E\<lparr>remote := Err e\<rparr>) t3 t4 name None sf False (s'\<lparr>mem := m\<rparr>) = Some (Ok j, s'')))"
proof -
  define s2 where "s2 = snd (SaveToDisk E name content s)"
  define s' where "s' = s2\<lparr>mem := StoreToMem name j (mem s2)\<rparr>"
  have get: "GetConfig E t1 t2 name None sf False s = Some (Ok j, s')"
    using GetConfig_fetches [OF assms(1,2,4-7)] by (simp add: s2_def s'_def)
  have "fst (GetFromDisk E name s2) = Ok content"
    using GetFromDisk_SaveToDisk_same [OF assms(1,2), of name content] assms(3) by (simp add: s2_def)
  then obtain s3 where s3: "GetFromDisk E name s2 = (Ok content, s3)" by (cases "GetFromDisk E name s2") auto
  have disk': "GetFromDisk E name s' = (Ok content, s3\<lparr>mem := StoreToMem name j (mem s2)\<rparr>)"
    using GetFromDisk_env [where E = E and r = "remote E" and name = name and s = s2 and m = "StoreToMem name j (mem s2)"] s3 by (simp add: s'_def)
  have "\<exists>s''. GetConfig (E\<lparr>remote := Err e\<rparr>) t3 t4 name None sf False (s'\<lparr>mem := m\<rparr>) = Some (Ok j, s'')"
    if "GetFromMem name m = None" for m e
    using GetConfig_from_disk [OF _ assms(7) that] disk' by simp
  with get disk' show ?thesis by (intro exI [of _ s']) (simp add: s'_def)
qed

definition demo_server :: "(string, bytes) gomap" where
  "demo_server = [(''Pay.Db.host'', published (\<lambda>_. []) False ''x'')]"

lemma demo_facts:
  "stored (demo_env (Ok ())) ''x'' = ''x''"
  "GetFromMem ''Pay.Db.host'' (mem (demo_client demo_server)) = None"
  "\<exists>e. fst (GetFromDisk (demo_env (Ok ())) ''Pay.Db.host'' (demo_client demo_server)) = Err e"
  "GetFromServer (demo_env (Ok ())) ''Pay.Db.host'' (demo_client demo_server) = Ok ''x''"
  "TomlConfigValueToJson (load (demo_env (Ok ()))) (fmtenv (demo_env (Ok ()))) ''x'' = Ok (Some [CHR 0x22, CHR ''x'', CHR 0x22])"
proof -
  show "stored (demo_env (Ok ())) ''x'' = ''x''" by (simp add: stored_def TrimRight_id)
  show "GetFromMem ''Pay.Db.host'' (mem (demo_client demo_server)) = None"
    by (simp add: demo_client_def GetFromMem_def)
  have "getLocalStorage (demo_env (Ok ())) (demo_client demo_server) = (Ok (), demo_client demo_server)"
    using demo_open by (rule getLocalStorage_open)
  then show "\<exists>e. fst (GetFromDisk (demo_env (Ok ())) ''Pay.Db.host'' (demo_client demo_server)) = Err e"
    by (simp add: GetFromDisk_def, simp add: demo_env_def demo_client_def Conn_Get_def getDbRWLock_def
        conn_get_def map_engine_def)
  show "GetFromServer (demo_env (Ok ())) ''Pay.Db.host'' (demo_client demo_server) = Ok ''x''"
    using GetFromServer_published [where E = "demo_env (Ok ())" and name = "''Pay.Db.host''" and enc = False
        and content = "''x''" and kvs = "[]" and fmt_num = "\<lambda>_. []" and s = "demo_client demo_server"]
    by (simp add: demo_env_def demo_client_def map_etcd_def demo_server_def plain_name_def)
  show "TomlConfigValueToJson (load (demo_env (Ok ()))) (fmtenv (demo_env (Ok ()))) ''x'' = Ok (Some [CHR 0x22, CHR ''x'', CHR 0x22])"
    by (simp add: demo_env_def TomlConfigValueToJson_def demo_load_def Keys_def Get_def subvalues_def
        JsonEncode_def returned_def quote_def quote_body.simps quote_ascii_def char_of_eq_iff)
qed

theorem GetConfig_survives_restart_witness:
  "\<exists>s' s''. GetConfig (demo_env (Ok ())) 0 0 ''Pay.Db.host'' None [] False (demo_client demo_server)
      = Some (Ok (Some [CHR 0x22, CHR ''x'', CHR 0x22]), s')
    \<and> GetConfig ((demo_env (Ok ()))\<lparr>remote := Err (ErrText ''down'')\<rparr>) 9 9 ''Pay.Db.host'' None [] False
        (s'\<lparr>mem := \<lparr>memCachedProjectConfigs = [], rawConfig = []\<rparr>\<rparr>)
      = Some (Ok (Some [CHR 0x22, CHR ''x'', CHR 0x22]), s'')"
proof -
  have m: "GetFromMem ''Pay.Db.host'' \<lparr>memCachedProjectConfigs = [], rawConfig = []\<rparr> = None"
    by (simp add: GetFromMem_def)
  obtain e where e: "fst (GetFromDisk (demo_env (Ok ())) ''Pay.Db.host'' (demo_client demo_server)) = Err e"
    using demo_facts(3) by blast
  show ?thesis
    using GetConfig_survives_restart [OF demo_open demo_keys demo_facts(1,2) e demo_facts(4,5)] m by metis
qed

theorem GetConfig_cached_witness:
  "\<exists>s'. GetConfig (demo_env (Ok ())) 5 6 ''Pay.Db.host'' None [] False (demo_client demo_server)
      = Some (Ok (Some [CHR 0x22, CHR ''x'', CHR 0x22]), s')
    \<and> GetConfig (demo_env (Ok ())) 7 8 ''Pay.Db.host'' None [] True s'
      = Some (Ok (Some [CHR 0x22, CHR ''x'', CHR 0x22]), s')"
proof -
  obtain e where e: "fst (GetFromDisk (demo_env (Ok ())) ''Pay.Db.host'' (demo_client demo_server)) = Err e"
    using demo_facts(3) by blast
  obtain s' where "GetConfig (demo_env (Ok ())) 5 6 ''Pay.Db.host'' None [] False (demo_client demo_server)
      = Some (Ok (Some [CHR 0x22, CHR ''x'', CHR 0x22]), s')"
    using GetConfig_fetches [OF demo_open demo_keys demo_facts(2) e demo_facts(4,5)] by blast
  then show ?thesis using GetConfig_cached by blast
qed

end
