(* ===== verification/GoRegexp.thy ===== *)
theory GoRegexp
  imports Prelude
begin

text \<open>
  The part of Go's \<^verbatim>\<open>regexp\<close> that the client uses.  A match is searched for at the leftmost
  position, and among the matches there the one is taken that a backtracking search finds
  first: \<open>mt r s\<close> lists, in the order of that search, what is left of \<open>s\<close> after each match of
  \<open>r\<close> at its start.  A class is a predicate on bytes; every literal of the source's
  expressions is ASCII, so matching bytes gives the same matches as matching runes.
\<close>

datatype re =
    Eps
  | Eol
  | Cls "char \<Rightarrow> bool"
  | Seq re re
  | Alt re re
  | Star re
  | LazyStar re

function mt :: "re \<Rightarrow> string \<Rightarrow> string list" where
  "mt Eps s = [s]"
| "mt Eol s = (if s = [] then [s] else [])"
| "mt (Cls P) s = (case s of [] \<Rightarrow> [] | c # cs \<Rightarrow> if P c then [cs] else [])"
| "mt (Seq a b) s = concat (map (mt b) (mt a s))"
| "mt (Alt a b) s = mt a s @ mt b s"
| "mt (Star a) s =
     concat (map (\<lambda>r. if length r < length s then mt (Star a) r else []) (mt a s)) @ [s]"
| "mt (LazyStar a) s =
     s # concat (map (\<lambda>r. if length r < length s then mt (LazyStar a) r else []) (mt a s))"
  by pat_completeness auto
termination
  by (relation "measures [size \<circ> fst, length \<circ> snd]") auto

lemmas mt_Star = mt.simps(6) and mt_LazyStar = mt.simps(7)
declare mt.simps(6,7) [simp del]

definition Plus :: "re \<Rightarrow> re" where
  "Plus r = Seq r (Star r)"

definition LazyPlus :: "re \<Rightarrow> re" where
  "LazyPlus r = Seq r (LazyStar r)"

fun Lit :: "string \<Rightarrow> re" where
  "Lit [] = Eps"
| "Lit (c # cs) = Seq (Cls (\<lambda>x. x = c)) (Lit cs)"

text \<open>\<^verbatim>\<open>FindAllString(s, -1)\<close>, for an expression that does not match the empty string.\<close>

function find_all :: "re \<Rightarrow> string \<Rightarrow> string list" where
  "find_all r s =
     (case s of
        [] \<Rightarrow> []
      | c # cs \<Rightarrow>
          (case mt r s of
             [] \<Rightarrow> find_all r cs
           | rest # _ \<Rightarrow>
               if length rest < length s
               then take (length s - length rest) s # find_all r rest
               else find_all r cs))"
  by pat_completeness auto
termination
  by (relation "measure (length \<circ> snd)") auto

declare find_all.simps [simp del]

text \<open>\<^verbatim>\<open>FindString\<close> of an expression anchored at the start: the match, empty if there is none.\<close>

definition find_anchored :: "re \<Rightarrow> string \<Rightarrow> string" where
  "find_anchored r s = (case mt r s of [] \<Rightarrow> [] | rest # _ \<Rightarrow> take (length s - length rest) s)"

section \<open>What the matcher finds\<close>

text \<open>The matches of an expression, without regard to their order.\<close>

inductive matches :: "re \<Rightarrow> string \<Rightarrow> string \<Rightarrow> bool" where
  m_eps: "matches Eps s s"
| m_eol: "matches Eol [] []"
| m_cls: "P c \<Longrightarrow> matches (Cls P) (c # s) s"
| m_seq: "matches a s t \<Longrightarrow> matches b t u \<Longrightarrow> matches (Seq a b) s u"
| m_alt1: "matches a s t \<Longrightarrow> matches (Alt a b) s t"
| m_alt2: "matches b s t \<Longrightarrow> matches (Alt a b) s t"
| m_star0: "matches (Star a) s s"
| m_star1: "matches a s t \<Longrightarrow> length t < length s \<Longrightarrow> matches (Star a) t u \<Longrightarrow> matches (Star a) s u"
| m_lazy0: "matches (LazyStar a) s s"
| m_lazy1: "matches a s t \<Longrightarrow> length t < length s \<Longrightarrow> matches (LazyStar a) t u
      \<Longrightarrow> matches (LazyStar a) s u"

inductive_simps matches_simps [simp]:
  "matches Eps s t" "matches Eol s t" "matches (Cls P) s t" "matches (Seq a b) s t"
  "matches (Alt a b) s t"

inductive_cases matches_StarE: "matches (Star a) s t"
inductive_cases matches_LazyE: "matches (LazyStar a) s t"

lemma mt_matches: "t \<in> set (mt r s) \<longleftrightarrow> matches r s t"
proof (induction r s arbitrary: t rule: mt.induct)
  case (6 a s)
  show ?case
  proof
    assume "t \<in> set (mt (Star a) s)"
    then show "matches (Star a) s t" using 6
      by (auto simp: mt_Star [of a s] intro: matches.intros split: if_splits)
  next
    assume "matches (Star a) s t"
    then consider "s = t"
      | t' where "matches a s t'" "length t' < length s" "matches (Star a) t' t"
      by (rule matches_StarE) blast+
    then show "t \<in> set (mt (Star a) s)"
    proof cases
      assume "s = t"
      then show ?thesis by (subst mt_Star) simp
    next
      fix t'
      assume t': "matches a s t'" "length t' < length s" "matches (Star a) t' t"
      then have "t' \<in> set (mt a s)" "t \<in> set (mt (Star a) t')" using 6 by auto
      then show ?thesis using t'(2) by (auto simp: mt_Star [of a s])
    qed
  qed
next
  case (7 a s)
  show ?case
  proof
    assume "t \<in> set (mt (LazyStar a) s)"
    then show "matches (LazyStar a) s t" using 7
      by (auto simp: mt_LazyStar [of a s] intro: matches.intros split: if_splits)
  next
    assume "matches (LazyStar a) s t"
    then consider "s = t"
      | t' where "matches a s t'" "length t' < length s" "matches (LazyStar a) t' t"
      by (rule matches_LazyE) blast+
    then show "t \<in> set (mt (LazyStar a) s)"
    proof cases
      assume "s = t"
      then show ?thesis by (subst mt_LazyStar) simp
    next
      fix t'
      assume t': "matches a s t'" "length t' < length s" "matches (LazyStar a) t' t"
      then have "t' \<in> set (mt a s)" "t \<in> set (mt (LazyStar a) t')" using 7 by auto
      then show ?thesis using t'(2) by (auto simp: mt_LazyStar [of a s])
    qed
  qed
qed (auto split: list.splits)

lemma mt_Nil_iff: "mt r s = [] \<longleftrightarrow> (\<forall>t. \<not> matches r s t)"
  using mt_matches [of _ r s] by (metis empty_iff empty_set last_in_set)

lemma matches_Lit [simp]: "matches (Lit l) s t \<longleftrightarrow> s = l @ t"
  by (induction l arbitrary: s) auto

lemma matches_Star_Cls: "matches (Star (Cls P)) s t \<longleftrightarrow> (\<exists>u. s = u @ t \<and> list_all P u)"
proof
  assume "matches (Star (Cls P)) s t"
  then show "\<exists>u. s = u @ t \<and> list_all P u"
  proof (induction "Star (Cls P)" s t rule: matches.induct)
    case (m_star1 s t u)
    then obtain c v where "s = c # t" "P c" "t = v @ u" "list_all P v" by auto
    then have "s = (c # v) @ u \<and> list_all P (c # v)" by simp
    then show ?case by blast
  qed auto
next
  assume "\<exists>u. s = u @ t \<and> list_all P u"
  then obtain u where "s = u @ t" "list_all P u" by blast
  then show "matches (Star (Cls P)) s t"
  proof (induction u arbitrary: s)
    case Nil
    then show ?case by (simp add: matches.m_star0)
  next
    case (Cons c u)
    then have "matches (Star (Cls P)) (u @ t) t" by simp
    with Cons.prems show ?case by (auto intro: matches.m_star1 [of _ _ "u @ t"])
  qed
qed

lemma matches_Plus_Cls:
  "matches (Plus (Cls P)) s t \<longleftrightarrow> (\<exists>u. u \<noteq> [] \<and> s = u @ t \<and> list_all P u)"
proof
  assume "matches (Plus (Cls P)) s t"
  then obtain c r u where "s = c # r" "P c" "r = u @ t" "list_all P u"
    by (auto simp: Plus_def matches_Star_Cls)
  then show "\<exists>u. u \<noteq> [] \<and> s = u @ t \<and> list_all P u" by (intro exI [of _ "c # u"]) simp
next
  assume "\<exists>u. u \<noteq> [] \<and> s = u @ t \<and> list_all P u"
  then obtain v where "v \<noteq> []" "s = v @ t" "list_all P v" by blast
  then obtain c u where "s = c # u @ t" "P c" "list_all P u" by (cases v) auto
  then show "matches (Plus (Cls P)) s t" by (auto simp: Plus_def matches_Star_Cls)
qed

lemma find_all_Cons:
  "find_all r (c # cs) =
     (case mt r (c # cs) of
        [] \<Rightarrow> find_all r cs
      | rest # _ \<Rightarrow>
          if length rest < length (c # cs)
          then take (length (c # cs) - length rest) (c # cs) # find_all r rest
          else find_all r cs)"
  using find_all.simps [of r "c # cs"] by (simp only: list.case)

lemma find_all_skip:
  "mt r (c # cs) = [] \<Longrightarrow> find_all r (c # cs) = find_all r cs"
  by (simp add: find_all_Cons)

lemma find_all_Nil [simp]: "find_all r [] = []"
  by (simp add: find_all.simps)

lemma find_all_hit:
  assumes "\<And>t. matches r (m @ rest) t \<longleftrightarrow> t = rest" and "m \<noteq> []"
  shows "find_all r (m @ rest) = m # find_all r rest"
proof -
  have "set (mt r (m @ rest)) = {rest}" 
    unfolding set_eq_iff mt_matches assms(1) by simp
  then obtain ts where ts: "mt r (m @ rest) = rest # ts" by (cases "mt r (m @ rest)") auto
  obtain c cs where c: "m @ rest = c # cs" and len: "length rest < length (c # cs)"
    using assms(2) by (cases m) auto
  have "find_all r (c # cs) = take (length (c # cs) - length rest) (c # cs) # find_all r rest"
    using ts len by (simp add: find_all_Cons c)
  then show ?thesis unfolding c [symmetric] by simp
qed

section \<open>The match that is preferred\<close>

lemma mt_Lit: "mt (Lit l) s = (if prefix l s then [drop (length l) s] else [])"
  by (induction l arbitrary: s) (auto split: list.split)

lemma mt_Star_Cls_hd: "\<exists>ts. mt (Star (Cls P)) s = dropWhile P s # ts"
proof (induction s)
  case Nil
  show ?case by (simp add: mt_Star)
next
  case (Cons c s)
  then show ?case by (subst mt_Star) auto
qed

lemma mt_Plus_Cls_hd: "P c \<Longrightarrow> \<exists>ts. mt (Plus (Cls P)) (c # s) = dropWhile P s # ts"
  using mt_Star_Cls_hd [of P s] by (simp add: Plus_def)

text \<open>A lazy repetition stops at the first place where the text behind it matches.\<close>

lemma mt_lazy_first:
  assumes "list_all P u" and "\<And>a b. u = a @ b \<Longrightarrow> b \<noteq> [] \<Longrightarrow> \<not> prefix l (b @ l @ t)"
  shows "\<exists>ts. concat (map (mt (Lit l)) (mt (LazyStar (Cls P)) (u @ l @ t))) = t # ts"
  using assms
proof (induction u)
  case Nil
  then show ?case by (simp add: mt_LazyStar [of _ "l @ t"] mt_Lit)
next
  case (Cons c u)
  have "\<not> prefix l ((c # u) @ l @ t)" using Cons.prems(2) [of "[]" "c # u"] by simp
  moreover have "\<not> prefix l (b @ l @ t)" if "u = a @ b" "b \<noteq> []" for a b
    using Cons.prems(2) [of "c # a" b] that by simp
  ultimately show ?case
    using Cons by (simp add: mt_LazyStar [of _ "c # u @ l @ t"] mt_Lit)
qed

lemma find_all_first:
  assumes "mt r (m @ rest) = rest # ts" and "m \<noteq> []"
  shows "find_all r (m @ rest) = m # find_all r rest"
  using assms by (cases m) (simp_all add: find_all_Cons)

end
