(* ===== verification/ConfigSchema.thy ===== *)
theory ConfigSchema
  imports ConfigTypes GoRegexp Util
begin

text \<open>
  \<^verbatim>\<open>configschema/configschema.go\<close>: the schema files of the projects (templates of
  configuration files) and the configuration items they refer to.  A reference is a
  placeholder \<^verbatim>\<open>"#{name}"\<close>, quotation marks included.
\<close>

definition SCHEMAFILE_SUFFIX :: string where "SCHEMAFILE_SUFFIX = ''.schema.php''"
definition TOML_SUFFIX :: string where "TOML_SUFFIX = ''.schema.toml''"

record SchemaFile =
  sf_Md5 :: string
  sf_Path :: string

definition IsSchemaFile :: "string \<Rightarrow> bool" where
  "IsSchemaFile filename =
     (if HasSuffix filename SCHEMAFILE_SUFFIX \<or> HasSuffix filename TOML_SUFFIX then True else False)"

section \<open>Listing the schema files\<close>

text \<open>\<open>md5\<close> is \<^verbatim>\<open>crypto/md5\<close> printed in hexadecimal.\<close>

definition Md5File :: "(bytes \<Rightarrow> string) \<Rightarrow> fs \<Rightarrow> string \<Rightarrow> string res" where
  "Md5File md5 f filePath = res_bind (fs_file f filePath) (\<lambda>b. Ok (md5 b))"

abbreviation pathSep :: string where
  "pathSep \<equiv> ''/''"

definition schema_entry :: "(bytes \<Rightarrow> string) \<Rightarrow> fs \<Rightarrow> string \<Rightarrow> string \<Rightarrow> SchemaFile" where
  "schema_entry md5 f dir name =
     (let filePath = TrimRight dir pathSep @ pathSep @ name
      in \<lparr>sf_Md5 = (case Md5File md5 f filePath of Ok m \<Rightarrow> m | _ \<Rightarrow> ''error_of_md5sum''),
          sf_Path = filePath\<rparr>)"

definition GetSchemaFilesByDir :: "(bytes \<Rightarrow> string) \<Rightarrow> fs \<Rightarrow> string \<Rightarrow> SchemaFile list" where
  "GetSchemaFilesByDir md5 f dir =
     (case fs_dir f dir of
        Ok dFiles \<Rightarrow>
          map (\<lambda>e. schema_entry md5 f dir (fst e))
            (filter (\<lambda>e. \<not> snd e \<and>
               (HasSuffix (fst e) ''.schema.php'' \<or> HasSuffix (fst e) ''.schema.toml'')) dFiles)
      | _ \<Rightarrow> [])"

definition LoadSchemaFiles :: "(bytes \<Rightarrow> string) \<Rightarrow> fs \<Rightarrow> Config \<Rightarrow> SchemaFile list" where
  "LoadSchemaFiles md5 f cfg = concat (map (GetSchemaFilesByDir md5 f) (CONFIG_DIR cfg))"

section \<open>The items of a schema file\<close>

definition word_char :: "char \<Rightarrow> bool" where
  "word_char c \<longleftrightarrow> (let n = of_char c :: nat in
     (48 \<le> n \<and> n \<le> 57) \<or> (65 \<le> n \<and> n \<le> 90) \<or> (97 \<le> n \<and> n \<le> 122) \<or> n = 95)"

definition name_char :: "char \<Rightarrow> bool" where
  "name_char c \<longleftrightarrow> word_char c \<or> c = CHR ''-'' \<or> c = CHR ''.''"

abbreviation open_mark :: string where
  "open_mark \<equiv> [CHR 0x22, CHR ''#'', CHR 0x7B]"

abbreviation close_mark :: string where
  "close_mark \<equiv> [CHR 0x7D, CHR 0x22]"

text \<open>The expression \<^verbatim>\<open>"#\{(\w+|\w+[\-\d\w\.]*[\w\d])\}"\<close>.\<close>

definition placeholder_re :: re where
  "placeholder_re =
     Seq (Lit open_mark)
       (Seq (Alt (Plus (Cls word_char))
                 (Seq (Plus (Cls word_char))
                    (Seq (Star (Cls name_char)) (Cls word_char))))
            (Lit close_mark))"

definition ParseItemPlaceholders :: "fs \<Rightarrow> string \<Rightarrow> string list res" where
  "ParseItemPlaceholders f filePath =
     res_bind (fs_file f filePath) (\<lambda>b. Ok (find_all placeholder_re b))"

definition strip_marks :: "string \<Rightarrow> string" where
  "strip_marks item = Trim item [CHR 0x22, CHR ''#'', CHR 0x7B, CHR 0x7D]"

definition ParseItems :: "fs \<Rightarrow> string \<Rightarrow> string list res" where
  "ParseItems f filePath =
     res_bind (ParseItemPlaceholders f filePath) (\<lambda>items.
       Ok (foldl add_unique [] (map strip_marks items)))"

definition GetAllSchemaItems :: "(bytes \<Rightarrow> string) \<Rightarrow> fs \<Rightarrow> Config \<Rightarrow> string list" where
  "GetAllSchemaItems md5 f cfg =
     concat (map (\<lambda>sf. case ParseItemPlaceholders f (sf_Path sf) of Ok is \<Rightarrow> is | _ \<Rightarrow> [])
              (LoadSchemaFiles md5 f cfg))"

text \<open>The root node of an item: the part before the first dot.\<close>

definition root_of :: "string \<Rightarrow> string" where
  "root_of name = hd (Split name ''.'')"

definition GetAllSchemaItemRootNodes :: "(bytes \<Rightarrow> string) \<Rightarrow> fs \<Rightarrow> Config \<Rightarrow> string list" where
  "GetAllSchemaItemRootNodes md5 f cfg =
     foldl add_unique [] (map (\<lambda>item. root_of (strip_marks item)) (GetAllSchemaItems md5 f cfg))"

definition GetCompilationCaution :: "bool \<Rightarrow> bytes" where
  "GetCompilationCaution withTag =
     (let nl = [CHR 0x0A];
          caution = nl @ ''/**'' @ nl
            @ '' * This file is generated automatically by ConfigurationSystem.'' @ nl
            @ '' * Do not change it manually in production, unless you know what you're doing and can take responsibilities for the consequences of changes you make.'' @ nl
            @ '' */'' @ nl
      in if withTag then ''<?php '' @ caution @ ''?>'' @ nl else caution)"

section \<open>What the expression matches\<close>

definition item_name :: "string \<Rightarrow> bool" where
  "item_name n \<longleftrightarrow> n \<noteq> [] \<and> list_all name_char n \<and> word_char (hd n) \<and> word_char (last n)"

definition placeholder :: "string \<Rightarrow> string" where
  "placeholder n = open_mark @ n @ close_mark"

lemma word_name: "word_char c \<Longrightarrow> name_char c"
  by (simp add: name_char_def)

lemma list_all_word_name: "list_all word_char u \<Longrightarrow> list_all name_char u"
  by (auto simp: list_all_iff word_name)

lemma item_body:
  "matches (Alt (Plus (Cls word_char))
       (Seq (Plus (Cls word_char)) (Seq (Star (Cls name_char)) (Cls word_char)))) s t
   \<longleftrightarrow> (\<exists>n. s = n @ t \<and> item_name n)" (is "?L \<longleftrightarrow> ?R")
proof
  assume ?L
  then consider u where "u \<noteq> []" "s = u @ t" "list_all word_char u"
    | u v c where "u \<noteq> []" "s = u @ v @ c # t" "list_all word_char u" "list_all name_char v"
        "word_char c"
    by (auto simp: matches_Plus_Cls matches_Star_Cls)
  then show ?R
  proof cases
    case 1
    then have "item_name u"
      by (auto simp: item_name_def list_all_iff word_name)
    with 1 show ?thesis by blast
  next
    case 2
    then have "item_name (u @ v @ [c])"
      by (cases u) (auto simp: item_name_def list_all_word_name word_name)
    with 2 show ?thesis by (metis append.assoc append_Cons append_Nil)
  qed
next
  assume ?R
  then obtain n where n: "s = n @ t" "item_name n" by blast
  show ?L
  proof (cases "length n = 1")
    case True
    then obtain c where "n = [c]" by (auto simp: length_Suc_conv)
    with n show ?thesis
      by (auto simp: item_name_def matches_Plus_Cls intro!: exI [of _ "[c]"])
  next
    case False
    with n(2) obtain a v c where nv: "n = a # v @ [c]"
      by (cases n; cases "tl n" rule: rev_cases) (auto simp: item_name_def)
    then have "list_all word_char [a]" "list_all name_char v" "word_char c"
      using n(2) by (auto simp: item_name_def)
    then have w: "list_all word_char [a]" and v: "list_all name_char v" and c: "word_char c"
      by simp_all
    have "matches (Plus (Cls word_char)) s (v @ c # t)"
      unfolding matches_Plus_Cls using w nv n(1) by (intro exI [of _ "[a]"]) simp
    moreover have "matches (Seq (Star (Cls name_char)) (Cls word_char)) (v @ c # t) t"
    proof (rule matches.m_seq)
      show "matches (Star (Cls name_char)) (v @ c # t) (c # t)"
        unfolding matches_Star_Cls using v by blast
      show "matches (Cls word_char) (c # t) t"
        using c by (rule matches.m_cls)
    qed
    ultimately show ?thesis by (intro matches.m_alt2) (rule matches.m_seq)
  qed
qed

lemma matches_placeholder:
  "matches placeholder_re s t \<longleftrightarrow> (\<exists>n. s = placeholder n @ t \<and> item_name n)"
proof -
  have "matches placeholder_re s t \<longleftrightarrow>
      (\<exists>r. s = open_mark @ r \<and> (\<exists>n. r = n @ close_mark @ t \<and> item_name n))"
    by (simp only: placeholder_re_def matches_simps(4) item_body matches_Lit) fast
  then show ?thesis by (simp only: placeholder_def append_assoc) fast
qed

section \<open>Reading a schema text\<close>

text \<open>
  A schema text is text without a number sign, and placeholders.  \<open>render\<close> writes such a
  text from its parts.
\<close>

fun render :: "(string \<times> string) list \<Rightarrow> string \<Rightarrow> string" where
  "render [] t = t"
| "render ((seg, n) # ps) t = seg @ placeholder n @ render ps t"

lemma close_mark_unique:
  assumes "n @ close_mark @ rest = n' @ close_mark @ rest'"
    and "item_name n" and "item_name n'"
  shows "n = n' \<and> rest = rest'"
proof -
  have no: "CHR 0x7D \<notin> set m" if "item_name m" for m
    using that by (auto simp: item_name_def list_all_iff name_char_def word_char_def)
  have "takeWhile (\<lambda>c. c \<noteq> CHR 0x7D) (m @ close_mark @ r) = m" if "item_name m" for m r
    using no [OF that] by (subst takeWhile_append2) auto
  then have "n = n'" using assms by metis
  with assms(1) show ?thesis by simp
qed

lemma matches_placeholder_exact:
  assumes "item_name n"
  shows "matches placeholder_re (placeholder n @ rest) t \<longleftrightarrow> t = rest"
proof
  assume "matches placeholder_re (placeholder n @ rest) t"
  then obtain n' where "placeholder n @ rest = placeholder n' @ t" "item_name n'"
    unfolding matches_placeholder by blast
  then have "n @ close_mark @ rest = n' @ close_mark @ t"
    by (simp add: placeholder_def)
  from close_mark_unique [OF this assms \<open>item_name n'\<close>] show "t = rest" by simp
next
  assume "t = rest"
  then show "matches placeholder_re (placeholder n @ rest) t"
    unfolding matches_placeholder using assms by blast
qed

lemma placeholder_not_Nil: "placeholder n \<noteq> []"
  by (simp add: placeholder_def)

lemma hd_placeholder: "hd (placeholder n @ rest) = CHR 0x22"
  by (simp add: placeholder_def)

lemma find_all_placeholder:
  "item_name n \<Longrightarrow> find_all placeholder_re (placeholder n @ rest)
     = placeholder n # find_all placeholder_re rest"
  by (rule find_all_hit) (simp_all add: matches_placeholder_exact placeholder_not_Nil)

lemma no_match_here: "\<not> prefix open_mark s \<Longrightarrow> mt placeholder_re s = []"
  by (auto simp: mt_Nil_iff matches_placeholder placeholder_def)

lemma find_all_segment:
  assumes "CHR ''#'' \<notin> set seg" and "rest = [] \<or> hd rest \<noteq> CHR ''#''"
  shows "find_all placeholder_re (seg @ rest) = find_all placeholder_re rest"
  using assms(1)
proof (induction seg)
  case Nil
  then show ?case by simp
next
  case (Cons c seg)
  have "\<not> prefix open_mark (c # seg @ rest)"
    using Cons.prems assms(2) by (cases seg; cases rest) auto
  then show ?case using Cons by (simp add: find_all_skip no_match_here)
qed

lemma find_all_render:
  assumes "\<forall>(seg, n) \<in> set ps. CHR ''#'' \<notin> set seg \<and> item_name n" and "CHR ''#'' \<notin> set t"
  shows "find_all placeholder_re (render ps t) = map (\<lambda>(seg, n). placeholder n) ps"
  using assms(1)
proof (induction ps)
  case Nil
  then show ?case using find_all_segment [of t "[]"] assms(2) by simp
next
  case (Cons p ps)
  obtain seg n where p: "p = (seg, n)" by (cases p)
  with Cons.prems have seg: "CHR ''#'' \<notin> set seg" and n: "item_name n" by auto
  have "find_all placeholder_re (seg @ placeholder n @ render ps t)
      = find_all placeholder_re (placeholder n @ render ps t)"
    using seg by (rule find_all_segment) (simp add: hd_placeholder)
  with Cons show ?case by (simp add: p find_all_placeholder [OF n])
qed

lemma strip_marks_placeholder: "item_name n \<Longrightarrow> strip_marks (placeholder n) = n"
proof -
  assume n: "item_name n"
  then have "hd n \<notin> {CHR 0x22, CHR ''#'', CHR 0x7B, CHR 0x7D}"
    "last n \<notin> {CHR 0x22, CHR ''#'', CHR 0x7B, CHR 0x7D}" "n \<noteq> []"
    by (auto simp: item_name_def word_char_def)
  then show ?thesis unfolding strip_marks_def placeholder_def by (intro Trim_between) auto
qed

lemma map_strip_placeholders:
  assumes "\<forall>(seg, n) \<in> set ps. CHR ''#'' \<notin> set seg \<and> item_name n"
  shows "map strip_marks (map (\<lambda>(seg, n). placeholder n) ps) = map snd ps"
  using assms by (auto simp: strip_marks_placeholder)

lemma ParseItems_schema:
  assumes "\<forall>(seg, n) \<in> set ps. CHR ''#'' \<notin> set seg \<and> item_name n" and "CHR ''#'' \<notin> set t"
    and "fs_file f path = Ok (render ps t)"
  shows "ParseItems f path = Ok (StringSliceUnique (map snd ps))"
  unfolding ParseItems_def ParseItemPlaceholders_def StringSliceUnique_def assms(3)
  by (simp only: find_all_render [OF assms(1,2)] map_strip_placeholders [OF assms(1)] res_bind_simps)

text \<open>C19: \<^verbatim>\<open>ParseItems\<close> of a schema text returns the names of its placeholders, each once, in the
  order in which they first occur.\<close>

theorem ParseItems_render:
  assumes "\<forall>(seg, n) \<in> set ps. CHR ''#'' \<notin> set seg \<and> item_name n" and "CHR ''#'' \<notin> set t"
    and "fs_file f path = Ok (render ps t)"
  shows "\<exists>items. ParseItems f path = Ok items \<and> items = StringSliceUnique (map snd ps)
    \<and> distinct items \<and> set items = snd ` set ps"
  using ParseItems_schema [OF assms] by simp

definition demo_fs :: fs where
  "demo_fs = \<lparr>fs_dir = (\<lambda>_. Err (ErrText ''no such directory'')),
     fs_file = (\<lambda>p. if p = ''/p/db.schema.php''
       then Ok (render [(''host='', ''Pay.Db.host''), ('', port='', ''Pay.Db.port''),
                        ('', again='', ''Pay.Db.host'')] '';'')
       else Err (ErrText ''no such file''))\<rparr>"

theorem ParseItems_render_witness:
  "ParseItems demo_fs ''/p/db.schema.php'' = Ok [''Pay.Db.host'', ''Pay.Db.port'']"
proof -
  let ?ps = "[(''host='', ''Pay.Db.host''), ('', port='', ''Pay.Db.port''),
              ('', again='', ''Pay.Db.host'')]"
  have "\<forall>(seg, n) \<in> set ?ps. CHR ''#'' \<notin> set seg \<and> item_name n" by code_simp
  then have "ParseItems demo_fs ''/p/db.schema.php'' = Ok (StringSliceUnique (map snd ?ps))"
    using ParseItems_render [where t = "'';''" and ps = ?ps and f = demo_fs and path = "''/p/db.schema.php''"]
    by (simp add: demo_fs_def)
  moreover have "StringSliceUnique (map snd ?ps) = [''Pay.Db.host'', ''Pay.Db.port'']" by code_simp
  ultimately show ?thesis by simp
qed

end
