(* ===== verification/Registry.thy ===== *)
theory Registry
  imports ProjConfig ConfigSchema
begin

text \<open>
  \<^verbatim>\<open>configwatcher/zk_watcher.go\<close> and \<^verbatim>\<open>gc_watcher.go\<close>: the configurations that applications asked
  for through the API (\<open>registeredNodes\<close>) and the root nodes that are watched on the server
  (\<open>watchList\<close>).  A goroutine \<^verbatim>\<open>watchItem\<close> that was started and has not yet entered itself into the
  watch list is an element of \<open>launched\<close>; \<open>Chan\<close> identifies the channel of a watcher.
\<close>

record registeredNodeInfo =
  ni_Name :: string
  LastAccessTime :: int
  RegTime :: int

record WatchInfo =
  wi_Name :: string
  wi_RegTime :: int
  State :: int
  Chan :: nat

record registry =
  registeredNodes :: "(string, registeredNodeInfo) gomap"
  watchList :: "(string, WatchInfo) gomap"
  launched :: "string list"

definition KEY_NAME_OF_STORE_DYNAMIC_REG_CONF_NODES :: string where
  "KEY_NAME_OF_STORE_DYNAMIC_REG_CONF_NODES = '':dynamically_registered_config_nodes''"

definition getRegisteredNodeInfo :: "string \<Rightarrow> registry \<Rightarrow> registeredNodeInfo option" where
  "getRegisteredNodeInfo name r = mget (registeredNodes r) name"

definition setRegisterdNodeInfo :: "string \<Rightarrow> registeredNodeInfo \<Rightarrow> registry \<Rightarrow> registry" where
  "setRegisterdNodeInfo name info r = r\<lparr>registeredNodes := mset (registeredNodes r) name info\<rparr>"

definition deleteRegisteredNodeInfo :: "string \<Rightarrow> registry \<Rightarrow> registry" where
  "deleteRegisteredNodeInfo name r = r\<lparr>registeredNodes := mdel (registeredNodes r) name\<rparr>"

definition getWatchNodeFromWatchList :: "string \<Rightarrow> registry \<Rightarrow> WatchInfo option" where
  "getWatchNodeFromWatchList name r = mget (watchList r) name"

definition watching :: "string \<Rightarrow> registry \<Rightarrow> bool" where
  "watching name r = (case getWatchNodeFromWatchList name r of Some info \<Rightarrow> State info = 1 | None \<Rightarrow> False)"

definition AddToWatchList :: "string \<Rightarrow> registry \<Rightarrow> bool \<times> registry" where
  "AddToWatchList name r =
     (if watching name r then (True, r) else (False, r\<lparr>launched := launched r @ [name]\<rparr>))"

section \<open>The registered nodes on disk\<close>

definition info_json :: "registeredNodeInfo \<Rightarrow> json" where
  "info_json i = JStruct [(''Name'', JStr (ni_Name i)), (''LastAccessTime'', JInt (LastAccessTime i)),
     (''RegTime'', JInt (RegTime i))]"

definition nodes_json :: "registry \<Rightarrow> json" where
  "nodes_json r = JObj (map (map_prod id info_json) (registeredNodes r))"

text \<open>
  The error of writing is stored in a variable of the inner block: the function answers
  \<open>True\<close> whenever the database could be opened.
\<close>

definition SaveRegisteredNodesToDisk ::
    "('d, 'e, 'o) env \<Rightarrow> registry \<Rightarrow> ('d, 'e) client \<Rightarrow> bool res \<times> ('d, 'e) client" where
  "SaveRegisteredNodesToDisk E r s =
     (case getLocalStorage E s of
        (Ok _, s1) \<Rightarrow>
          (case Conn_Put (engine E) (reopen_db E) KEY_NAME_OF_STORE_DYNAMIC_REG_CONF_NODES
                  (marshal (\<lambda>_. []) (nodes_json r)) (disk s1) of
             (Panic m, d) \<Rightarrow> (Panic m, s1\<lparr>disk := d\<rparr>)
           | (_, d) \<Rightarrow> (Ok True, s1\<lparr>disk := d\<rparr>))
      | (Err e, s1) \<Rightarrow> (Ok False, s1)
      | (Panic m, s1) \<Rightarrow> (Panic m, s1))"

text \<open>The numbers of the saved nodes are seconds, below the \<open>2 ^ 53\<close> up to which \<^verbatim>\<open>float64\<close> is exact.\<close>

definition node_of_json :: "json \<Rightarrow> registeredNodeInfo res" where
  "node_of_json j =
     (case j of
        JObj info \<Rightarrow>
          (case mget info ''Name'' of
             Some (JStr n) \<Rightarrow>
               res_bind (as_float (mget info ''LastAccessTime'')) (\<lambda>t.
                 Ok \<lparr>ni_Name = n, LastAccessTime = trunc t, RegTime = trunc t\<rparr>)
           | _ \<Rightarrow> Panic ''interface conversion: not string'')
      | _ \<Rightarrow> Panic ''interface conversion: not map[string]interface {}'')"

definition load_node :: "registry res \<Rightarrow> string \<times> json \<Rightarrow> registry res" where
  "load_node acc nj =
     res_bind acc (\<lambda>r. res_bind (node_of_json (snd nj)) (\<lambda>node.
       let node' = (case getRegisteredNodeInfo (fst nj) r of
                      Some oNode \<Rightarrow>
                        if LastAccessTime oNode > LastAccessTime node
                        then node\<lparr>LastAccessTime := LastAccessTime oNode\<rparr> else node
                    | None \<Rightarrow> node)
       in Ok (snd (AddToWatchList (root_of (fst nj)) (setRegisterdNodeInfo (fst nj) node' r)))))"

definition LoadRegisteredNodesFromDisk ::
    "('d, 'e, 'o) env \<Rightarrow> registry \<Rightarrow> ('d, 'e) client \<Rightarrow> (bool \<times> registry) res \<times> ('d, 'e) client" where
  "LoadRegisteredNodesFromDisk E r s =
     (case getLocalStorage E s of
        (Ok _, s1) \<Rightarrow>
          (case Conn_Get (engine E) (reopen_db E) KEY_NAME_OF_STORE_DYNAMIC_REG_CONF_NODES (disk s1) of
             (res, d) \<Rightarrow>
               ((case res of
                   Ok nodesB \<Rightarrow>
                     (case UnmarshalMap nodesB of
                        Ok nodes \<Rightarrow> res_bind (foldl load_node (Ok r) nodes) (\<lambda>r'. Ok (True, r'))
                      | Err _ \<Rightarrow> Ok (False, r)
                      | Panic m \<Rightarrow> Panic m)
                 | Err _ \<Rightarrow> Ok (False, r)
                 | Panic m \<Rightarrow> Panic m),
                s1\<lparr>disk := d\<rparr>))
      | (Err e, s1) \<Rightarrow> (Ok (False, r), s1)
      | (Panic m, s1) \<Rightarrow> (Panic m, s1))"

section \<open>Access through the API\<close>

text \<open>\<open>treg\<close> and \<open>tacc\<close> are the two readings of the clock.\<close>

definition TouchDynamicNode ::
    "('d, 'e, 'o) env \<Rightarrow> int \<Rightarrow> int \<Rightarrow> string \<Rightarrow> registry \<Rightarrow> ('d, 'e) client
     \<Rightarrow> bool \<times> registry \<times> ('d, 'e) client" where
  "TouchDynamicNode E treg tacc name r s =
     (if RunAsBi (cfg E) then (True, r, s)
      else case getRegisteredNodeInfo name r of
             None \<Rightarrow>
               (let r1 = setRegisterdNodeInfo name \<lparr>ni_Name = name, LastAccessTime = tacc, RegTime = treg\<rparr> r;
                    hasBeenWatching = watching name r1;
                    r2 = snd (AddToWatchList (root_of name) r1)
                in (hasBeenWatching, r2, snd (SaveRegisteredNodesToDisk E r2 s)))
           | Some temp \<Rightarrow>
               (True, setRegisterdNodeInfo name (temp\<lparr>LastAccessTime := tacc\<rparr>) r, s))"

section \<open>Collecting watchers that are no longer needed\<close>

definition THRESHOLD_GC_ITEM :: int where "THRESHOLD_GC_ITEM = 600"
definition GC_UNNEEDED_NODE_WATCHER_INTERVAL :: int where "GC_UNNEEDED_NODE_WATCHER_INTERVAL = 610"

definition last_access :: "(string, int) gomap \<Rightarrow> registeredNodeInfo \<Rightarrow> (string, int) gomap" where
  "last_access m info =
     (let dRoot = root_of (ni_Name info) in
      case mget m dRoot of
        Some t \<Rightarrow> if LastAccessTime info > t then mset m dRoot (LastAccessTime info) else m
      | None \<Rightarrow> mset m dRoot (LastAccessTime info))"

definition rootsLastAccessTime :: "registry \<Rightarrow> (string, int) gomap" where
  "rootsLastAccessTime r = foldl last_access [] (map snd (registeredNodes r))"

definition expired_roots :: "string list \<Rightarrow> int \<Rightarrow> registry \<Rightarrow> string list" where
  "expired_roots schemaConfigItems t r =
     map fst (filter (\<lambda>(dRoot, lTime). watching dRoot r \<and> t - lTime \<ge> THRESHOLD_GC_ITEM
                        \<and> \<not> InArrayString schemaConfigItems dRoot) (rootsLastAccessTime r))"

definition nodesToBeKickedFromWatches :: "string list \<Rightarrow> int \<Rightarrow> registry \<Rightarrow> string list" where
  "nodesToBeKickedFromWatches schemaConfigItems t r =
     foldl (\<lambda>kicked dRoot.
        if watching dRoot r \<and> mget (rootsLastAccessTime r) dRoot = None
           \<and> \<not> InArrayString kicked dRoot \<and> \<not> InArrayString schemaConfigItems dRoot
        then kicked @ [dRoot] else kicked)
       (expired_roots schemaConfigItems t r) (map fst (watchList r))"

section \<open>What is collected\<close>

definition of_root :: "string \<Rightarrow> registry \<Rightarrow> registeredNodeInfo set" where
  "of_root rt r = {info \<in> snd ` set (registeredNodes r). root_of (ni_Name info) = rt}"

lemma foldl_last_access:
  assumes "wf_map m"
  shows "wf_map (foldl last_access m infos)
    \<and> (mget (foldl last_access m infos) rt = None \<longleftrightarrow>
         mget m rt = None \<and> (\<forall>i \<in> set infos. root_of (ni_Name i) \<noteq> rt))
    \<and> (\<forall>l. mget (foldl last_access m infos) rt = Some l \<longrightarrow>
         (mget m rt = Some l \<or> (\<exists>i \<in> set infos. root_of (ni_Name i) = rt \<and> LastAccessTime i = l))
         \<and> (\<forall>l'. mget m rt = Some l' \<longrightarrow> l' \<le> l)
         \<and> (\<forall>i \<in> set infos. root_of (ni_Name i) = rt \<longrightarrow> LastAccessTime i \<le> l))"
  using assms
proof (induction infos arbitrary: m)
  case (Cons i infos)
  have wf: "wf_map (last_access m i)"
    using Cons.prems by (simp add: last_access_def Let_def split: option.split)
  have step: "mget (last_access m i) rt =
      (if root_of (ni_Name i) = rt
       then Some (case mget m rt of None \<Rightarrow> LastAccessTime i | Some t \<Rightarrow> max t (LastAccessTime i))
       else mget m rt)"
    by (auto simp: last_access_def Let_def max_def split: option.split)
  show ?case
  proof (cases "root_of (ni_Name i) = rt")
    case False
    with Cons.IH [OF wf] step show ?thesis by auto
  next
    case True
    show ?thesis
    proof (cases "mget m rt")
      case None
      with True Cons.IH [OF wf] step show ?thesis by auto
    next
      case (Some t)
      with True Cons.IH [OF wf] step show ?thesis by (fastforce simp: max_def split: if_splits)
    qed
  qed
qed auto

lemma rootsLastAccessTime_spec:
  "wf_map (rootsLastAccessTime r)"
  "mget (rootsLastAccessTime r) rt = None \<longleftrightarrow> of_root rt r = {}"
  "mget (rootsLastAccessTime r) rt = Some l \<Longrightarrow>
     (t - l \<ge> THRESHOLD_GC_ITEM) \<longleftrightarrow> (\<forall>i \<in> of_root rt r. t - LastAccessTime i \<ge> THRESHOLD_GC_ITEM)"
proof -
  note f = foldl_last_access [of "[]" "map snd (registeredNodes r)" rt]
  show "wf_map (rootsLastAccessTime r)" "mget (rootsLastAccessTime r) rt = None \<longleftrightarrow> of_root rt r = {}"
    using f by (auto simp: rootsLastAccessTime_def of_root_def)
  assume "mget (rootsLastAccessTime r) rt = Some l"
  with f have "\<exists>i \<in> of_root rt r. LastAccessTime i = l" "\<forall>i \<in> of_root rt r. LastAccessTime i \<le> l"
    by (auto simp: rootsLastAccessTime_def of_root_def)
  then show "(t - l \<ge> THRESHOLD_GC_ITEM) \<longleftrightarrow> (\<forall>i \<in> of_root rt r. t - LastAccessTime i \<ge> THRESHOLD_GC_ITEM)"
    by fastforce
qed

lemma expired_roots_iff:
  "rt \<in> set (expired_roots items t r) \<longleftrightarrow>
     watching rt r \<and> rt \<notin> set items \<and> of_root rt r \<noteq> {}
     \<and> (\<forall>i \<in> of_root rt r. t - LastAccessTime i \<ge> THRESHOLD_GC_ITEM)"
proof -
  have "rt \<in> set (expired_roots items t r) \<longleftrightarrow>
      (\<exists>l. mget (rootsLastAccessTime r) rt = Some l \<and> watching rt r \<and> t - l \<ge> THRESHOLD_GC_ITEM
           \<and> rt \<notin> set items)"
    using mget_in_set [OF rootsLastAccessTime_spec(1)] by (force simp: expired_roots_def)
  then show ?thesis
    using rootsLastAccessTime_spec(2,3) by (metis not_None_eq)
qed

lemma kicked_fold:
  assumes "distinct acc"
  shows "set (foldl (\<lambda>kicked x. if P x \<and> \<not> InArrayString kicked x then kicked @ [x] else kicked) acc xs)
      = set acc \<union> {x \<in> set xs. P x}
    \<and> distinct (foldl (\<lambda>kicked x. if P x \<and> \<not> InArrayString kicked x then kicked @ [x] else kicked) acc xs)"
  using assms
proof (induction xs arbitrary: acc)
  case (Cons x xs)
  then show ?case by (cases "P x \<and> x \<notin> set acc") auto
qed simp

text \<open>C27: a round of the collector stops watching exactly those watched root nodes that no schema file
  mentions and of which no registered configuration was accessed during the last 600 seconds
  (a root without registered configurations included), each once.\<close>

theorem gc_kicks_exactly:
  "(rt \<in> set (nodesToBeKickedFromWatches items t r) \<longleftrightarrow>
      watching rt r \<and> rt \<notin> set items
      \<and> (\<forall>i \<in> of_root rt r. t - LastAccessTime i \<ge> 600))
   \<and> distinct (nodesToBeKickedFromWatches items t r)"
proof -
  let ?P = "\<lambda>x. watching x r \<and> mget (rootsLastAccessTime r) x = None \<and> \<not> InArrayString items x"
  have fold: "nodesToBeKickedFromWatches items t r =
      foldl (\<lambda>kicked x. if ?P x \<and> \<not> InArrayString kicked x then kicked @ [x] else kicked)
        (expired_roots items t r) (map fst (watchList r))"
    unfolding nodesToBeKickedFromWatches_def by (rule foldl_cong) (auto simp del: InArrayString_iff)
  have "distinct (map fst (rootsLastAccessTime r))"
    using rootsLastAccessTime_spec(1) by (simp add: wf_map_def)
  then have "distinct (expired_roots items t r)"
    unfolding expired_roots_def by (simp add: distinct_map_filter)
  note k = kicked_fold [OF this, where P = ?P and xs = "map fst (watchList r)"]
  have listed: "rt \<in> fst ` set (watchList r)" if "watching rt r"
    using that map_of_eq_None_iff [of "watchList r" rt]
    by (auto simp: watching_def getWatchNodeFromWatchList_def split: option.splits)
  have "rt \<in> set (nodesToBeKickedFromWatches items t r) \<longleftrightarrow>
      rt \<in> set (expired_roots items t r) \<or> ?P rt \<and> rt \<in> fst ` set (watchList r)"
    using k unfolding fold by auto
  also have "\<dots> \<longleftrightarrow> watching rt r \<and> rt \<notin> set items
      \<and> (\<forall>i \<in> of_root rt r. t - LastAccessTime i \<ge> 600)"
    using listed rootsLastAccessTime_spec(2) [of r rt]
    by (auto simp: expired_roots_iff THRESHOLD_GC_ITEM_def)
  finally show ?thesis using k unfolding fold by blast
qed

definition demo_registry :: registry where
  "demo_registry =
     \<lparr>registeredNodes = [(''Pay.a'', \<lparr>ni_Name = ''Pay.a'', LastAccessTime = 100, RegTime = 50\<rparr>),
                         (''Ship.b'', \<lparr>ni_Name = ''Ship.b'', LastAccessTime = 900, RegTime = 60\<rparr>)],
      watchList = [(''Pay'', \<lparr>wi_Name = ''Pay'', wi_RegTime = 50, State = 1, Chan = 0\<rparr>),
                   (''Ship'', \<lparr>wi_Name = ''Ship'', wi_RegTime = 60, State = 1, Chan = 1\<rparr>)],
      launched = []\<rparr>"

theorem gc_kicks_exactly_witness:
  "''Pay'' \<in> set (nodesToBeKickedFromWatches [''Db''] 1000 demo_registry)
   \<and> ''Ship'' \<notin> set (nodesToBeKickedFromWatches [''Db''] 1000 demo_registry)"
proof -
  have roots: "root_of ''Pay.a'' = ''Pay''" "root_of ''Ship.b'' = ''Ship''" by code_simp+
  have w: "watching ''Pay'' demo_registry" by code_simp
  have "\<forall>i \<in> of_root ''Pay'' demo_registry. 1000 - LastAccessTime i \<ge> 600"
    by (auto simp: of_root_def demo_registry_def roots)
  then have "''Pay'' \<in> set (nodesToBeKickedFromWatches [''Db''] 1000 demo_registry)"
    using gc_kicks_exactly [of "''Pay''" "[''Db'']" 1000 demo_registry] w by simp
  moreover have "\<lparr>ni_Name = ''Ship.b'', LastAccessTime = 900, RegTime = 60\<rparr> \<in> of_root ''Ship'' demo_registry"
    by (simp add: of_root_def demo_registry_def roots)
  then have "''Ship'' \<notin> set (nodesToBeKickedFromWatches [''Db''] 1000 demo_registry)"
    using gc_kicks_exactly [of "''Ship''" "[''Db'']" 1000 demo_registry] by force
  ultimately show ?thesis by blast
qed

section \<open>The registered nodes survive a restart\<close>

lemma trunc_of_int [simp]: "trunc (of_int i) = i"
proof -
  have "\<lfloor>- (rat_of_int i)\<rfloor> = - i" by (metis floor_of_int of_int_minus)
  then show ?thesis by (simp add: trunc_def)
qed

abbreviation reloaded :: "registeredNodeInfo \<Rightarrow> registeredNodeInfo" where
  "reloaded i \<equiv> i\<lparr>RegTime := LastAccessTime i\<rparr>"

lemma node_of_json_info: "node_of_json (json_norm (info_json i)) = Ok (reloaded i)"
  by (cases i) (simp add: node_of_json_def info_json_def as_float_def)

lemma AddToWatchList_registered [simp]:
  "registeredNodes (snd (AddToWatchList n r)) = registeredNodes r"
  "watchList (snd (AddToWatchList n r)) = watchList r"
  "watching m (snd (AddToWatchList n r)) = watching m r"
  by (simp_all add: AddToWatchList_def watching_def getWatchNodeFromWatchList_def)

lemma watching_launched [simp]: "watching m (r\<lparr>launched := l\<rparr>) = watching m r"
  by (simp add: watching_def getWatchNodeFromWatchList_def)

lemma setRegisterd_simps [simp]:
  "registeredNodes (setRegisterdNodeInfo n i r) = mset (registeredNodes r) n i"
  "watchList (setRegisterdNodeInfo n i r) = watchList r" "launched (setRegisterdNodeInfo n i r) = launched r"
  "watching m (setRegisterdNodeInfo n i r) = watching m r"
  by (simp_all add: setRegisterdNodeInfo_def watching_def getWatchNodeFromWatchList_def)

definition attended :: "string \<Rightarrow> registry \<Rightarrow> bool" where
  "attended rt r \<longleftrightarrow> watching rt r \<or> rt \<in> set (launched r)"

lemma attended_AddToWatchList:
  "attended rt (snd (AddToWatchList n r)) \<longleftrightarrow> rt = n \<or> attended rt r"
  by (auto simp: attended_def AddToWatchList_def)

lemma attended_setRegisterd [simp]: "attended rt (setRegisterdNodeInfo n i r) = attended rt r"
  by (simp add: attended_def)

lemma load_node_new:
  assumes "mget (registeredNodes r) n = None"
  shows "load_node (Ok r) (n, json_norm (info_json i))
    = Ok (snd (AddToWatchList (root_of n) (setRegisterdNodeInfo n (reloaded i) r)))"
  using assms by (simp add: load_node_def node_of_json_info getRegisteredNodeInfo_def)

lemma load_nodes:
  assumes "wf_map ns" and "\<forall>n \<in> fst ` set ns. mget (registeredNodes r) n = None"
  shows "\<exists>r'. foldl load_node (Ok r) (map (\<lambda>(n, i). (n, json_norm (info_json i))) ns) = Ok r'
    \<and> (\<forall>n. mget (registeredNodes r') n =
         (case mget ns n of Some i \<Rightarrow> Some (reloaded i) | None \<Rightarrow> mget (registeredNodes r) n))
    \<and> (\<forall>rt. attended rt r' \<longleftrightarrow> attended rt r \<or> rt \<in> root_of ` fst ` set ns)"
  using assms
proof (induction ns arbitrary: r)
  case (Cons ni ns)
  obtain n i where ni: "ni = (n, i)" by (cases ni)
  have wf: "wf_map ns" "n \<notin> fst ` set ns" using Cons.prems(1) ni by (auto simp: wf_map_def)
  define r1 where "r1 = snd (AddToWatchList (root_of n) (setRegisterdNodeInfo n (reloaded i) r))"
  have get1: "mget (registeredNodes r1) m = (if m = n then Some (reloaded i) else mget (registeredNodes r) m)" for m
    by (simp add: r1_def)
  have "\<forall>m \<in> fst ` set ns. mget (registeredNodes r1) m = None"
    using Cons.prems(2) wf(2) ni get1 by auto
  from Cons.IH [OF wf(1) this] obtain r' where
    r': "foldl load_node (Ok r1) (map (\<lambda>(n, i). (n, json_norm (info_json i))) ns) = Ok r'"
    "\<forall>m. mget (registeredNodes r') m =
         (case mget ns m of Some i \<Rightarrow> Some (reloaded i) | None \<Rightarrow> mget (registeredNodes r1) m)"
    "\<forall>rt. attended rt r' \<longleftrightarrow> attended rt r1 \<or> rt \<in> root_of ` fst ` set ns" by blast
  have "load_node (Ok r) (n, json_norm (info_json i)) = Ok r1"
    unfolding r1_def using Cons.prems(2) ni by (intro load_node_new) simp
  moreover have "mget ns n = None" using wf(2) by (simp add: map_of_eq_None_iff)
  ultimately show ?case
    using r' get1 by (intro exI [of _ r']) (auto simp: ni r1_def attended_AddToWatchList split: option.splits)
qed auto

lemma nodes_json_decodes:
  assumes "wf_map (registeredNodes r)"
    and "\<forall>(n, i) \<in> set (registeredNodes r). ascii n \<and> ascii (ni_Name i)"
  shows "UnmarshalMap (marshal f (nodes_json r)) =
    Ok (map (\<lambda>(n, i). (n, json_norm (info_json i))) (sort_keys (registeredNodes r)))"
proof -
  have "wf_map (map (map_prod id info_json) (registeredNodes r))"
    using assms(1) by (simp add: wf_map_def comp_def)
  moreover have "plain_json (info_json i)" if "ascii (ni_Name i)" for i
    using that by (simp add: info_json_def wf_map_def)
  ultimately have "plain_json (nodes_json r)"
    using assms(2) by (auto simp: nodes_json_def list_all_iff)
  from Unmarshal_marshal [OF this, of f] have "UnmarshalMap (marshal f (nodes_json r)) =
      Ok (map (map_prod id json_norm) (map (map_prod id info_json) (sort_keys (registeredNodes r))))"
    by (simp only: UnmarshalMap_def nodes_json_def json_norm.simps sort_keys_map res_bind_simps json.case)
  moreover have "map (map_prod id json_norm) (map (map_prod id info_json) ns)
      = map (\<lambda>(n, i). (n, json_norm (info_json i))) ns" for ns
    by (induction ns) auto
  ultimately show ?thesis by simp
qed

lemma mget_sort_keys: "wf_map m \<Longrightarrow> mget (sort_keys m) k = mget m k"
  using mget_in_set [OF wf_map_sort_keys, of m k] mget_in_set [of m k]
  by (metis not_None_eq set_sort_keys)

lemma registered_nodes_reload:
  assumes "db_open E is_open s" and "wf_map (registeredNodes r)"
    and "\<forall>(n, i) \<in> set (registeredNodes r). ascii n \<and> ascii (ni_Name i)" and "registeredNodes r0 = []"
  shows "\<exists>s' r'. SaveRegisteredNodesToDisk E r s = (Ok True, s')
    \<and> LoadRegisteredNodesFromDisk E r0 s' = (Ok (True, r'), s')
    \<and> (\<forall>n. mget (registeredNodes r') n = map_option reloaded (mget (registeredNodes r) n))
    \<and> (\<forall>n \<in> fst ` set (registeredNodes r). attended (root_of n) r')"
proof -
  let ?k = "KEY_NAME_OF_STORE_DYNAMIC_REG_CONF_NODES" and ?b = "marshal (\<lambda>_. []) (nodes_json r)"
  define s' where "s' = s\<lparr>disk := snd (Conn_Put (engine E) (reopen_db E) ?k ?b (disk s))\<rparr>"
  have rdy: "ldb_ready (engine E) is_open (disk s)" using assms(1) by (simp add: db_open_def)
  have "fst (Conn_Put (engine E) (reopen_db E) ?k ?b (disk s)) = Ok ()"
    using Conn_Put_open [OF rdy] by simp
  then have save: "SaveRegisteredNodesToDisk E r s = (Ok True, s')"
    using getLocalStorage_open [OF assms(1)]
    by (cases "Conn_Put (engine E) (reopen_db E) ?k ?b (disk s)") (simp add: SaveRegisteredNodesToDisk_def s'_def)
  have open': "db_open E is_open s'"
    using assms(1) leveldb.inv_put [OF rdy] Conn_Put_open [OF rdy] by (simp add: db_open_def s'_def)
  have got: "Conn_Get (engine E) (reopen_db E) ?k (disk s') = (Ok ?b, disk s')"
    using leveldb.get_put [OF rdy, of "reopen_db E" ?k ?k ?b] Conn_Get_open [of "engine E" is_open "disk s'"] open'
    by (simp add: prod_eq_iff db_open_def s'_def)
  have "\<forall>n \<in> fst ` set (sort_keys (registeredNodes r)). mget (registeredNodes r0) n = None"
    using assms(4) by simp
  from load_nodes [OF wf_map_sort_keys [OF assms(2)] this] obtain r' where
    r': "foldl load_node (Ok r0) (map (\<lambda>(n, i). (n, json_norm (info_json i))) (sort_keys (registeredNodes r))) = Ok r'"
    "\<forall>n. mget (registeredNodes r') n =
         (case mget (sort_keys (registeredNodes r)) n of Some i \<Rightarrow> Some (reloaded i) | None \<Rightarrow> mget (registeredNodes r0) n)"
    "\<forall>rt. attended rt r' \<longleftrightarrow> attended rt r0 \<or> rt \<in> root_of ` fst ` set (sort_keys (registeredNodes r))" by blast
  have load: "LoadRegisteredNodesFromDisk E r0 s' = (Ok (True, r'), s')"
    using getLocalStorage_open [OF open'] got r'(1) nodes_json_decodes [OF assms(2,3)]
    by (simp add: LoadRegisteredNodesFromDisk_def)
  have "mget (registeredNodes r') n = map_option reloaded (mget (registeredNodes r) n)" for n
    using r'(2) assms(4) by (simp add: mget_sort_keys [OF assms(2)] split: option.split)
  moreover have "\<forall>n \<in> fst ` set (registeredNodes r). attended (root_of n) r'"
    using r'(3) by auto
  ultimately show ?thesis using save load by blast
qed

text \<open>C25: what \<^verbatim>\<open>SaveRegisteredNodesToDisk\<close> writes, a new process loads: the same names with
  the same times of last access (the time of registration is replaced by it), and every root of
  a loaded name is watched or about to be.\<close>

theorem registered_nodes_survive_restart:
  assumes "db_open E is_open s" and "wf_map (registeredNodes r)"
    and "\<forall>(n, i) \<in> set (registeredNodes r). ascii n \<and> ascii (ni_Name i)" and "registeredNodes r0 = []"
  shows "\<exists>s' r'. SaveRegisteredNodesToDisk E r s = (Ok True, s')
    \<and> LoadRegisteredNodesFromDisk E r0 s' = (Ok (True, r'), s')
    \<and> (\<forall>n. mget (registeredNodes r') n = map_option reloaded (mget (registeredNodes r) n))
    \<and> (\<forall>n \<in> fst ` set (registeredNodes r). attended (root_of n) r')"
  using assms by (rule registered_nodes_reload)

definition empty_registry :: registry where
  "empty_registry = \<lparr>registeredNodes = [], watchList = [], launched = []\<rparr>"

theorem registered_nodes_survive_restart_witness:
  "\<exists>s' r'. SaveRegisteredNodesToDisk (demo_env (Ok ())) demo_registry (demo_client []) = (Ok True, s')
    \<and> LoadRegisteredNodesFromDisk (demo_env (Ok ())) empty_registry s' = (Ok (True, r'), s')
    \<and> mget (registeredNodes r') ''Ship.b'' = Some \<lparr>ni_Name = ''Ship.b'', LastAccessTime = 900, RegTime = 900\<rparr>
    \<and> attended ''Ship'' r'"
proof -
  have ok: "wf_map (registeredNodes demo_registry)"
    "\<forall>(n, i) \<in> set (registeredNodes demo_registry). ascii n \<and> ascii (ni_Name i)"
    "registeredNodes empty_registry = []"
    by (simp_all add: demo_registry_def wf_map_def empty_registry_def)
  have "root_of ''Ship.b'' = ''Ship''" by code_simp
  moreover have "mget (registeredNodes demo_registry) ''Ship.b'' = Some \<lparr>ni_Name = ''Ship.b'', LastAccessTime = 900, RegTime = 60\<rparr>"
    "''Ship.b'' \<in> fst ` set (registeredNodes demo_registry)"
    by (simp_all add: demo_registry_def)
  ultimately show ?thesis
    using registered_nodes_survive_restart [OF demo_open ok(1,2,3), of "Ok ()" "[]"] by fastforce
qed

section \<open>An access is recorded\<close>

text \<open>An access through the API records its time for the accessed name and changes no other
  entry; a name that is new is registered with the time of registration and its root is watched or
  about to be; but the answer whether it had been watched looks up the full name, not the root, in the
  list of watched roots.\<close>

theorem TouchDynamicNode_registers:
  assumes "\<not> RunAsBi (cfg E)" and "TouchDynamicNode E treg tacc name r s = (b, r', s')"
  shows "mget (registeredNodes r') name = Some (case mget (registeredNodes r) name of
        None \<Rightarrow> \<lparr>ni_Name = name, LastAccessTime = tacc, RegTime = treg\<rparr>
      | Some i \<Rightarrow> i\<lparr>LastAccessTime := tacc\<rparr>)
    \<and> (\<forall>n. n \<noteq> name \<longrightarrow> mget (registeredNodes r') n = mget (registeredNodes r) n)
    \<and> watchList r' = watchList r
    \<and> (case mget (registeredNodes r) name of
         None \<Rightarrow> attended (root_of name) r' \<and> b = watching name r
       | Some _ \<Rightarrow> launched r' = launched r \<and> b \<and> s' = s)"
  using assms
  by (auto simp: TouchDynamicNode_def getRegisteredNodeInfo_def Let_def attended_AddToWatchList
      split: option.splits)

theorem TouchDynamicNode_registers_witness:
  "\<exists>r' s'. TouchDynamicNode (demo_env (Ok ())) 7 8 ''Ship.c'' demo_registry (demo_client []) = (False, r', s')
     \<and> mget (registeredNodes r') ''Ship.c'' = Some \<lparr>ni_Name = ''Ship.c'', LastAccessTime = 8, RegTime = 7\<rparr>
     \<and> watching ''Ship'' demo_registry"
proof -
  obtain b r' s' where t: "TouchDynamicNode (demo_env (Ok ())) 7 8 ''Ship.c'' demo_registry (demo_client []) = (b, r', s')"
    by (metis prod_cases3)
  have "\<not> RunAsBi (cfg (demo_env (Ok ())))" by (simp add: demo_env_def demo_config_def zero_config_def)
  moreover have "mget (registeredNodes demo_registry) ''Ship.c'' = None" by (simp add: demo_registry_def)
  moreover have "\<not> watching ''Ship.c'' demo_registry" "watching ''Ship'' demo_registry" by code_simp+
  ultimately show ?thesis using TouchDynamicNode_registers [OF _ t] t by auto
qed

end
