(* ===== verification/Watch.thy ===== *)
theory Watch
  imports Registry Steps
begin

text \<open>
  \<^verbatim>\<open>watchItem\<close> (\<^verbatim>\<open>configwatcher/zk_watcher.go\<close>) and the loop of \<^verbatim>\<open>gcWatcher\<close> as a transition system.
  A watcher is a goroutine with a one-place channel; it listens until it takes a signal from the
  channel, then forgets the registered configurations of its root and calls \<^verbatim>\<open>syncRegisteredNodesToDisk\<close>,
  a loop without an end: the statements after the call, which would set the state of
  the entry to 0, are not reached.  The collector computes its list and sends a signal to each root
  of the list, waiting while the channel is full.  Events of the server, which leave this state as
  it is, are not steps.
\<close>

datatype watch_phase = Listening | Syncing

record watch_state =
  reg :: registry
  signals :: "nat \<Rightarrow> nat"
  watchers :: "nat \<Rightarrow> (string \<times> watch_phase) option"
  next_chan :: nat
  kicks :: "string list"

definition enter_watch :: "string \<Rightarrow> int \<Rightarrow> nat \<Rightarrow> registry \<Rightarrow> registry" where
  "enter_watch name now c r =
     r\<lparr>watchList := mset (watchList r) name \<lparr>wi_Name = name, wi_RegTime = now, State = 1, Chan = c\<rparr>\<rparr>"

definition forget_root :: "string \<Rightarrow> registry \<Rightarrow> registry" where
  "forget_root name r =
     foldl (\<lambda>r itemNode. if root_of itemNode = name then deleteRegisteredNodeInfo itemNode r else r) r
       (map fst (registeredNodes r))"

inductive watch_step :: "watch_state \<Rightarrow> watch_state \<Rightarrow> bool" where
  ws_add: "watch_step s (s\<lparr>reg := snd (AddToWatchList name (reg s))\<rparr>)"
| ws_register: "watch_step s (s\<lparr>reg := setRegisterdNodeInfo name info (reg s)\<rparr>)"
| ws_start: "launched (reg s) = xs @ name # ys
    \<Longrightarrow> watch_step s (s\<lparr>reg := enter_watch name now (next_chan s) ((reg s)\<lparr>launched := xs @ ys\<rparr>),
          watchers := (watchers s)(next_chan s \<mapsto> (name, Listening)), next_chan := Suc (next_chan s)\<rparr>)"
| ws_quit: "watchers s c = Some (name, Listening) \<Longrightarrow> 0 < signals s c
    \<Longrightarrow> watch_step s (s\<lparr>signals := (signals s)(c := signals s c - 1),
          reg := forget_root name (reg s), watchers := (watchers s)(c \<mapsto> (name, Syncing))\<rparr>)"
| ws_collect: "kicks s = []
    \<Longrightarrow> watch_step s (s\<lparr>kicks := nodesToBeKickedFromWatches items t (reg s)\<rparr>)"
| ws_kick: "kicks s = name # rest \<Longrightarrow> mget (watchList (reg s)) name = Some info \<Longrightarrow> signals s (Chan info) = 0
    \<Longrightarrow> watch_step s (s\<lparr>signals := (signals s)(Chan info := 1), kicks := rest\<rparr>)"

inductive_cases watch_stepE: "watch_step s s'"

lemma forget_root_frame [simp]:
  "watchList (forget_root n r) = watchList r" "launched (forget_root n r) = launched r"
proof -
  have "watchList (foldl (\<lambda>r x. if root_of x = n then deleteRegisteredNodeInfo x r else r) r xs) = watchList r
      \<and> launched (foldl (\<lambda>r x. if root_of x = n then deleteRegisteredNodeInfo x r else r) r xs) = launched r" for xs
    by (induction xs arbitrary: r) (simp_all add: deleteRegisteredNodeInfo_def)
  then show "watchList (forget_root n r) = watchList r" "launched (forget_root n r) = launched r"
    by (simp_all add: forget_root_def)
qed

lemma forget_root_nodes:
  assumes "wf_map (registeredNodes r)"
  shows "mget (registeredNodes (forget_root n r)) m = (if root_of m = n then None else mget (registeredNodes r) m)"
proof -
  have "mget (registeredNodes (foldl (\<lambda>r x. if root_of x = n then deleteRegisteredNodeInfo x r else r) r xs)) m
      = (if root_of m = n \<and> m \<in> set xs then None else mget (registeredNodes r) m)" for xs
    by (induction xs arbitrary: r) (auto simp: deleteRegisteredNodeInfo_def)
  moreover have "m \<in> set (map fst (registeredNodes r)) \<or> mget (registeredNodes r) m = None"
    by (auto simp: map_of_eq_None_iff)
  ultimately show ?thesis by (auto simp: forget_root_def)
qed

section \<open>A root that was dropped stays dropped\<close>

text \<open>
  The entry of the root says that it is watched, nobody is about to watch it, and its
  watcher is in the endless loop.
\<close>

definition orphaned :: "string \<Rightarrow> watch_state \<Rightarrow> bool" where
  "orphaned name s \<longleftrightarrow>
     name \<notin> set (launched (reg s)) \<and>
     (\<exists>info. mget (watchList (reg s)) name = Some info \<and> State info = 1
        \<and> Chan info < next_chan s \<and> watchers s (Chan info) = Some (name, Syncing))"

lemma orphaned_watching: "orphaned name s \<Longrightarrow> watching name (reg s)"
  by (auto simp: orphaned_def watching_def getWatchNodeFromWatchList_def)

lemma orphaned_step: "watch_step s s' \<Longrightarrow> orphaned name s \<Longrightarrow> orphaned name s'"
proof (induction rule: watch_step.induct)
  case (ws_add s n)
  show ?case
  proof (cases "watching n (reg s)")
    case True
    then show ?thesis using ws_add by (simp add: AddToWatchList_def)
  next
    case False
    then have "n \<noteq> name" using orphaned_watching [OF ws_add] by auto
    then show ?thesis using ws_add False by (auto simp: orphaned_def AddToWatchList_def)
  qed
next
  case (ws_start s xs n ys now)
  then have "n \<noteq> name" "name \<notin> set (xs @ ys)" by (auto simp: orphaned_def)
  moreover obtain info where "mget (watchList (reg s)) name = Some info" "State info = 1"
    "Chan info < next_chan s" "watchers s (Chan info) = Some (name, Syncing)"
    using ws_start by (auto simp: orphaned_def)
  ultimately show ?case by (simp add: orphaned_def enter_watch_def exI [of _ info])
next
  case (ws_quit s c n)
  then show ?case by (auto simp: orphaned_def)
qed (auto simp: orphaned_def)

lemma orphaned_listeners:
  "watch_step s s' \<Longrightarrow> orphaned name s \<Longrightarrow> watchers s' c = Some (name, Listening)
   \<Longrightarrow> watchers s c = Some (name, Listening)"
  by (induction rule: watch_step.induct) (auto simp: orphaned_def split: if_splits)

interpretation orphan: step_progress watch_step "orphaned name"
    "\<lambda>s s'. \<forall>c. watchers s' c = Some (name, Listening) \<longrightarrow> watchers s c = Some (name, Listening)" for name
  by unfold_locales (use orphaned_step orphaned_listeners in blast)+

text \<open>C28: once the watcher of a root has been told to stop, the root is never watched again: in every
  later state the watch list still says that it is watched, so a request to watch it starts
  nothing, and no watcher listens for it that did not listen before.\<close>

theorem dropped_root_never_rewatched:
  assumes "orphaned name s" and "watch_step\<^sup>*\<^sup>* s s'"
  shows "watching name (reg s') \<and> AddToWatchList name (reg s') = (True, reg s')
    \<and> (\<forall>c. watchers s' c = Some (name, Listening) \<longrightarrow> watchers s c = Some (name, Listening))"
proof -
  have "orphaned name s' \<and> (\<forall>c. watchers s' c = Some (name, Listening) \<longrightarrow> watchers s c = Some (name, Listening))"
    using orphan.inv_steps [OF assms(2,1)] orphan.rel_steps [OF assms(2,1)] by blast
  then show ?thesis using orphaned_watching by (auto simp: AddToWatchList_def)
qed

text \<open>A run that leads there: the root is added, watched, unused, collected, and its watcher stops.\<close>

definition watch0 :: watch_state where
  "watch0 = \<lparr>reg = empty_registry, signals = (\<lambda>_. 0), watchers = Map.empty, next_chan = 0, kicks = []\<rparr>"

definition pay_entry :: WatchInfo where
  "pay_entry = \<lparr>wi_Name = ''Pay'', wi_RegTime = 0, State = 1, Chan = 0\<rparr>"

definition pay_registry :: registry where
  "pay_registry = \<lparr>registeredNodes = [], watchList = [(''Pay'', pay_entry)], launched = []\<rparr>"

definition pay_dropped :: watch_state where
  "pay_dropped = \<lparr>reg = pay_registry, signals = (\<lambda>_. 0), watchers = [0 \<mapsto> (''Pay'', Syncing)],
     next_chan = 1, kicks = []\<rparr>"

lemma pay_dropped_reachable: "watch_step\<^sup>*\<^sup>* watch0 pay_dropped"
proof -
  let ?w = "[0 \<mapsto> (''Pay'', Listening)]"
  let ?s1 = "watch0\<lparr>reg := \<lparr>registeredNodes = [], watchList = [], launched = [''Pay'']\<rparr>\<rparr>"
  let ?s2 = "\<lparr>reg = pay_registry, signals = (\<lambda>_. 0), watchers = ?w, next_chan = 1, kicks = []\<rparr>"
  let ?s3 = "?s2\<lparr>kicks := [''Pay'']\<rparr>"
  let ?s4 = "?s2\<lparr>signals := (\<lambda>_. 0)(0 := 1)\<rparr>"
  have 1: "watch_step watch0 ?s1"
    using ws_add [of watch0 "''Pay''"]
    by (simp add: watch0_def AddToWatchList_def watching_def getWatchNodeFromWatchList_def empty_registry_def)
  have 2: "watch_step ?s1 ?s2"
    using ws_start [of ?s1 "[]" "''Pay''" "[]" 0]
    by (simp add: watch0_def enter_watch_def pay_registry_def pay_entry_def)
  have "nodesToBeKickedFromWatches [] 1000 pay_registry = [''Pay'']" by code_simp
  then have 3: "watch_step ?s2 ?s3" using ws_collect [of ?s2 "[]" 1000] by simp
  have 4: "watch_step ?s3 ?s4"
    using ws_kick [of ?s3 "''Pay''" "[]" pay_entry] by (simp add: pay_registry_def pay_entry_def)
  have "forget_root ''Pay'' pay_registry = pay_registry" by (simp add: forget_root_def pay_registry_def)
  then have 5: "watch_step ?s4 pay_dropped"
    using ws_quit [of ?s4 0 "''Pay''"] by (simp add: pay_dropped_def fun_upd_idem)
  from 1 2 3 4 5 show ?thesis by (meson rtranclp.rtrancl_into_rtrancl rtranclp.rtrancl_refl)
qed

theorem dropped_root_never_rewatched_witness:
  "watch_step\<^sup>*\<^sup>* watch0 pay_dropped \<and> AddToWatchList ''Pay'' (reg pay_dropped) = (True, reg pay_dropped)
   \<and> (\<forall>c. watchers pay_dropped c \<noteq> Some (''Pay'', Listening))"
proof -
  have "orphaned ''Pay'' pay_dropped"
    by (simp add: orphaned_def pay_dropped_def pay_registry_def pay_entry_def)
  from dropped_root_never_rewatched [OF this rtranclp.rtrancl_refl] pay_dropped_reachable
  show ?thesis by (auto simp: pay_dropped_def split: if_splits)
qed

section \<open>The collector gets stuck\<close>

text \<open>The collector waits for ever when it wants to signal a root whose channel still holds an
  earlier signal and whose watcher is in the endless loop: from then on no round of collection
  happens, whatever else runs.\<close>

theorem collector_stuck:
  assumes "orphaned name s" and "kicks s = name # rest"
    and "\<forall>info. mget (watchList (reg s)) name = Some info \<longrightarrow> 0 < signals s (Chan info)"
    and "watch_step\<^sup>*\<^sup>* s s'"
  shows "kicks s' = name # rest"
proof -
  obtain info where info: "mget (watchList (reg s)) name = Some info" "watchers s (Chan info) = Some (name, Syncing)"
    "Chan info < next_chan s" using assms(1) by (auto simp: orphaned_def)
  let ?I = "\<lambda>s. orphaned name s \<and> kicks s = name # rest \<and> mget (watchList (reg s)) name = Some info
      \<and> watchers s (Chan info) = Some (name, Syncing) \<and> Chan info < next_chan s \<and> 0 < signals s (Chan info)"
  have step: "?I y'" if "watch_step y y'" "?I y" for y y'
    using that
  proof (induction rule: watch_step.induct)
    case (ws_start s xs n ys now)
    then have "n \<noteq> name" by (auto simp: orphaned_def)
    with ws_start orphaned_step [OF watch_step.ws_start [OF ws_start(1)]] show ?case by (simp add: enter_watch_def)
  next
    case (ws_quit s c n)
    then have "c \<noteq> Chan info" by auto
    with ws_quit orphaned_step [OF watch_step.ws_quit [OF ws_quit(1,2)]] show ?case by simp
  qed (auto simp: orphaned_step [OF watch_step.ws_add] orphaned_step [OF watch_step.ws_register])
  have "?I s" using assms(1-3) info by simp
  with assms(4) have "?I s'"
    by (induction rule: rtranclp_induct) (use step in blast)+
  then show ?thesis by simp
qed

definition pay_stuck :: watch_state where
  "pay_stuck = pay_dropped\<lparr>signals := (\<lambda>_. 0)(0 := 1), kicks := [''Pay'']\<rparr>"

lemma pay_stuck_reachable: "watch_step\<^sup>*\<^sup>* pay_dropped pay_stuck"
proof -
  let ?s1 = "pay_dropped\<lparr>kicks := [''Pay'']\<rparr>"
  let ?s2 = "pay_dropped\<lparr>signals := (\<lambda>_. 0)(0 := 1)\<rparr>"
  have k: "nodesToBeKickedFromWatches [] 1000 pay_registry = [''Pay'']" by code_simp
  have 1: "watch_step pay_dropped ?s1" using ws_collect [of pay_dropped "[]" 1000] k by (simp add: pay_dropped_def)
  have 2: "watch_step ?s1 ?s2"
    using ws_kick [of ?s1 "''Pay''" "[]" pay_entry] by (simp add: pay_dropped_def pay_registry_def pay_entry_def)
  have 3: "watch_step ?s2 pay_stuck"
    using ws_collect [of ?s2 "[]" 1000] k by (simp add: pay_dropped_def pay_stuck_def)
  from 1 2 3 show ?thesis by (meson rtranclp.rtrancl_into_rtrancl rtranclp.rtrancl_refl)
qed

theorem collector_stuck_witness:
  "watch_step\<^sup>*\<^sup>* watch0 pay_stuck \<and> (\<nexists>s'. watch_step\<^sup>*\<^sup>* pay_stuck s' \<and> kicks s' \<noteq> [''Pay''])"
proof -
  have "orphaned ''Pay'' pay_stuck" "kicks pay_stuck = [''Pay'']"
    "\<forall>info. mget (watchList (reg pay_stuck)) ''Pay'' = Some info \<longrightarrow> 0 < signals pay_stuck (Chan info)"
    by (simp_all add: orphaned_def pay_stuck_def pay_dropped_def pay_registry_def pay_entry_def)
  then have "\<nexists>s'. watch_step\<^sup>*\<^sup>* pay_stuck s' \<and> kicks s' \<noteq> [''Pay'']" using collector_stuck by blast
  then show ?thesis using pay_dropped_reachable pay_stuck_reachable by (meson rtranclp_trans)
qed

end
