(* ===== verification/UpdateLock.thy ===== *)
theory UpdateLock
  imports Steps
begin

text \<open>
  \<^verbatim>\<open>configwatcher/zk_watcher.go\<close>: \<^verbatim>\<open>getUpdateLock\<close> and \<^verbatim>\<open>releaseUpdateLock\<close>.  One update runs at a
  time (the one-place channel \<^verbatim>\<open>updateLock\<close>), and per name at most one more may wait: a counter per
  name refuses the rest.  The part of each function that runs under the mutex of the
  counter is a function on the counter; the interleaving of the goroutines is a step relation.
\<close>

type_synonym update_counter = "(string, int) gomap"

definition count_request :: "string \<Rightarrow> update_counter \<Rightarrow> bool \<times> update_counter" where
  "count_request name m =
     (case mget m name of
        Some c \<Rightarrow> if c > 1 then (False, m) else (True, mset m name (c + 1))
      | None \<Rightarrow> (True, mset m name 1))"

definition count_release :: "string \<Rightarrow> update_counter \<Rightarrow> update_counter" where
  "count_release name m = mset m name ((case mget m name of Some c \<Rightarrow> c | None \<Rightarrow> 0) - 1)"

datatype updater = UIdle | UWaiting string | URunning string

record update_state =
  ucounter :: update_counter
  ulock :: bool
  updaters :: "nat \<Rightarrow> updater"

inductive update_step :: "update_state \<Rightarrow> update_state \<Rightarrow> bool" where
  us_request: "updaters s p = UIdle \<Longrightarrow> count_request name (ucounter s) = (True, m)
    \<Longrightarrow> update_step s (s\<lparr>ucounter := m, updaters := (updaters s)(p := UWaiting name)\<rparr>)"
| us_refuse: "updaters s p = UIdle \<Longrightarrow> count_request name (ucounter s) = (False, m)
    \<Longrightarrow> update_step s (s\<lparr>ucounter := m\<rparr>)"
| us_acquire: "updaters s p = UWaiting name \<Longrightarrow> \<not> ulock s
    \<Longrightarrow> update_step s (s\<lparr>ulock := True, updaters := (updaters s)(p := URunning name)\<rparr>)"
| us_release: "updaters s p = URunning name \<Longrightarrow> ulock s
    \<Longrightarrow> update_step s (s\<lparr>ucounter := count_release name (ucounter s), ulock := False,
          updaters := (updaters s)(p := UIdle)\<rparr>)"

definition update_init :: update_state where
  "update_init = \<lparr>ucounter = [], ulock = False, updaters = (\<lambda>_. UIdle)\<rparr>"

abbreviation update_reach :: "update_state \<Rightarrow> bool" where
  "update_reach s \<equiv> update_step\<^sup>*\<^sup>* update_init s"

section \<open>The counter counts\<close>

definition count :: "string \<Rightarrow> update_state \<Rightarrow> int" where
  "count name s = (case mget (ucounter s) name of Some c \<Rightarrow> c | None \<Rightarrow> 0)"

definition busy :: "string \<Rightarrow> (nat \<Rightarrow> updater) \<Rightarrow> nat set" where
  "busy name u = {p. u p = UWaiting name \<or> u p = URunning name}"

definition running :: "(nat \<Rightarrow> updater) \<Rightarrow> nat set" where
  "running u = {p. \<exists>name. u p = URunning name}"

definition update_inv :: "update_state \<Rightarrow> bool" where
  "update_inv s \<longleftrightarrow>
     (\<forall>name. finite (busy name (updaters s)) \<and> count name s = int (card (busy name (updaters s)))
        \<and> card (busy name (updaters s)) \<le> 2)
     \<and> (if ulock s then \<exists>p. running (updaters s) = {p} else running (updaters s) = {})"

lemma count_request_refused: "count_request name (ucounter s) = (False, m) \<longleftrightarrow> m = ucounter s \<and> count name s > 1"
  by (auto simp: count_request_def count_def split: option.splits if_splits)

lemma count_request_counted:
  "count_request name (ucounter s) = (True, m) \<longleftrightarrow> m = mset (ucounter s) name (count name s + 1) \<and> count name s \<le> 1"
  by (auto simp: count_request_def count_def split: option.splits if_splits)

lemma busy_upd:
  "busy n (u(p := UWaiting m)) = (if n = m then insert p (busy n u) else busy n u - {p})"
  "busy n (u(p := URunning m)) = (if n = m then insert p (busy n u) else busy n u - {p})"
  "busy n (u(p := UIdle)) = busy n u - {p}"
  by (auto simp: busy_def)

lemma running_upd:
  "running (u(p := UWaiting m)) = running u - {p}" "running (u(p := URunning m)) = insert p (running u)"
  "running (u(p := UIdle)) = running u - {p}"
  by (auto simp: running_def)

lemma update_inv_step: "update_step s s' \<Longrightarrow> update_inv s \<Longrightarrow> update_inv s'"
proof (induction rule: update_step.induct)
  case (us_request s p name m)
  have m: "m = mset (ucounter s) name (count name s + 1)" "count name s \<le> 1"
    using us_request(2) by (simp_all add: count_request_counted)
  have p: "p \<notin> busy n (updaters s)" "p \<notin> running (updaters s)" for n
    using us_request(1) by (auto simp: busy_def running_def)
  have c: "count n (s\<lparr>ucounter := m, updaters := u\<rparr>) = (if n = name then count name s + 1 else count n s)" for n u
    by (simp add: count_def m(1))
  show ?case
    using us_request(3) m(2) p by (auto simp: update_inv_def c busy_upd running_upd)
next
  case (us_refuse s p name m)
  then have "m = ucounter s" by (simp add: count_request_refused)
  with us_refuse show ?case by simp
next
  case (us_acquire s p name)
  have p: "p \<in> busy name (updaters s)" "\<And>n. n \<noteq> name \<Longrightarrow> p \<notin> busy n (updaters s)"
    using us_acquire(1) by (auto simp: busy_def)
  have c: "count n (s\<lparr>ulock := l, updaters := u\<rparr>) = count n s" for n u l by (simp add: count_def)
  show ?case
    using us_acquire(2,3) p by (auto simp: update_inv_def c busy_upd running_upd insert_absorb)
next
  case (us_release s p name)
  have p: "p \<in> busy name (updaters s)" "\<And>n. n \<noteq> name \<Longrightarrow> p \<notin> busy n (updaters s)" "p \<in> running (updaters s)"
    using us_release(1) by (auto simp: busy_def running_def)
  have c: "count n (s\<lparr>ucounter := count_release name (ucounter s), ulock := l, updaters := u\<rparr>)
      = (if n = name then count name s - 1 else count n s)" for n u l
    by (simp add: count_def count_release_def)
  have "0 < card (busy name (updaters s))" using us_release(3) p(1) by (auto simp: update_inv_def card_gt_0_iff)
  then show ?case
    using us_release(2,3) p
    by (auto simp: update_inv_def c busy_upd running_upd of_nat_diff intro: le_trans [OF diff_le_self])
qed

interpretation updating: reachable_invariant update_step update_inv "\<lambda>s. s = update_init"
  by unfold_locales (rule update_inv_step, simp_all add: update_inv_def update_init_def busy_def running_def count_def)

lemma update_inv_reach: "update_reach s \<Longrightarrow> update_inv s"
  by (rule updating.inv_reach) simp_all

text \<open>C23: at any time at most one update runs; per name at most two requests are admitted; and when a
  request is refused, an admitted request of the same name has not started yet, so the
  update it runs will see whatever caused the refused one.\<close>

theorem update_lock_correct:
  assumes "update_reach s"
  shows "(updaters s p = URunning m \<and> updaters s q = URunning n \<longrightarrow> p = q)
    \<and> count name s \<le> 2 \<and> card (busy name (updaters s)) \<le> 2
    \<and> (\<not> fst (count_request name (ucounter s)) \<longrightarrow> (\<exists>p. updaters s p = UWaiting name))"
proof -
  have inv: "update_inv s" using assms by (rule update_inv_reach)
  have one: "p = q" if "p \<in> running (updaters s)" "q \<in> running (updaters s)" for p q
    using inv that by (auto simp: update_inv_def split: if_splits)
  have "\<exists>p. updaters s p = UWaiting name" if "\<not> fst (count_request name (ucounter s))"
  proof (rule ccontr)
    assume none: "\<nexists>p. updaters s p = UWaiting name"
    have "count name s > 1" using that count_request_refused [of name s] by (cases "count_request name (ucounter s)") auto
    then have "1 < card (busy name (updaters s))" using inv by (simp add: update_inv_def)
    then obtain p q where "p \<in> busy name (updaters s)" "q \<in> busy name (updaters s)" "p \<noteq> q"
      by (metis card_le_Suc0_iff_eq card.infinite not_less One_nat_def not_less_zero)
    with none one show False by (fastforce simp: busy_def running_def)
  qed
  with one inv show ?thesis by (auto simp: update_inv_def running_def)
qed

definition demo_update :: update_state where
  "demo_update = \<lparr>ucounter = [(''Pay'', 2)], ulock = True,
     updaters = (\<lambda>_. UIdle)(0 := URunning ''Pay'', 1 := UWaiting ''Pay'')\<rparr>"

lemma demo_update_reach: "update_reach demo_update"
proof -
  let ?s1 = "\<lparr>ucounter = [(''Pay'', 1)], ulock = False, updaters = (\<lambda>_. UIdle)(0 := UWaiting ''Pay'')\<rparr>"
  let ?s2 = "\<lparr>ucounter = [(''Pay'', 1)], ulock = True, updaters = (\<lambda>_. UIdle)(0 := URunning ''Pay'')\<rparr>"
  have 1: "update_step update_init ?s1"
    using us_request [of update_init 0 "''Pay''" "[(''Pay'', 1)]"] by (simp add: update_init_def count_request_def)
  have 2: "update_step ?s1 ?s2" using us_acquire [of ?s1 0 "''Pay''"] by simp
  have 3: "update_step ?s2 demo_update"
    using us_request [of ?s2 1 "''Pay''" "[(''Pay'', 2)]"] by (simp add: demo_update_def count_request_def)
  from 1 2 3 show ?thesis by (meson rtranclp.rtrancl_into_rtrancl rtranclp.rtrancl_refl)
qed

theorem update_lock_correct_witness:
  "\<not> fst (count_request ''Pay'' (ucounter demo_update)) \<and> (\<exists>p. updaters demo_update p = UWaiting ''Pay'')"
proof -
  have "\<not> fst (count_request ''Pay'' (ucounter demo_update))"
    by (simp add: demo_update_def count_request_def)
  with update_lock_correct [OF demo_update_reach] show ?thesis by blast
qed

end
