(* ===== verification/Recheck.thy ===== *)
theory Recheck
  imports Steps
begin

text \<open>
  \<^verbatim>\<open>configwatcher/zk_recheck.go\<close>: roots whose update failed are put into a queue of ten places
  (\<open>addToRecheckQueue\<close>); a receiver takes them out, notes them in \<open>failed\<close> and starts a goroutine that
  removes the note after a delay and updates again.  \<open>failed\<close> is guarded by a lock; the sender holds
  it while it waits for a place in the queue.  \<open>holder\<close> is the root a sender inside the lock
  wants to queue, \<open>received\<close> the root that the receiver has taken and not noted yet.
\<close>

definition queue_capacity :: nat where
  "queue_capacity = 10"

record recheck_state =
  queuedRechecks :: "string list"
  failedConfigItemRoots :: "string set"
  holder :: "string option"
  received :: "string option"

definition recheck_wanted :: "string \<Rightarrow> string set \<Rightarrow> bool" where
  "recheck_wanted nodeName failed \<longleftrightarrow> ''*'' \<notin> failed \<and> nodeName \<notin> failed"

inductive recheck_step :: "recheck_state \<Rightarrow> recheck_state \<Rightarrow> bool" where
  rs_enter: "holder s = None \<Longrightarrow> recheck_wanted n (failedConfigItemRoots s)
    \<Longrightarrow> recheck_step s (s\<lparr>holder := Some n\<rparr>)"
| rs_send: "holder s = Some n \<Longrightarrow> length (queuedRechecks s) < queue_capacity
    \<Longrightarrow> recheck_step s (s\<lparr>queuedRechecks := queuedRechecks s @ [n], holder := None\<rparr>)"
| rs_receive: "received s = None \<Longrightarrow> queuedRechecks s = n # q
    \<Longrightarrow> recheck_step s (s\<lparr>queuedRechecks := q, received := Some n\<rparr>)"
| rs_note: "received s = Some n \<Longrightarrow> holder s = None
    \<Longrightarrow> recheck_step s (s\<lparr>failedConfigItemRoots := insert n (failedConfigItemRoots s), received := None\<rparr>)"
| rs_wake: "n \<in> failedConfigItemRoots s \<Longrightarrow> holder s = None
    \<Longrightarrow> recheck_step s (s\<lparr>failedConfigItemRoots := failedConfigItemRoots s - {n}\<rparr>)"

definition recheck_init :: recheck_state where
  "recheck_init = \<lparr>queuedRechecks = [], failedConfigItemRoots = {}, holder = None, received = None\<rparr>"

abbreviation recheck_reach :: "recheck_state \<Rightarrow> bool" where
  "recheck_reach s \<equiv> recheck_step\<^sup>*\<^sup>* recheck_init s"

inductive_cases rs_stepE: "recheck_step s s'"

definition deadlocked :: "recheck_state \<Rightarrow> bool" where
  "deadlocked s \<longleftrightarrow> holder s \<noteq> None \<and> length (queuedRechecks s) = queue_capacity \<and> received s \<noteq> None"

interpretation queue: reachable_invariant recheck_step "\<lambda>s. length (queuedRechecks s) \<le> queue_capacity" "\<lambda>s. s = recheck_init"
  by unfold_locales (auto elim!: rs_stepE simp: recheck_init_def)

lemma queue_bounded: "recheck_reach s \<Longrightarrow> length (queuedRechecks s) \<le> queue_capacity"
  by (rule queue.inv_reach) simp_all

lemma free_moves: "holder s = None \<Longrightarrow> \<exists>s'. recheck_step s s'"
proof (cases "failedConfigItemRoots s = {}")
  case True
  then have "recheck_wanted ''a'' (failedConfigItemRoots s)" by (simp add: recheck_wanted_def)
  then show "holder s = None \<Longrightarrow> \<exists>s'. recheck_step s s'" using rs_enter by blast
next
  case False
  then show "holder s = None \<Longrightarrow> \<exists>s'. recheck_step s s'" using rs_wake by blast
qed

lemma stuck_iff_deadlocked:
  assumes "length (queuedRechecks s) \<le> queue_capacity"
  shows "(\<nexists>s'. recheck_step s s') \<longleftrightarrow> deadlocked s"
proof
  assume stuck: "\<nexists>s'. recheck_step s s'"
  then obtain n where n: "holder s = Some n" using free_moves by blast
  then have full: "\<not> length (queuedRechecks s) < queue_capacity" using stuck rs_send by blast
  then obtain m q where "queuedRechecks s = m # q" by (cases "queuedRechecks s") (auto simp: queue_capacity_def)
  then have "received s \<noteq> None" using stuck rs_receive by blast
  with n full assms show "deadlocked s" by (simp add: deadlocked_def)
next
  assume "deadlocked s"
  then show "\<nexists>s'. recheck_step s s'" by (auto simp: deadlocked_def elim!: rs_stepE)
qed

text \<open>The queue can be filled while nobody has been noted.\<close>

abbreviation pending :: "nat \<Rightarrow> string option \<Rightarrow> string option \<Rightarrow> recheck_state" where
  "pending k h r \<equiv> \<lparr>queuedRechecks = replicate k ''a'', failedConfigItemRoots = {}, holder = h, received = r\<rparr>"

lemma step_enter: "recheck_step (pending k None r) (pending k (Some ''a'') r)"
  using rs_enter [of "pending k None r" "''a''"] by (simp add: recheck_wanted_def)

lemma step_fill:
  assumes "k < queue_capacity"
  shows "recheck_step\<^sup>*\<^sup>* (pending k None r) (pending (Suc k) None r)"
proof -
  have "recheck_step (pending k (Some ''a'') r) (pending (Suc k) None r)"
    using rs_send [of "pending k (Some ''a'') r" "''a''"] assms
    by (simp add: replicate_append_same [symmetric])
  with step_enter [of k r] show ?thesis by (meson rtranclp.rtrancl_into_rtrancl rtranclp.rtrancl_refl)
qed

lemma fill: "k \<le> queue_capacity \<Longrightarrow> recheck_step\<^sup>*\<^sup>* (pending 0 None r) (pending k None r)"
proof (induction k)
  case (Suc k)
  then show ?case using step_fill [of k r] by (meson Suc_leD Suc_le_lessD rtranclp_trans)
qed simp

lemma deadlock_reached: "recheck_reach (pending queue_capacity (Some ''a'') (Some ''a''))"
proof -
  have 1: "recheck_step\<^sup>*\<^sup>* recheck_init (pending 1 None None)"
    using fill [of 1 None] by (simp add: recheck_init_def queue_capacity_def)
  have 2: "recheck_step (pending 1 None None) (pending 0 None (Some ''a''))"
    using rs_receive [of "pending 1 None None" "''a''" "[]"] by simp
  have 3: "recheck_step\<^sup>*\<^sup>* (pending 0 None (Some ''a'')) (pending queue_capacity None (Some ''a''))"
    by (rule fill) simp
  from 1 2 3 step_enter [of queue_capacity "Some ''a''"] show ?thesis
    by (meson rtranclp.rtrancl_into_rtrancl rtranclp_trans)
qed

text \<open>The recheck queue never holds more than ten roots, and the rechecks come to a stop only in one
  situation: a sender holds the lock and waits for a place in the full queue while the
  receiver, which would make a place, waits for the lock.  That situation can be reached.\<close>

theorem recheck_deadlock:
  "(\<forall>s. recheck_reach s \<longrightarrow> length (queuedRechecks s) \<le> 10 \<and> ((\<nexists>s'. recheck_step s s') \<longleftrightarrow> deadlocked s))
   \<and> (\<exists>s. recheck_reach s \<and> deadlocked s)"
proof (intro conjI allI impI)
  fix s
  assume "recheck_reach s"
  then have "length (queuedRechecks s) \<le> queue_capacity" by (rule queue_bounded)
  then show "length (queuedRechecks s) \<le> 10" "(\<nexists>s'. recheck_step s s') \<longleftrightarrow> deadlocked s"
    using stuck_iff_deadlocked by (simp_all add: queue_capacity_def)
next
  have "deadlocked (pending queue_capacity (Some ''a'') (Some ''a''))" by (simp add: deadlocked_def)
  then show "\<exists>s. recheck_reach s \<and> deadlocked s" using deadlock_reached by blast
qed

theorem recheck_deadlock_witness:
  "recheck_reach recheck_init \<and> (\<exists>s'. recheck_step recheck_init s')"
proof -
  have "recheck_reach recheck_init" by simp
  moreover have "\<not> deadlocked recheck_init" by (simp add: deadlocked_def recheck_init_def)
  ultimately show ?thesis using recheck_deadlock by blast
qed

end
