(* ===== verification/RecheckAll.thy ===== *)
theory RecheckAll
  imports Recheck
begin

text \<open>
  Both queues of \<^verbatim>\<open>configwatcher/zk_recheck.go\<close>: one goroutine (\<^verbatim>\<open>receiveRecheck\<close>) takes the roots and the schema files whose update
  failed out of two channels, so it waits for one lock at a time.  The roots are those of \<^verbatim>\<open>Recheck\<close>; a schema
  file is queued (\<^verbatim>\<open>addToSchemaRecheckQueue\<close>) unless it is noted already, in a channel of five places.
\<close>

definition schema_capacity :: nat where
  "schema_capacity = 5"

record rechecks =
  roots :: recheck_state
  queuedSchemaRechecks :: "string list"
  failedConfigSchemas :: "string set"
  schema_holder :: "string option"
  schema_received :: "string option"

text \<open>The receiver takes from a channel only when it has nothing in hand.\<close>

definition one_hand :: "recheck_state \<Rightarrow> string option \<Rightarrow> bool" where
  "one_hand r sr \<longleftrightarrow> received r = None \<or> sr = None"

inductive rechecks_step :: "rechecks \<Rightarrow> rechecks \<Rightarrow> bool" where
  ra_root: "recheck_step (roots s) r \<Longrightarrow> one_hand r (schema_received s) \<Longrightarrow> rechecks_step s (s\<lparr>roots := r\<rparr>)"
| ra_enter: "schema_holder s = None \<Longrightarrow> f \<notin> failedConfigSchemas s \<Longrightarrow> rechecks_step s (s\<lparr>schema_holder := Some f\<rparr>)"
| ra_send: "schema_holder s = Some f \<Longrightarrow> length (queuedSchemaRechecks s) < schema_capacity
    \<Longrightarrow> rechecks_step s (s\<lparr>queuedSchemaRechecks := queuedSchemaRechecks s @ [f], schema_holder := None\<rparr>)"
| ra_receive: "schema_received s = None \<Longrightarrow> received (roots s) = None \<Longrightarrow> queuedSchemaRechecks s = f # q
    \<Longrightarrow> rechecks_step s (s\<lparr>queuedSchemaRechecks := q, schema_received := Some f\<rparr>)"
| ra_note: "schema_received s = Some f \<Longrightarrow> schema_holder s = None
    \<Longrightarrow> rechecks_step s (s\<lparr>failedConfigSchemas := insert f (failedConfigSchemas s), schema_received := None\<rparr>)"
| ra_wake: "f \<in> failedConfigSchemas s \<Longrightarrow> schema_holder s = None
    \<Longrightarrow> rechecks_step s (s\<lparr>failedConfigSchemas := failedConfigSchemas s - {f}\<rparr>)"

definition rechecks_init :: rechecks where
  "rechecks_init = \<lparr>roots = recheck_init, queuedSchemaRechecks = [], failedConfigSchemas = {}, schema_holder = None, schema_received = None\<rparr>"

abbreviation rechecks_reach :: "rechecks \<Rightarrow> bool" where
  "rechecks_reach s \<equiv> rechecks_step\<^sup>*\<^sup>* rechecks_init s"

inductive_cases rechecks_stepE: "rechecks_step s s'"

definition schema_deadlocked :: "rechecks \<Rightarrow> bool" where
  "schema_deadlocked s \<longleftrightarrow> schema_holder s \<noteq> None \<and> length (queuedSchemaRechecks s) = schema_capacity \<and> schema_received s \<noteq> None"

interpretation receiver: reachable_invariant rechecks_step "\<lambda>s. one_hand (roots s) (schema_received s)" "\<lambda>s. s = rechecks_init"
  by unfold_locales (auto simp: one_hand_def rechecks_init_def elim: rechecks_stepE)

lemma one_hand_reach: "rechecks_reach s \<Longrightarrow> one_hand (roots s) (schema_received s)"
  by (rule receiver.inv_reach) simp_all

text \<open>A deadlock of the roots: the state of the roots does not change any more, and no schema file is noted any more.\<close>

definition roots_dead :: "rechecks \<Rightarrow> bool" where
  "roots_dead s \<longleftrightarrow> deadlocked (roots s) \<and> schema_received s = None"

lemma roots_dead_step:
  assumes "rechecks_step s s'" and "roots_dead s"
  shows "roots_dead s' \<and> roots s' = roots s \<and> failedConfigSchemas s' \<subseteq> failedConfigSchemas s"
  using assms by (cases rule: rechecks_step.cases) (auto simp: roots_dead_def deadlocked_def elim: rs_stepE)

lemma schema_dead_step:
  assumes "rechecks_step s s'" and "schema_deadlocked s" and "received (roots s) = None"
  shows "schema_deadlocked s' \<and> received (roots s') = None \<and> failedConfigItemRoots (roots s') \<subseteq> failedConfigItemRoots (roots s)"
  using assms by (cases rule: rechecks_step.cases) (auto simp: schema_deadlocked_def one_hand_def elim: rs_stepE)

interpretation dead_roots: step_progress rechecks_step roots_dead
    "\<lambda>s s'. roots s' = roots s \<and> failedConfigSchemas s' \<subseteq> failedConfigSchemas s"
  by unfold_locales (auto dest: roots_dead_step)

interpretation dead_schemas: step_progress rechecks_step "\<lambda>s. schema_deadlocked s \<and> received (roots s) = None"
    "\<lambda>s s'. failedConfigItemRoots (roots s') \<subseteq> failedConfigItemRoots (roots s)"
  by unfold_locales (auto dest: schema_dead_step)

lemma lift_roots:
  "recheck_step\<^sup>*\<^sup>* r r' \<Longrightarrow> schema_received s = None \<Longrightarrow> roots s = r \<Longrightarrow> rechecks_step\<^sup>*\<^sup>* s (s\<lparr>roots := r'\<rparr>)"
proof (induction rule: rtranclp_induct)
  case (step y z)
  have "rechecks_step (s\<lparr>roots := y\<rparr>) (s\<lparr>roots := y, roots := z\<rparr>)"
    using step by (intro ra_root) (auto simp: one_hand_def)
  then show ?case using step by (auto intro: rtranclp.rtrancl_into_rtrancl)
qed auto

text \<open>C36: the two queues of failed updates have one receiver, and a deadlock of one of them ends the rechecks of both: when the receiver waits for the lock of the
  roots while its holder waits for a place in the full queue, nothing changes for the roots any more and no
  schema file is noted for a recheck any more; the same holds with the roles exchanged.  The deadlock can be reached.\<close>

theorem recheck_stops_all:
  "(\<forall>s s'. rechecks_reach s \<and> deadlocked (roots s) \<and> rechecks_step\<^sup>*\<^sup>* s s' \<longrightarrow>
      roots s' = roots s \<and> failedConfigSchemas s' \<subseteq> failedConfigSchemas s)
   \<and> (\<forall>s s'. rechecks_reach s \<and> schema_deadlocked s \<and> rechecks_step\<^sup>*\<^sup>* s s' \<longrightarrow>
      schema_deadlocked s' \<and> failedConfigItemRoots (roots s') \<subseteq> failedConfigItemRoots (roots s))
   \<and> (\<exists>s. rechecks_reach s \<and> deadlocked (roots s))"
proof (intro conjI allI impI; (elim conjE)?)
  fix s s' assume s: "rechecks_reach s" "deadlocked (roots s)" "rechecks_step\<^sup>*\<^sup>* s s'"
  then have "roots_dead s" using one_hand_reach [of s] by (auto simp: roots_dead_def one_hand_def deadlocked_def)
  then show "roots s' = roots s" "failedConfigSchemas s' \<subseteq> failedConfigSchemas s" using dead_roots.rel_steps s(3) by blast+
next
  fix s s' assume s: "rechecks_reach s" "schema_deadlocked s" "rechecks_step\<^sup>*\<^sup>* s s'"
  then have "schema_deadlocked s \<and> received (roots s) = None" using one_hand_reach [of s] by (auto simp: schema_deadlocked_def one_hand_def)
  then show "schema_deadlocked s'" "failedConfigItemRoots (roots s') \<subseteq> failedConfigItemRoots (roots s)" using dead_schemas.inv_steps dead_schemas.rel_steps s(3) by blast+
next
  have "rechecks_reach (rechecks_init\<lparr>roots := pending queue_capacity (Some ''a'') (Some ''a'')\<rparr>)"
    using lift_roots [OF deadlock_reached, of rechecks_init] by (simp add: rechecks_init_def)
  then show "\<exists>s. rechecks_reach s \<and> deadlocked (roots s)"
    by (intro exI [of _ "rechecks_init\<lparr>roots := pending queue_capacity (Some ''a'') (Some ''a'')\<rparr>"]) (simp add: deadlocked_def)
qed

theorem recheck_stops_all_witness:
  "\<exists>s s'. rechecks_reach s \<and> deadlocked (roots s) \<and> rechecks_step s s' \<and> s' \<noteq> s \<and> roots s' = roots s
     \<and> failedConfigSchemas s' \<subseteq> failedConfigSchemas s"
proof -
  let ?s = "rechecks_init\<lparr>roots := pending queue_capacity (Some ''a'') (Some ''a'')\<rparr>"
  let ?t = "?s\<lparr>schema_holder := Some ''f''\<rparr>"
  have r: "rechecks_reach ?s" using lift_roots [OF deadlock_reached, of rechecks_init] by (simp add: rechecks_init_def)
  have d: "deadlocked (roots ?s)" by (simp add: deadlocked_def)
  have st: "rechecks_step ?s ?t" by (rule ra_enter) (simp_all add: rechecks_init_def)
  have "?t \<noteq> ?s" by (simp add: rechecks_init_def)
  with r d st show ?thesis using recheck_stops_all [THEN conjunct1, rule_format, of ?s ?t] by blast
qed

end
