(* ===== verification/Framing.thy ===== *)
theory Framing
  imports GoStrings
begin

text \<open>
  The frames of the local protocol (\<^verbatim>\<open>connection/conn_handler.go\<close>): \<^verbatim>\<open>response\<close>,
  \<^verbatim>\<open>parseHeadTagLength\<close>, \<^verbatim>\<open>isTagClose\<close> and \<^verbatim>\<open>readRequest\<close>.  A request is its length in
  decimal digits, filled up with zero bytes to 8, and its body; an answer is the length of its
  data, a status, both filled up to 8, and the data.

  What arrives on a connection is a list of events: the packets as they come in, and an error
  (the end of the stream, a deadline).  A read takes at most what fits into the buffer and leaves the
  rest of a packet.  Of the error of \<^verbatim>\<open>strconv\<close> only the reason is kept.  A read on a connection on which nothing arrives any more does not return: \<open>None\<close>.
\<close>

definition HEAD_TAG_LENGTH :: nat where "HEAD_TAG_LENGTH = 8"
definition STATUS_TAG_LENGTH :: nat where "STATUS_TAG_LENGTH = 8"

definition tagClose :: bytes where
  "tagClose = ''CLOSE''"

definition io_EOF :: goerr where
  "io_EOF = ErrText ''EOF''"

record Request =
  Closed :: bool
  Body :: "bytes option"
  ReqErr :: "goerr option"

datatype event = Data bytes | Fail goerr

section \<open>Answers\<close>

text \<open>\<^verbatim>\<open>append([]byte(s), make([]byte, 8-len(s))...)\<close>\<close>

definition pad_tag :: "nat \<Rightarrow> string \<Rightarrow> bytes res" where
  "pad_tag n s =
     (if length s \<le> n then Ok (s @ replicate (n - length s) (CHR 0x00)) else Panic ''makeslice: len out of range'')"

text \<open>\<open>werr i\<close> is the error of the \<open>i\<close>-th write; the result is the error and what was written before it.\<close>

definition response :: "(nat \<Rightarrow> goerr option) \<Rightarrow> string \<Rightarrow> bytes \<Rightarrow> (goerr option \<times> bytes) res" where
  "response werr status data =
     res_bind (pad_tag STATUS_TAG_LENGTH status) (\<lambda>statusTag.
     res_bind (pad_tag 8 (Itoa (int (length data)))) (\<lambda>headTag.
       Ok (case werr 0 of
             Some e \<Rightarrow> (Some e, [])
           | None \<Rightarrow>
               (case werr 1 of
                  Some e \<Rightarrow> (Some e, headTag)
                | None \<Rightarrow>
                    (case werr 2 of
                       Some e \<Rightarrow> (Some e, headTag @ statusTag)
                     | None \<Rightarrow> (None, headTag @ statusTag @ data))))))"

section \<open>Requests\<close>

definition isTagClose :: "bytes \<Rightarrow> bool" where
  "isTagClose tag \<longleftrightarrow> tag = tagClose"

definition parseHeadTagLength :: "bytes \<Rightarrow> bytes" where
  "parseHeadTagLength tag = takeWhile (\<lambda>c. c \<noteq> CHR 0x00) (take HEAD_TAG_LENGTH tag)"

text \<open>
  The loop that fills a buffer: \<open>need\<close> bytes are missing, \<open>got\<close> is there.  It gives what is in the
  buffer, the error that ended it, and what is left on the connection.
\<close>

fun read_full :: "nat \<Rightarrow> bytes \<Rightarrow> event list \<Rightarrow> (bytes \<times> goerr option \<times> event list) option" where
  "read_full need got evs =
     (if need = 0 then Some (got, None, evs)
      else case evs of
             [] \<Rightarrow> None
           | Fail e # evs' \<Rightarrow> Some (got, Some e, evs')
           | Data d # evs' \<Rightarrow>
               if length d \<le> need then read_full (need - length d) (got @ d) evs'
               else Some (got @ take need d, None, Data (drop need d) # evs'))"

declare read_full.simps [simp del]

definition readRequest :: "event list \<Rightarrow> (Request \<times> event list) option" where
  "readRequest evs =
     (case read_full HEAD_TAG_LENGTH [] evs of
        None \<Rightarrow> None
      | Some (headerTag, Some e, evs') \<Rightarrow>
          (let start = length headerTag;
               headComplete = (take 5 (headerTag @ replicate (HEAD_TAG_LENGTH - start) (CHR 0x00)) = tagClose)
           in Some (if start > 0 \<and> \<not> headComplete
                    then \<lparr>Closed = False, Body = None,
                          ReqErr = Some (ErrText (''client data length read error: '' @ err_text e))\<rparr>
                    else \<lparr>Closed = True, Body = None, ReqErr = None\<rparr>, evs'))
      | Some (headerTag, None, evs') \<Rightarrow>
          (let headerTagLength = parseHeadTagLength headerTag in
           if isTagClose headerTagLength then Some (\<lparr>Closed = True, Body = None, ReqErr = None\<rparr>, evs')
           else case Atoi headerTagLength of
                  Ok bodyLength \<Rightarrow>
                    if bodyLength < 1 then
                      Some (\<lparr>Closed = False, Body = None,
                             ReqErr = Some (ErrText (map char_of [0xE6, 0x95, 0xB0, 0xE6, 0x8D, 0xAE, 0xE9, 0x95, 0xBF, 0xE5, 0xBA, 0xA6,
                               0xE5, 0xB0, 0x8F, 0xE4, 0xBA, 0x8E, 0x31, 0x2E :: nat]))\<rparr>, evs')
                    else
                      (case read_full (nat bodyLength) [] evs' of
                         None \<Rightarrow> None
                       | Some (b, e, evs'') \<Rightarrow>
                           Some (\<lparr>Closed = False, Body = Some (b @ replicate (nat bodyLength - length b) (CHR 0x00)),
                                  ReqErr = (case e of
                                     None \<Rightarrow> None
                                   | Some e \<Rightarrow>
                                       if e \<noteq> io_EOF \<and> int (length b) < bodyLength - 1
                                       then Some (ErrText ''client data read premature'')
                                       else Some (ErrText (''read client data error: '' @ err_text e)))\<rparr>, evs''))
                | r \<Rightarrow> Some (\<lparr>Closed = False, Body = None,
                              ReqErr = Some (ErrText (''Request length parse error: ''
                                @ (case r of Err e \<Rightarrow> err_text e | _ \<Rightarrow> [])))\<rparr>, evs')))"

section \<open>Reading does not depend on the packets\<close>

text \<open>What a list of packets without an error holds.\<close>

fun packets :: "event list \<Rightarrow> bytes option" where
  "packets [] = Some []"
| "packets (Data d # evs) = map_option (\<lambda>r. d @ r) (packets evs)"
| "packets (Fail e # evs) = None"

lemma read_full_packets:
  "packets evs = Some (x @ rest) \<Longrightarrow>
     \<exists>evs'. read_full (length x) got evs = Some (got @ x, None, evs') \<and> packets evs' = Some rest"
proof (induction evs arbitrary: x got)
  case Nil
  then show ?case by (auto simp: read_full.simps)
next
  case (Cons ev evs)
  then obtain d r where ev: "ev = Data d" "packets evs = Some r" "d @ r = x @ rest"
    by (cases ev) auto
  show ?case
  proof (cases "x = []")
    case True
    then show ?thesis using ev by (simp add: read_full.simps)
  next
    case False
    show ?thesis
    proof (cases "length d \<le> length x")
      case True
      then obtain y where y: "x = d @ y" "r = y @ rest" using ev(3) by (auto simp: append_eq_append_conv2)
      then show ?thesis
        using Cons.IH [of y "got @ d"] ev(2) False by (subst read_full.simps) (simp add: ev(1))
    next
      case longer: False
      then obtain z where z: "d = x @ z" "rest = z @ r" using ev(3) by (auto simp: append_eq_append_conv2)
      then show ?thesis using longer False ev(2) by (subst read_full.simps) (simp add: ev(1))
    qed
  qed
qed

text \<open>A request as a client writes it.\<close>

definition request_frame :: "bytes \<Rightarrow> bytes" where
  "request_frame body = (let l = nat_digits (length body) in l @ replicate (8 - length l) (CHR 0x00) @ body)"

lemma Itoa_nat: "Itoa (int n) = nat_digits n"
  by (simp add: Itoa_def)

lemma takeWhile_padded: "c \<notin> set s \<Longrightarrow> takeWhile (\<lambda>x. x \<noteq> c) (s @ replicate k c) = s"
  by (induction s) (cases k, auto)

lemma parse_padded:
  assumes "n < 10 ^ 8"
  shows "length (nat_digits n) \<le> 8"
    and "parseHeadTagLength (nat_digits n @ replicate (8 - length (nat_digits n)) (CHR 0x00) @ r) = nat_digits n"
proof -
  show len: "length (nat_digits n) \<le> 8" using length_nat_digits [of n 7] assms by simp
  have "takeWhile (\<lambda>c. c \<noteq> CHR 0x00) (nat_digits n @ replicate k (CHR 0x00)) = nat_digits n" for k
    using nat_digits_no_NUL by (rule takeWhile_padded)
  then show "parseHeadTagLength (nat_digits n @ replicate (8 - length (nat_digits n)) (CHR 0x00) @ r) = nat_digits n"
    using len by (simp add: parseHeadTagLength_def HEAD_TAG_LENGTH_def)
qed

lemma digits_not_close: "nat_digits n \<noteq> tagClose"
proof
  assume "nat_digits n = tagClose"
  then have "is_digit (hd tagClose)" using hd_nat_digits [of n] by simp
  then show False by (simp add: tagClose_def is_digit_def)
qed

lemma readRequest_frame:
  assumes "body \<noteq> []" and "length body < 10 ^ 8" and "packets evs = Some (request_frame body @ rest)"
  shows "\<exists>evs'. readRequest evs = Some (\<lparr>Closed = False, Body = Some body, ReqErr = None\<rparr>, evs')
    \<and> packets evs' = Some rest"
proof -
  let ?l = "nat_digits (length body)"
  let ?h = "?l @ replicate (8 - length ?l) (CHR 0x00)"
  note l = parse_padded [OF assms(2)]
  have h: "length ?h = HEAD_TAG_LENGTH" using l(1) by (simp add: HEAD_TAG_LENGTH_def)
  have "packets evs = Some (?h @ body @ rest)" using assms(3) by (simp add: request_frame_def Let_def)
  from read_full_packets [OF this, of "[]"] h obtain evs1 where
    r1: "read_full HEAD_TAG_LENGTH [] evs = Some (?h, None, evs1)" "packets evs1 = Some (body @ rest)" by auto
  from read_full_packets [OF r1(2), of "[]"] obtain evs2 where
    r2: "read_full (length body) [] evs1 = Some (body, None, evs2)" "packets evs2 = Some rest" by auto
  have "Atoi ?l = Ok (int (length body))"
    using Atoi_Itoa [of "int (length body)"] assms(2) by (simp add: Itoa_nat)
  moreover have "parseHeadTagLength ?h = ?l" using l(2) [of "[]"] by simp
  ultimately show ?thesis
    using r1 r2 assms(1) digits_not_close by (simp add: readRequest_def isTagClose_def Let_def Suc_le_eq)
qed

text \<open>C10: a request of up to 99999999 bytes that a client frames is read back as it was sent, however the
  network cuts the stream into packets, and what follows it on the connection is left for the next read.\<close>

theorem readRequest_any_packets:
  assumes "body \<noteq> []" and "length body < 10 ^ 8" and "packets evs = Some (request_frame body @ rest)"
  shows "\<exists>evs'. readRequest evs = Some (\<lparr>Closed = False, Body = Some body, ReqErr = None\<rparr>, evs')
    \<and> packets evs' = Some rest"
  using assms by (rule readRequest_frame)

theorem readRequest_any_packets_witness:
  "\<exists>evs'. readRequest [Data ''1'', Data [CHR 0x00], Data (replicate 6 (CHR 0x00) @ ''xCLO''), Data ''SE'']
       = Some (\<lparr>Closed = False, Body = Some ''x'', ReqErr = None\<rparr>, evs')
     \<and> packets evs' = Some ''CLOSE''"
proof -
  have "request_frame ''x'' = ''1'' @ [CHR 0x00] @ replicate 6 (CHR 0x00) @ ''x''" by code_simp
  then show ?thesis
    using readRequest_any_packets [of "''x''"
        "[Data ''1'', Data [CHR 0x00], Data (replicate 6 (CHR 0x00) @ ''xCLO''), Data ''SE'']" "''CLOSE''"]
    by simp
qed

section \<open>What an answer looks like\<close>

text \<open>How a client reads an answer: length, status, data.\<close>

definition parse_response :: "bytes \<Rightarrow> (int res \<times> string \<times> bytes)" where
  "parse_response out =
     (Atoi (parseHeadTagLength (take 8 out)), takeWhile (\<lambda>c. c \<noteq> CHR 0x00) (take 8 (drop 8 out)), drop 16 out)"

text \<open>The bytes of an answer.\<close>

definition answer_frame :: "string \<Rightarrow> bytes \<Rightarrow> bytes" where
  "answer_frame status data =
     (let l = nat_digits (length data) in
      l @ replicate (8 - length l) (CHR 0x00) @ status @ replicate (8 - length status) (CHR 0x00) @ data)"

lemma pad_tag_Ok: "length s \<le> n \<Longrightarrow> pad_tag n s = Ok (s @ replicate (n - length s) (CHR 0x00))"
  by (simp add: pad_tag_def)

lemma response_frame:
  assumes "length status \<le> 8" and "length data < 10 ^ 8"
  shows "response (\<lambda>_. None) status data = Ok (None, answer_frame status data)"
  using assms parse_padded(1) [OF assms(2)]
  by (simp add: response_def pad_tag_Ok STATUS_TAG_LENGTH_def Itoa_nat answer_frame_def Let_def)

text \<open>An answer of less than 100000000 bytes with a status of at most 8 bytes is written as 16 bytes and its
  data, from which a client reads back its length, its status and its data; with a longer status or more
  data \<^verbatim>\<open>response\<close> panics, and nothing is written.\<close>

theorem response_bounds:
  assumes "CHR 0x00 \<notin> set status"
  shows "if length status \<le> 8 \<and> length data < 10 ^ 8
    then \<exists>out. response (\<lambda>_. None) status data = Ok (None, out) \<and> length out = 16 + length data
      \<and> parse_response out = (Ok (int (length data)), status, data)
    else \<exists>m. \<forall>werr. response werr status data = Panic m"
proof (cases "length status \<le> 8 \<and> length data < 10 ^ 8")
  case True
  let ?l = "nat_digits (length data)"
  let ?h = "?l @ replicate (8 - length ?l) (CHR 0x00)" and ?t = "status @ replicate (8 - length status) (CHR 0x00)"
  have l: "length ?l \<le> 8" "parseHeadTagLength ?h = ?l" using parse_padded(1) [of "length data"] parse_padded(2) [of "length data" "[]"] True by auto
  have "takeWhile (\<lambda>c. c \<noteq> CHR 0x00) ?t = status"
    using assms by (rule takeWhile_padded)
  moreover have "Atoi ?l = Ok (int (length data))"
    using Atoi_Itoa [of "int (length data)"] True by (simp add: Itoa_nat)
  moreover have "length ?h = 8" "length ?t = 8" using l(1) True by simp_all
  ultimately have "parse_response (?h @ ?t @ data) = (Ok (int (length data)), status, data)"
    using l(2) unfolding parse_response_def by (simp del: append_assoc add: append_assoc [symmetric])
  with response_frame [of status data] True l(1) show ?thesis by (auto simp: answer_frame_def Let_def)
next
  case False
  then consider "length status > 8" | "length status \<le> 8" "length data \<ge> 10 ^ 8" by linarith
  then show ?thesis
  proof cases
    case 1
    then show ?thesis by (simp add: response_def pad_tag_def STATUS_TAG_LENGTH_def)
  next
    case 2
    then have "8 < length (nat_digits (length data))" by (intro length_nat_digits_ge)
    with 2(1) False show ?thesis
      by (simp add: response_def pad_tag_def STATUS_TAG_LENGTH_def Itoa_nat)
  qed
qed

theorem response_bounds_witness:
  "\<exists>out. response (\<lambda>_. None) ''ok'' ''[1]'' = Ok (None, out) \<and> parse_response out = (Ok 3, ''ok'', ''[1]'')"
  using response_bounds [of "''ok''" "''[1]''"] by auto

end
