(* ===== verification/Statistics.thy ===== *)
theory Statistics
  imports Json GoStrings
begin

text \<open>
  \<^verbatim>\<open>connection/statistics.go\<close>: the counters of the requests, one table per minute, their
  collection, and the console that shows them.  The printing of a time and the indented print of
  a table are parameters; compression is the identity.
\<close>

section \<open>Counting\<close>

type_synonym ConnAction = int
type_synonym ConnActionStatus = int

definition MAX_IN_MEM_STATS_LENGTH :: int where "MAX_IN_MEM_STATS_LENGTH = 30"
definition CONNACTION_ACCEPT :: ConnAction where "CONNACTION_ACCEPT = 1"
definition CONNACTION_RESPONSE :: ConnAction where "CONNACTION_RESPONSE = 2"
definition CONNACTION_PROCESS_FIN :: ConnAction where "CONNACTION_PROCESS_FIN = 3"
definition CONNACTION_STATUS_OK :: ConnActionStatus where "CONNACTION_STATUS_OK = 1"
definition CONNACTION_STATUS_FAILED :: ConnActionStatus where "CONNACTION_STATUS_FAILED = 1"

lemmas conn_actions = CONNACTION_ACCEPT_def CONNACTION_RESPONSE_def CONNACTION_PROCESS_FIN_def
  CONNACTION_STATUS_OK_def CONNACTION_STATUS_FAILED_def

record StatsMessage =
  sm_cmd :: string
  sm_action :: ConnAction
  sm_status :: ConnActionStatus

record Stats =
  TotalReq :: int
  FinishedReq :: int
  FailedReq :: int

type_synonym stats_segs = "(int, (string, Stats) gomap) gomap"

text \<open>The start of the minute.\<close>

definition calIndex :: "int \<Rightarrow> int" where
  "calIndex now = now - now mod 60"

definition zero_stats :: Stats where
  "zero_stats = \<lparr>TotalReq = 0, FinishedReq = 0, FailedReq = 0\<rparr>"

definition count_stats :: "ConnActionStatus \<Rightarrow> Stats \<Rightarrow> Stats" where
  "count_stats status st =
     (let st' = st\<lparr>TotalReq := TotalReq st + 1\<rparr> in
      if status = CONNACTION_STATUS_OK then st'\<lparr>FinishedReq := FinishedReq st + 1\<rparr>
      else st'\<lparr>FailedReq := FailedReq st + 1\<rparr>)"

text \<open>One message at the receiver.\<close>

definition receive_stats :: "int \<Rightarrow> StatsMessage \<Rightarrow> stats_segs \<Rightarrow> stats_segs" where
  "receive_stats currentSegIndex cStats statsSegs =
     (if sm_action cStats \<noteq> CONNACTION_PROCESS_FIN then statsSegs
      else
        let newStatsSeg = (case mget statsSegs currentSegIndex of Some s \<Rightarrow> s | None \<Rightarrow> []);
            newStats = (case mget newStatsSeg (sm_cmd cStats) of Some s \<Rightarrow> s | None \<Rightarrow> zero_stats)
        in mset statsSegs currentSegIndex
             (mset newStatsSeg (sm_cmd cStats) (count_stats (sm_status cStats) newStats)))"

text \<open>A run of the receiver: the messages with the minute at which each is taken.\<close>

definition receive_all :: "(int \<times> StatsMessage) list \<Rightarrow> stats_segs \<Rightarrow> stats_segs" where
  "receive_all msgs statsSegs = fold (\<lambda>(i, m). receive_stats i m) msgs statsSegs"

section \<open>Collecting old tables\<close>

definition gc_stats :: "int \<Rightarrow> stats_segs \<Rightarrow> stats_segs" where
  "gc_stats currentSegIndex statsSegs =
     (let statsSegLength = int (length statsSegs);
          delRangeLength = statsSegLength - MAX_IN_MEM_STATS_LENGTH * 24 * 60
      in if delRangeLength < 1 then statsSegs
         else foldl (\<lambda>segs i. mdel segs (currentSegIndex - (MAX_IN_MEM_STATS_LENGTH * 24 + i) * 60))
                statsSegs [1..delRangeLength])"

section \<open>The export\<close>

definition stats_json :: "Stats \<Rightarrow> json" where
  "stats_json s = JStruct [(''TotalReq'', JInt (TotalReq s)), (''FinishedReq'', JInt (FinishedReq s)),
     (''FailedReq'', JInt (FailedReq s))]"

definition seg_json :: "(string, Stats) gomap \<Rightarrow> json" where
  "seg_json seg = JObj (map (map_prod id stats_json) seg)"

text \<open>\<^verbatim>\<open>sendStatsToConsole\<close>; the pieces in the order in which they are written.\<close>

definition stats_plain :: "(int \<Rightarrow> string) \<Rightarrow> (json \<Rightarrow> bytes res) \<Rightarrow> stats_segs \<Rightarrow> bytes list" where
  "stats_plain rfc3339 marshal_indent statsSegs =
     concat (map (\<lambda>index.
        (rfc3339 index @ [CHR 0x0A]) #
        (case marshal_indent (seg_json (the (mget statsSegs index))) of
           Ok re \<Rightarrow> [re, [CHR 0x0A, CHR 0x0A, CHR 0x0A]]
         | Err e \<Rightarrow> [''Failed to format stats: '' @ err_text e @ [CHR 0x0A]]
         | Panic m \<Rightarrow> [])) (sort (map fst statsSegs)))"

definition stats_compressed :: "stats_segs \<Rightarrow> bytes list" where
  "stats_compressed statsSegs =
     (let keysInt = sort (map fst statsSegs); kl = length keysInt - 1 in
      [[CHR 0x7B]]
      @ concat (map (\<lambda>(i, indexInt).
          [[CHR 0x22] @ Itoa indexInt @ [CHR 0x22] @ '': '',
           marshal (\<lambda>_. []) (seg_json (the (mget statsSegs indexInt))) @ (if i < kl then '','' else [])])
          (enumerate 0 keysInt))
      @ [[CHR 0x7D]])"

section \<open>The console\<close>

text \<open>
  The buffer of 51 bytes, how much of it is filled, and whether the last character was a carriage return.
\<close>

record console =
  con_cmd :: bytes
  con_start :: nat
  cmdOverHashEnter :: bool

datatype console_out = Say bytes | SendStats bool

definition new_console :: console where
  "new_console = \<lparr>con_cmd = replicate 51 (CHR 0x00), con_start = 0, cmdOverHashEnter = False\<rparr>"

definition console_help :: bytes where
  "console_help = ''command list:'' @ [CHR 0x0A] @ ''    stats               show statistics as json.'' @ [CHR 0x0A]
     @ ''    statsz              export statistics as gziped json data and exit console.'' @ [CHR 0x0A]
     @ ''    quit,close          quit console.'' @ [CHR 0x0A]"

text \<open>What a command writes, and whether it closes the console.\<close>

definition run_command :: "bytes \<Rightarrow> console_out list \<times> bool" where
  "run_command cmd =
     (let c = ToLower cmd in
      if c = [] then ([], False)
      else if c = ''stats'' then ([SendStats False], False)
      else if c = ''statsz'' then ([SendStats True], False)
      else if c = ''quit'' \<or> c = ''exit'' \<or> c = ''close'' then ([Say (''Byte'' @ [CHR 0x0A])], True)
      else if c = ''help'' then ([Say console_help], False)
      else ([Say (''Invalid command: '' @ cmd @ [CHR 0x0A]
               @ ''Availabe commands are 'stats','quit','close','statsz'' @ [CHR 0x27, CHR 0x0A])], False))"

text \<open>
  The characters \<open>cmd[i]\<close> for \<open>i < n\<close>: the loop counts from the start of the buffer, wherever the packet was
  put.  \<open>Inl\<close>: a command was found and run; \<open>Inr\<close>: none was, and this is the flag.
\<close>

fun scan_cmd :: "bytes \<Rightarrow> bool \<Rightarrow> bytes \<Rightarrow> (console_out list \<times> bool) + bool" where
  "scan_cmd cmd hashEnter [] = Inr hashEnter"
| "scan_cmd cmd hashEnter (c # rest) =
     (if c = CHR 0x0D then scan_cmd cmd True rest
      else if c = CHR 0x0A then
        (if hashEnter then
           (if rest \<noteq> [] then scan_cmd cmd False rest
            else Inl (run_command (TrimRight cmd [CHR 0x0D, CHR 0x0A, CHR 0x00])))
         else scan_cmd cmd False rest)
      else scan_cmd cmd False rest)"

text \<open>
  One packet at the console: the new console, or \<open>None\<close> when it is closed, and what was written.  A packet
  holds at most what fits into the buffer.
\<close>

definition console_read :: "bytes \<Rightarrow> console \<Rightarrow> console option \<times> console_out list" where
  "console_read d con =
     (let n = length d;
          cmd = take (con_start con) (con_cmd con) @ d @ drop (con_start con + n) (con_cmd con)
      in case scan_cmd cmd (cmdOverHashEnter con) (take n cmd) of
           Inl (out, bye) \<Rightarrow> (if bye then None else Some new_console, out)
         | Inr hashEnter \<Rightarrow>
             (let start = con_start con + n in
              if start \<ge> 50
              then (None, [Say (''Invalid command: '' @ cmd @ '' '' @ [CHR 0x0A] @ ''command  exceeded 50 chars.'' @ [CHR 0x0A])])
              else (Some \<lparr>con_cmd = cmd, con_start = start, cmdOverHashEnter = hashEnter\<rparr>, [])))"

section \<open>What is counted\<close>

definition seg_ok :: "(string, Stats) gomap \<Rightarrow> bool" where
  "seg_ok seg \<longleftrightarrow> (\<forall>c st. mget seg c = Some st \<longrightarrow>
     TotalReq st = FinishedReq st + FailedReq st \<and> FinishedReq st \<ge> 0 \<and> FailedReq st = 0)"

definition stats_ok :: "stats_segs \<Rightarrow> bool" where
  "stats_ok segs \<longleftrightarrow> (\<forall>i seg. mget segs i = Some seg \<longrightarrow> seg_ok seg)"

definition total :: "int \<Rightarrow> string \<Rightarrow> stats_segs \<Rightarrow> int" where
  "total i c segs = (case mget segs i of None \<Rightarrow> 0 | Some seg \<Rightarrow> (case mget seg c of None \<Rightarrow> 0 | Some st \<Rightarrow> TotalReq st))"

definition wf_msg :: "StatsMessage \<Rightarrow> bool" where
  "wf_msg m \<longleftrightarrow> sm_status m \<in> {CONNACTION_STATUS_OK, CONNACTION_STATUS_FAILED}"

lemma receive_stats_ok:
  assumes "stats_ok segs" and "wf_msg m"
  shows "stats_ok (receive_stats i m segs)"
proof -
  have status: "sm_status m = CONNACTION_STATUS_OK" using assms(2) by (auto simp: wf_msg_def conn_actions)
  have "seg_ok (case mget segs i of Some s \<Rightarrow> s | None \<Rightarrow> [])"
    using assms(1) by (auto simp: stats_ok_def seg_ok_def split: option.split)
  then have "seg_ok (mset seg c (count_stats (sm_status m) (case mget seg c of Some s \<Rightarrow> s | None \<Rightarrow> zero_stats)))"
    if "seg = (case mget segs i of Some s \<Rightarrow> s | None \<Rightarrow> [])" for seg c
    using that status by (fastforce simp: seg_ok_def count_stats_def zero_stats_def Let_def split: option.split)
  then show ?thesis using assms(1) by (auto simp: stats_ok_def receive_stats_def Let_def)
qed

lemma receive_stats_total:
  "total j c (receive_stats i m segs) =
     total j c segs + (if sm_action m = CONNACTION_PROCESS_FIN \<and> sm_cmd m = c \<and> i = j then 1 else 0)"
  by (auto simp: total_def receive_stats_def count_stats_def zero_stats_def Let_def split: option.split)

text \<open>C30: after any run of the receiver every counter of a minute is the number of finished requests that were
  reported in it; all of them are counted as finished and none as failed, since the two states have the
  same value.\<close>

theorem receive_all_counts:
  assumes "\<forall>(i, m) \<in> set msgs. wf_msg m"
  shows "stats_ok (receive_all msgs []) \<and> total i c (receive_all msgs []) =
    int (length (filter (\<lambda>(j, m). j = i \<and> sm_cmd m = c \<and> sm_action m = CONNACTION_PROCESS_FIN) msgs))"
proof -
  have "stats_ok (receive_all msgs segs) \<and> total i c (receive_all msgs segs) = total i c segs +
      int (length (filter (\<lambda>(j, m). j = i \<and> sm_cmd m = c \<and> sm_action m = CONNACTION_PROCESS_FIN) msgs))"
    if "stats_ok segs" for segs
    using assms that
  proof (induction msgs arbitrary: segs)
    case (Cons jm msgs)
    obtain j m where jm: "jm = (j, m)" by (cases jm)
    have "stats_ok (receive_stats j m segs)" using Cons.prems jm by (simp add: receive_stats_ok)
    from Cons.IH [OF _ this] show ?case
      using Cons.prems(1) jm by (auto simp: receive_all_def receive_stats_total)
  qed (simp add: receive_all_def)
  from this [of "[]"] show ?thesis by (simp add: stats_ok_def total_def)
qed

theorem receive_all_counts_witness:
  "total 60 ''GetProjectConfig'' (receive_all
     [(60, \<lparr>sm_cmd = ''GetProjectConfig'', sm_action = CONNACTION_ACCEPT, sm_status = CONNACTION_STATUS_OK\<rparr>),
      (60, \<lparr>sm_cmd = ''GetProjectConfig'', sm_action = CONNACTION_PROCESS_FIN, sm_status = CONNACTION_STATUS_FAILED\<rparr>)] []) = 1"
  using receive_all_counts [of "[(60, \<lparr>sm_cmd = ''GetProjectConfig'', sm_action = CONNACTION_ACCEPT, sm_status = CONNACTION_STATUS_OK\<rparr>),
      (60, \<lparr>sm_cmd = ''GetProjectConfig'', sm_action = CONNACTION_PROCESS_FIN, sm_status = CONNACTION_STATUS_FAILED\<rparr>)]"
      60 "''GetProjectConfig''"]
  by (simp add: wf_msg_def conn_actions)

section \<open>What is collected\<close>

lemma mget_foldl_mdel: "mget (foldl (\<lambda>m i. mdel m (f i)) m xs) k = (if k \<in> f ` set xs then None else mget m k)"
  by (induction xs arbitrary: m) auto

lemma mget_gc_stats:
  "mget (gc_stats cur segs) k =
     (if \<exists>i. 1 \<le> i \<and> i \<le> int (length segs) - 43200 \<and> k = cur - (720 + i) * 60 then None else mget segs k)"
  using mget_foldl_mdel [of "\<lambda>i. cur - (MAX_IN_MEM_STATS_LENGTH * 24 + i) * 60" segs "[1..int (length segs) - 43200]" k]
  by (auto simp: gc_stats_def MAX_IN_MEM_STATS_LENGTH_def)

text \<open>With more than 43200 minutes in memory the collector removes the minute of twelve hours ago and
  some before it, and never one that is older than twelve hours and the surplus: the oldest minutes stay.\<close>

theorem gc_stats_keeps_oldest:
  assumes "length segs > 43200"
    and "k < cur - (720 + (int (length segs) - 43200)) * 60"
  shows "mget (gc_stats cur segs) (cur - 721 * 60) = None \<and> mget (gc_stats cur segs) k = mget segs k"
  using assms by (auto simp: mget_gc_stats intro: exI [of _ 1])

theorem gc_stats_keeps_oldest_witness:
  "mget (gc_stats 6000000 (map (\<lambda>i. (60 * i, [])) [1..43201])) 60 = Some []"
proof -
  let ?segs = "map (\<lambda>i. (60 * i, [])) [1..43201] :: stats_segs"
  have "[1..43201] = (1::int) # [2..43201]" using upto_rec1 [of 1 43201] by (simp del: upto_rec_numeral)
  then have "mget ?segs 60 = Some []" by (simp del: upto_rec_numeral)
  then show ?thesis using gc_stats_keeps_oldest [of ?segs 60 6000000] by (simp del: upto_rec_numeral)
qed

section \<open>Commands of the console\<close>

lemma scan_no_newline: "CHR 0x0A \<notin> set xs \<Longrightarrow> \<exists>h. scan_cmd cmd e xs = Inr h"
  by (induction cmd e xs rule: scan_cmd.induct) auto

lemma scan_command:
  assumes "CHR 0x0A \<notin> set c"
  shows "scan_cmd cmd e (c @ [CHR 0x0D, CHR 0x0A]) = Inl (run_command (TrimRight cmd [CHR 0x0D, CHR 0x0A, CHR 0x00]))"
  using assms by (induction c arbitrary: e) auto

text \<open>A command that arrives with its line end in one packet is run; one that arrives in two packets is not,
  and stays in the buffer: the loop looks at the wrong part of the buffer.\<close>

theorem console_one_packet_only:
  assumes "length c < 48" and "CHR 0x0A \<notin> set c" and "c \<noteq> []" and "last c \<notin> {CHR 0x0D, CHR 0x0A, CHR 0x00}"
    and "d @ d' = c @ [CHR 0x0D, CHR 0x0A]" and "d \<noteq> []" and "d' \<noteq> []"
  shows "console_read (c @ [CHR 0x0D, CHR 0x0A]) new_console
      = (if snd (run_command c) then None else Some new_console, fst (run_command c))
    \<and> (\<exists>con con'. console_read d new_console = (Some con, []) \<and> console_read d' con = (Some con', [])
         \<and> con_start con' = length c + 2)"
proof -
  let ?nl = "[CHR 0x0D, CHR 0x0A]" and ?z = "\<lambda>k. replicate k (CHR 0x00)"
  have trim: "TrimRight (c @ ?nl @ ?z k) [CHR 0x0D, CHR 0x0A, CHR 0x00] = c" for k
    using assms(3,4) TrimRight_append_cut [of "?nl @ ?z k" "[CHR 0x0D, CHR 0x0A, CHR 0x00]" c]
    by (auto simp: TrimRight_id set_replicate_conv_if)
  have one: "console_read (c @ ?nl) new_console
      = (if snd (run_command c) then None else Some new_console, fst (run_command c))"
    using assms(1,2) trim by (simp add: console_read_def new_console_def scan_command case_prod_beta)
  have len: "length d + length d' = length c + 2" using arg_cong [OF assms(5), of length] by simp
  have clean: "CHR 0x0A \<notin> set (take k (d @ d'))" if "k < length c + 2" for k
  proof -
    have "take k (d @ d') = take k (c @ [CHR 0x0D])"
      unfolding assms(5) using that by (cases "k - length c") auto
    then show ?thesis using assms(2) by (auto dest: in_set_takeD)
  qed
  have d: "CHR 0x0A \<notin> set d" using clean [of "length d"] len assms(7) by (cases d') auto
  from scan_no_newline [OF this] obtain h where h: "scan_cmd (d @ ?z (51 - length d)) False d = Inr h" by blast
  let ?con = "\<lparr>con_cmd = d @ ?z (51 - length d), con_start = length d, cmdOverHashEnter = h\<rparr>"
  have first: "console_read d new_console = (Some ?con, [])"
    using h len assms(1,7) by (cases d') (auto simp: console_read_def new_console_def Let_def)
  let ?cmd = "d @ d' @ ?z (51 - length d - length d')"
  have "CHR 0x0A \<notin> set (take (length d') ?cmd)"
  proof -
    have "0 < length d" using assms(6) by simp
    then have "length d' < length c + 2" using len by linarith
    then show ?thesis using clean [of "length d'"] by simp
  qed
  from scan_no_newline [OF this] obtain h' where h': "scan_cmd ?cmd h (take (length d') ?cmd) = Inr h'" by blast
  have "console_read d' ?con = (Some \<lparr>con_cmd = ?cmd, con_start = length c + 2, cmdOverHashEnter = h'\<rparr>, [])"
    using h' len assms(1) by (simp add: console_read_def Let_def)
  with one first show ?thesis by auto
qed

theorem console_one_packet_only_witness:
  "console_read (''stats'' @ [CHR 0x0D, CHR 0x0A]) new_console = (Some new_console, [SendStats False])
   \<and> (\<exists>con con'. console_read ''st'' new_console = (Some con, [])
        \<and> console_read (''ats'' @ [CHR 0x0D, CHR 0x0A]) con = (Some con', []))"
proof -
  have "run_command ''stats'' = ([SendStats False], False)" by code_simp
  then show ?thesis
    using console_one_packet_only [of "''stats''" "''st''" "''ats'' @ [CHR 0x0D, CHR 0x0A]"] by auto
qed

end
