(* ===== verification/NewValue.thy ===== *)
theory NewValue
  imports ProjConfig
begin

text \<open>
  \<^verbatim>\<open>GetNewValueOfConfig\<close> (\<^verbatim>\<open>configwatcher/zk_watcher.go\<close>): the newest value of a configuration, from the
  debug files, the server or, when the server has none that can be read, the local database.
\<close>

record new_value =
  valueEncrypted :: "bytes option"
  valuePlain :: bytes
  valueSerialized :: "bytes option"
  newVersionChecked :: bool
  hasUpdate :: bool
  isDebugValue :: bool
  cErr :: "goerr option"

definition no_value :: new_value where
  "no_value = \<lparr>valueEncrypted = None, valuePlain = [], valueSerialized = None, newVersionChecked = False,
     hasUpdate = False, isDebugValue = False, cErr = None\<rparr>"

definition debug_value ::
    "('d, 'e, 'o) env \<Rightarrow> 'o DebugConfigs option \<Rightarrow> string \<Rightarrow> string \<Rightarrow> (bytes option \<times> string) res" where
  "debug_value E dbc dItem schemaFile =
     (case dbc of
        Some d \<Rightarrow>
          if DEVMODE (cfg E)
          then GetConfigBySchemafile (fmtenv E) (tree_string E) d dItem schemaFile True
          else Ok (None, [])
      | None \<Rightarrow> Ok (None, []))"

abbreviation to_json :: "('d, 'e, 'o) env \<Rightarrow> bytes \<Rightarrow> bytes option res" where
  "to_json E content \<equiv> TomlConfigValueToJson (load E) (fmtenv E) content"

text \<open>The value without the debug files: its JSON text, and whether the server was checked and differs.\<close>

definition server_or_old ::
    "('d, 'e, 'o) env \<Rightarrow> bytes res \<Rightarrow> bytes res \<Rightarrow> (bytes option res \<times> bool \<times> bool) res" where
  "server_or_old E old new =
     (case new of
        Panic m \<Rightarrow> Panic m
      | Err e \<Rightarrow>
          (case old of
             Ok oldContent \<Rightarrow>
               (case to_json E oldContent of Panic m \<Rightarrow> Panic m | r \<Rightarrow> Ok (r, False, False))
           | _ \<Rightarrow> Ok (Err e, False, False))
      | Ok newContent \<Rightarrow>
          (case to_json E newContent of
             Panic m \<Rightarrow> Panic m
           | Err e \<Rightarrow>
               (case old of
                  Ok oldContent \<Rightarrow>
                    (case to_json E oldContent of Panic m \<Rightarrow> Panic m | r \<Rightarrow> Ok (r, False, False))
                | _ \<Rightarrow> Ok (Err e, False, False))
           | Ok j \<Rightarrow> Ok (Ok j, True, old \<noteq> Ok newContent)))"

definition finish_value ::
    "('d, 'e, 'o) env \<Rightarrow> string \<Rightarrow> bytes \<Rightarrow> bytes option \<Rightarrow> new_value \<Rightarrow> ('d, 'e) client
     \<Rightarrow> new_value res \<times> ('d, 'e) client" where
  "finish_value E dItem plain serialized v s =
     (case Encrypt (tables E) (GetEncryptor E) plain of
        Panic m \<Rightarrow> (Panic m, s)
      | r \<Rightarrow>
          (Ok (v\<lparr>valuePlain := plain, valueSerialized := serialized,
                 valueEncrypted := (case r of Ok c \<Rightarrow> Some c | _ \<Rightarrow> None),
                 cErr := (case r of Err e \<Rightarrow> Some e | _ \<Rightarrow> None)\<rparr>),
           s\<lparr>mem := SaveRawConfig dItem plain (mem s)\<rparr>))"

definition GetNewValueOfConfig ::
    "('d, 'e, 'o) env \<Rightarrow> string \<Rightarrow> 'o DebugConfigs option \<Rightarrow> string \<Rightarrow> ('d, 'e) client
     \<Rightarrow> new_value res \<times> ('d, 'e) client" where
  "GetNewValueOfConfig E dItem dbc schemaFile s =
     (case GetFromDisk E dItem s of
        (Panic m, s1) \<Rightarrow> (Panic m, s1)
      | (old, s1) \<Rightarrow>
          (case debug_value E dbc dItem schemaFile of
             Panic m \<Rightarrow> (Panic m, s1)
           | Err e \<Rightarrow> (Err e, s1)
           | Ok (Some debugValue, debugValueToml) \<Rightarrow>
               finish_value E dItem debugValueToml (Some debugValue)
                 (no_value\<lparr>newVersionChecked := True, isDebugValue := True\<rparr>) s1
           | Ok (None, _) \<Rightarrow>
               (case server_or_old E old (GetFromServer E dItem s1) of
                  Panic m \<Rightarrow> (Panic m, s1)
                | Err e \<Rightarrow> (Err e, s1)
                | Ok (Err e, checked, update) \<Rightarrow> (Ok (no_value\<lparr>cErr := Some e\<rparr>), s1)
                | Ok (Panic m, checked, update) \<Rightarrow> (Panic m, s1)
                | Ok (Ok parsed, checked, update) \<Rightarrow>
                    finish_value E dItem
                      (case (if checked then GetFromServer E dItem s1 else old) of Ok c \<Rightarrow> c | _ \<Rightarrow> [])
                      parsed (no_value\<lparr>newVersionChecked := checked, hasUpdate := update\<rparr>) s1)))"

section \<open>The newest readable version\<close>

text \<open>
  The specification: the version on the server if it can be read and parsed, else the
  one in the database if it can, together with its JSON text and its origin.
\<close>

datatype origin = FromServer | FromDisk

definition newest ::
    "('d, 'e, 'o) env \<Rightarrow> bytes res \<Rightarrow> bytes res \<Rightarrow> (bytes \<times> bytes option \<times> origin) option" where
  "newest E old new =
     (let parsed = (\<lambda>r org. case r of
                      Ok c \<Rightarrow> (case to_json E c of Ok j \<Rightarrow> Some (c, j, org) | _ \<Rightarrow> None)
                    | _ \<Rightarrow> None)
      in case parsed new FromServer of Some v \<Rightarrow> Some v | None \<Rightarrow> parsed old FromDisk)"

definition quiet :: "('d, 'e, 'o) env \<Rightarrow> bytes res \<Rightarrow> bytes res \<Rightarrow> bool" where
  "quiet E old new \<longleftrightarrow> \<not> is_panic old \<and> \<not> is_panic new
     \<and> (\<forall>c. (old = Ok c \<or> new = Ok c) \<longrightarrow> \<not> is_panic (to_json E c))"

lemma server_or_old_newest:
  assumes "quiet E old new"
  shows "(case newest E old new of
      Some (c, j, org) \<Rightarrow> server_or_old E old new = Ok (Ok j, org = FromServer, org = FromServer \<and> old \<noteq> Ok c)
        \<and> (if org = FromServer then new = Ok c else old = Ok c)
    | None \<Rightarrow> \<exists>e. server_or_old E old new = Ok (Err e, False, False))"
  using assms
  by (auto simp: newest_def server_or_old_def quiet_def Let_def split: res.splits option.splits)

lemma GetNewValueOfConfig_spec:
  assumes "db_open E is_open s" and "keys_ok E" and "debug_value E dbc dItem schemaFile = Ok (None, t)"
    and "quiet E (fst (GetFromDisk E dItem s)) (GetFromServer E dItem s)"
  shows "\<exists>v s'. GetNewValueOfConfig E dItem dbc schemaFile s = (Ok v, s') \<and>
    (case newest E (fst (GetFromDisk E dItem s)) (GetFromServer E dItem s) of
       None \<Rightarrow> cErr v \<noteq> None \<and> \<not> hasUpdate v \<and> s' = s
     | Some (c, j, org) \<Rightarrow>
         cErr v = None \<and> valuePlain v = c \<and> valueSerialized v = j
         \<and> newVersionChecked v = (org = FromServer)
         \<and> hasUpdate v = (org = FromServer \<and> fst (GetFromDisk E dItem s) \<noteq> Ok c)
         \<and> (\<exists>x. valueEncrypted v = Some x \<and> Decrypt (tables E) (GetEncryptor E) x = Ok (TrimRight c [NUL]))
         \<and> GetRawConfig dItem (mem s') = Ok c \<and> disk s' = disk s)"
proof -
  let ?new = "GetFromServer E dItem s"
  obtain old where d: "GetFromDisk E dItem s = (old, s)"
    using GetFromDisk_open [OF assms(1), of dItem] by (metis prod.collapse)
  have q: "quiet E old ?new" using assms(4) by (simp add: d)
  have get: "GetNewValueOfConfig E dItem dbc schemaFile s =
      (case server_or_old E old ?new of
         Panic m \<Rightarrow> (Panic m, s)
       | Err e \<Rightarrow> (Err e, s)
       | Ok (Err e, checked, update) \<Rightarrow> (Ok (no_value\<lparr>cErr := Some e\<rparr>), s)
       | Ok (Panic m, checked, update) \<Rightarrow> (Panic m, s)
       | Ok (Ok parsed, checked, update) \<Rightarrow>
           finish_value E dItem (case (if checked then ?new else old) of Ok c \<Rightarrow> c | _ \<Rightarrow> [])
             parsed (no_value\<lparr>newVersionChecked := checked, hasUpdate := update\<rparr>) s)"
    using d assms(3) q by (cases old; clarsimp simp: GetNewValueOfConfig_def quiet_def)
  note n = server_or_old_newest [OF q]
  show ?thesis
  proof (cases "newest E old ?new")
    case None
    with n get d show ?thesis by (auto simp: no_value_def)
  next
    case (Some cjo)
    obtain c j org where cjo: "newest E old ?new = Some (c, j, org)" using Some by (cases cjo) auto
    obtain x where x: "Encrypt (tables E) (GetEncryptor E) c = Ok x"
      using assms(2) Encrypt_wf unfolding keys_ok_def by blast
    then have dec: "Decrypt (tables E) (GetEncryptor E) x = Ok (TrimRight c [NUL])"
      using assms(2) Decrypt_Encrypt_TrimRight unfolding keys_ok_def by blast
    have plain: "(case (if org = FromServer then ?new else old) of Ok c \<Rightarrow> c | _ \<Rightarrow> []) = c"
      using n cjo by (cases org) auto
    have "GetNewValueOfConfig E dItem dbc schemaFile s = finish_value E dItem c j
        (no_value\<lparr>newVersionChecked := org = FromServer, hasUpdate := org = FromServer \<and> old \<noteq> Ok c\<rparr>) s"
      using get n cjo plain by simp
    with cjo dec d show ?thesis by (simp add: finish_value_def x no_value_def)
  qed
qed

text \<open>C15: without a debug value, \<^verbatim>\<open>GetNewValueOfConfig\<close> gives the newest readable version: the one of the
  server, or else the one in the database.  It fails exactly when there is neither.  It says that
  there is an update exactly when the version is from the server and the database has another or
  none, keeps the text of the value as the raw configuration, and encrypts it so that it can be decrypted.\<close>

theorem GetNewValueOfConfig_newest:
  assumes "db_open E is_open s" and "keys_ok E" and "debug_value E dbc dItem schemaFile = Ok (None, t)"
    and "quiet E (fst (GetFromDisk E dItem s)) (GetFromServer E dItem s)"
  shows "\<exists>v s'. GetNewValueOfConfig E dItem dbc schemaFile s = (Ok v, s') \<and>
    (case newest E (fst (GetFromDisk E dItem s)) (GetFromServer E dItem s) of
       None \<Rightarrow> cErr v \<noteq> None \<and> \<not> hasUpdate v \<and> s' = s
     | Some (c, j, org) \<Rightarrow>
         cErr v = None \<and> valuePlain v = c \<and> valueSerialized v = j
         \<and> newVersionChecked v = (org = FromServer)
         \<and> hasUpdate v = (org = FromServer \<and> fst (GetFromDisk E dItem s) \<noteq> Ok c)
         \<and> (\<exists>x. valueEncrypted v = Some x \<and> Decrypt (tables E) (GetEncryptor E) x = Ok (TrimRight c [NUL]))
         \<and> GetRawConfig dItem (mem s') = Ok c \<and> disk s' = disk s)"
  using assms by (rule GetNewValueOfConfig_spec)

text \<open>The server has a value and the database has none.\<close>

theorem GetNewValueOfConfig_newest_witness:
  "\<exists>v s'. GetNewValueOfConfig (demo_env (Ok ())) ''Pay.Db.host'' None [] (demo_client demo_server) = (Ok v, s')
     \<and> cErr v = None \<and> valuePlain v = ''x'' \<and> hasUpdate v \<and> newVersionChecked v"
proof -
  let ?E = "demo_env (Ok ())" and ?n = "''Pay.Db.host''" and ?s = "demo_client demo_server"
  obtain e where e: "fst (GetFromDisk ?E ?n ?s) = Err e" using demo_facts(3) by blast
  have "newest ?E (Err e) (Ok ''x'') = Some (''x'', Some [CHR 0x22, CHR ''x'', CHR 0x22], FromServer)"
    using demo_facts(5) by (simp add: newest_def)
  moreover have "quiet ?E (Err e) (Ok ''x'')" using demo_facts(5) by (simp add: quiet_def)
  moreover have "debug_value ?E None ?n [] = Ok (None, [])" by (simp add: debug_value_def)
  ultimately show ?thesis
    using GetNewValueOfConfig_newest [OF demo_open demo_keys, of "Ok ()" None ?n "[]" "[]" demo_server] e demo_facts(4)
    by auto
qed

text \<open>A value from a debug file is always taken as checked, but never reported as an update.\<close>

theorem GetNewValueOfConfig_debug:
  assumes "db_open E is_open s" and "\<not> is_panic (fst (GetFromDisk E dItem s))"
    and "debug_value E dbc dItem schemaFile = Ok (Some j, toml)"
    and "GetNewValueOfConfig E dItem dbc schemaFile s = (Ok v, s')"
  shows "isDebugValue v \<and> newVersionChecked v \<and> \<not> hasUpdate v \<and> valuePlain v = toml
    \<and> valueSerialized v = Some j"
proof -
  have "GetFromDisk E dItem s = (fst (GetFromDisk E dItem s), s)"
    using GetFromDisk_open [OF assms(1), of dItem] by (simp add: prod_eq_iff)
  with assms(2-4) show ?thesis
    by (cases "fst (GetFromDisk E dItem s)")
      (auto simp: GetNewValueOfConfig_def finish_value_def no_value_def split: res.splits)
qed

definition demo_dev :: "(demo_db, (string, bytes) gomap, unit) env" where
  "demo_dev = (demo_env (Ok ()))\<lparr>cfg := demo_config\<lparr>DEVMODE := True\<rparr>\<rparr>"

definition demo_dbc :: "unit DebugConfigs" where
  "demo_dbc = \<lparr>debugConfigs = [(''/d/config.debug.toml'', TTree [''p''] [(''p'', TInt 3)])]\<rparr>"

theorem GetNewValueOfConfig_debug_witness:
  "\<exists>v s'. GetNewValueOfConfig demo_dev ''p'' (Some demo_dbc) ''/d/x.schema.php'' (demo_client []) = (Ok v, s')
     \<and> valuePlain v = ''p=3'' \<and> \<not> hasUpdate v"
proof -
  let ?s = "demo_client []"
  have op: "db_open demo_dev fst ?s" and ks: "keys_ok demo_dev"
    using demo_open [of "Ok ()" "[]"] demo_keys [of "Ok ()"]
    by (simp_all add: demo_dev_def db_open_def keys_ok_def GetEncryptor_def demo_env_def demo_config_def)
  have "\<exists>e. fst (GetFromDisk demo_dev ''p'' ?s) = Err e"
    using getLocalStorage_open [OF op]
    by (simp add: GetFromDisk_def, simp add: demo_dev_def demo_env_def demo_client_def Conn_Get_def
        getDbRWLock_def conn_get_def map_engine_def)
  then obtain e where e: "fst (GetFromDisk demo_dev ''p'' ?s) = Err e" by blast
  have d: "debug_value demo_dev (Some demo_dbc) ''p'' ''/d/x.schema.php'' = Ok (Some ''3'', ''p=3'')" by code_simp
  obtain x where "Encrypt (tables demo_dev) (GetEncryptor demo_dev) ''p=3'' = Ok x"
    using ks Encrypt_wf unfolding keys_ok_def by blast
  then have "\<exists>v s'. GetNewValueOfConfig demo_dev ''p'' (Some demo_dbc) ''/d/x.schema.php'' ?s = (Ok v, s')"
    using d e by (cases "GetFromDisk demo_dev ''p'' ?s") (simp add: GetNewValueOfConfig_def finish_value_def)
  then show ?thesis using GetNewValueOfConfig_debug [OF op _ d] e by fastforce
qed

end
