(* ===== verification/Callbacks.thy ===== *)
theory Callbacks
  imports ConfigTypes Util
begin

text \<open>
  \<^verbatim>\<open>callbacks/callback.go\<close> and the two functions of \<^verbatim>\<open>configwatcher/zk_watcher.go\<close> that run the
  callbacks: what happens after configuration files were rewritten.  The updates are recorded
  as they happen (\<open>updatedSchemaFiles\<close>, \<open>updatedNodes\<close>) and are handed to the scripts that run next.
  The commands themselves (\<open>run\<close>) and the two built-in callbacks (\<open>run_cb\<close>) are arguments: a result is
  the text they print and an error.
\<close>

record callback_state =
  updatedSchemaFiles :: "string list"
  updatedNodes :: "string list"
  schemaToNodes :: "(string, string list) gomap"

definition AddUpdatedSchemafiles :: "string \<Rightarrow> callback_state \<Rightarrow> callback_state" where
  "AddUpdatedSchemafiles file s =
     (if \<not> InArrayString (updatedSchemaFiles s) file
      then s\<lparr>updatedSchemaFiles := updatedSchemaFiles s @ [file]\<rparr> else s)"

definition AddUpdatedNodes :: "string list \<Rightarrow> callback_state \<Rightarrow> callback_state" where
  "AddUpdatedNodes nodes s =
     (if length nodes = 0 then s
      else s\<lparr>updatedNodes := foldl add_unique (updatedNodes s) nodes\<rparr>)"

definition GetUpdatedNodes :: "callback_state \<Rightarrow> string list" where
  "GetUpdatedNodes s = updatedNodes s"

text \<open>One rule: a script, and the schema files it waits for.\<close>

definition add_script :: "string list \<Rightarrow> string list \<Rightarrow> string list \<Rightarrow> string list" where
  "add_script updated scripts rule =
     (if length rule = 1 then
        (if \<not> InArrayString scripts (rule ! 0) then scripts @ [rule ! 0] else scripts)
      else if length rule > 1 then
        (if InArrayString scripts (rule ! 0) then scripts
         else if list_ex (InArrayString updated) (tl rule) then scripts @ [rule ! 0]
         else scripts)
      else scripts)"

definition GetCustomizeCallbacks :: "Config \<Rightarrow> callback_state \<Rightarrow> string list \<times> callback_state" where
  "GetCustomizeCallbacks c s =
     (let scripts = foldl (add_script (updatedSchemaFiles s)) [] (PostUpdateRule c);
          params = Join (updatedNodes s) '',''
      in (map (\<lambda>v. v @ '' '' @ params) scripts, s\<lparr>updatedSchemaFiles := [], updatedNodes := []\<rparr>))"

definition add_new :: "string list \<Rightarrow> string list \<Rightarrow> string \<Rightarrow> string list" where
  "add_new old result node =
     (if \<not> InArrayString old node \<and> \<not> InArrayString result node then result @ [node] else result)"

definition UpdateSchemaNodesAndDiff ::
    "string \<Rightarrow> string list \<Rightarrow> callback_state \<Rightarrow> string list \<times> callback_state" where
  "UpdateSchemaNodesAndDiff file nodes s =
     (case mget (schemaToNodes s) file of
        None \<Rightarrow> (nodes, s\<lparr>schemaToNodes := mset (schemaToNodes s) file nodes\<rparr>)
      | Some nodeList \<Rightarrow>
          (foldl (add_new nodeList) [] nodes, s\<lparr>schemaToNodes := mset (schemaToNodes s) file nodes\<rparr>))"

section \<open>Running them\<close>

definition err_str :: "goerr option \<Rightarrow> string" where
  "err_str e = (case e of None \<Rightarrow> [] | Some x \<Rightarrow> err_text x)"

definition validCallbacks :: "string list" where
  "validCallbacks = [''ClearApc'', ''ReloadPHPServer'']"

text \<open>The message for an unknown callback goes on with a print of the table of callbacks, which is left out.\<close>

definition invokeCallbacks ::
    "(string \<Rightarrow> bytes \<times> goerr option) \<Rightarrow> Config \<Rightarrow> (string, string) gomap" where
  "invokeCallbacks run_cb c =
     foldl (\<lambda>result callback.
        if InArrayString validCallbacks callback
        then (case run_cb callback of (re, e) \<Rightarrow> mset result callback (re @ [CHR 0x0A] @ err_str e))
        else mset result callback (''Invalid callback['' @ callback @ '']'')) [] (POST_UPDATE_CALLBACKS c)"

text \<open>
  A script line is cut at its blanks into a command and its arguments; a line without any is an
  index out of range.  The commands that were run come back with the results.
\<close>

fun run_scripts ::
    "(string list \<Rightarrow> string \<times> goerr option) \<Rightarrow> string list \<Rightarrow> string list list \<times> (string, string) gomap
     \<Rightarrow> (string list list \<times> (string, string) gomap) res" where
  "run_scripts run [] acc = Ok acc"
| "run_scripts run (script # rest) acc =
     (case Fields script of
        [] \<Rightarrow> Panic ''index out of range''
      | params \<Rightarrow>
          (case run params of (out, e) \<Rightarrow>
             run_scripts run rest
               (fst acc @ [params],
                mset (snd acc) script (script @ '':'' @ [CHR 0x0A] @ out @ [CHR 0x0A] @ ''ERR:'' @ err_str e))))"

definition script_lines :: "Config \<Rightarrow> callback_state \<Rightarrow> string list \<times> callback_state" where
  "script_lines c s =
     (let main = map (\<lambda>script. script @ '' '' @ Join (GetUpdatedNodes s) '','') (POST_UPDATE_SCRIPTS c);
          (custom, s') = GetCustomizeCallbacks c s
      in (main @ custom, s'))"

definition invokeCallbackScripts ::
    "(string list \<Rightarrow> string \<times> goerr option) \<Rightarrow> Config \<Rightarrow> callback_state
     \<Rightarrow> (string list list \<times> (string, string) gomap) res \<times> callback_state" where
  "invokeCallbackScripts run c s =
     (let (scripts, s') = script_lines c s in (run_scripts run scripts ([], []), s'))"

section \<open>The built-in callbacks\<close>

record FcgiHost =
  fh_Net :: string
  fh_Addr :: string
  fh_Port :: int

text \<open>The parsing of the line that \<^verbatim>\<open>netstat\<close> prints for the FastCGI server.\<close>

definition parse_fpm_line :: "string \<Rightarrow> FcgiHost res" where
  "parse_fpm_line out =
     (let lines = Fields (hd (Split out [CHR 0x0A])) in
      if lines = [] then Panic ''index out of range''
      else if lines ! 0 = ''tcp'' then
        (if length lines \<le> 3 then Panic ''index out of range''
         else let hostPorts = Split (lines ! 3) '':'' in
              if length hostPorts \<le> 1 then Panic ''index out of range''
              else Ok \<lparr>fh_Net = lines ! 0, fh_Addr = hostPorts ! 0,
                       fh_Port = (case Atoi (hostPorts ! 1) of Ok p \<Rightarrow> p | _ \<Rightarrow> 0)\<rparr>)
      else if lines ! 0 = ''unix'' then
        (if length lines \<le> 9 then Panic ''index out of range''
         else Ok \<lparr>fh_Net = lines ! 0, fh_Addr = lines ! 9, fh_Port = 0\<rparr>)
      else Ok \<lparr>fh_Net = lines ! 0, fh_Addr = [], fh_Port = 0\<rparr>)"

definition GetFpmHost :: "bool \<Rightarrow> (string \<times> goerr option) \<Rightarrow> FcgiHost res" where
  "GetFpmHost linux netstat =
     (if \<not> linux then Err (ErrText ''getFpmHost supports 'linux' only!'')
      else case snd netstat of
             Some e \<Rightarrow> Err (ErrText (''Failed to detect php-fpm host info: '' @ err_text e @ '' : '' @ fst netstat))
           | None \<Rightarrow> parse_fpm_line (fst netstat))"

text \<open>The answer of the FastCGI server without its header: what follows the second line break.\<close>

fun after_breaks :: "nat \<Rightarrow> bytes \<Rightarrow> bytes" where
  "after_breaks n [] = []"
| "after_breaks n (c # cs) =
     (if c = CHR 0x0A then (if n \<le> 1 then cs else after_breaks (n - 1) cs) else after_breaks n cs)"

definition strip_header :: "bytes \<Rightarrow> bytes" where
  "strip_header resultRaw =
     (if length resultRaw > 12 \<and> ToLower (take 12 resultRaw) = ToLower ''content-type''
      then after_breaks 2 resultRaw else resultRaw)"

section \<open>Which scripts run\<close>

lemma add_script_set:
  "set (add_script updated scripts rule) =
     set scripts \<union> (if length rule = 1 \<or> (length rule > 1 \<and> (\<exists>f \<in> set (tl rule). f \<in> set updated))
                      then {rule ! 0} else {})"
  by (auto simp: add_script_def list_ex_iff)

lemma add_script_distinct: "distinct scripts \<Longrightarrow> distinct (add_script updated scripts rule)"
  by (simp add: add_script_def)

definition due :: "string list \<Rightarrow> string list \<Rightarrow> bool" where
  "due updated rule \<longleftrightarrow> length rule = 1 \<or> (length rule > 1 \<and> (\<exists>f \<in> set (tl rule). f \<in> set updated))"

lemma foldl_add_script:
  "set (foldl (add_script updated) scripts rules) = set scripts \<union> {rule ! 0 |rule. rule \<in> set rules \<and> due updated rule}
   \<and> (distinct scripts \<longrightarrow> distinct (foldl (add_script updated) scripts rules))"
proof (induction rules arbitrary: scripts)
  case (Cons r rules)
  show ?case
    using Cons [of "add_script updated scripts r"] add_script_distinct [of scripts updated r]
    by (auto simp: add_script_set due_def)
qed simp

text \<open>C29: the custom scripts that run after an update are exactly those with a rule that names no
  schema file or names one that was updated, each once, with the updated nodes as argument; asking for
  them clears the record of updates, so an update is handed out only once.\<close>

theorem GetCustomizeCallbacks_due:
  "\<exists>scripts. fst (GetCustomizeCallbacks c s) = map (\<lambda>v. v @ '' '' @ Join (updatedNodes s) '','') scripts
     \<and> distinct scripts
     \<and> set scripts = {rule ! 0 |rule. rule \<in> set (PostUpdateRule c) \<and> due (updatedSchemaFiles s) rule}
     \<and> updatedSchemaFiles (snd (GetCustomizeCallbacks c s)) = []
     \<and> updatedNodes (snd (GetCustomizeCallbacks c s)) = []
     \<and> schemaToNodes (snd (GetCustomizeCallbacks c s)) = schemaToNodes s"
  using foldl_add_script [of "updatedSchemaFiles s" "[]" "PostUpdateRule c"]
  by (intro exI [of _ "foldl (add_script (updatedSchemaFiles s)) [] (PostUpdateRule c)"])
    (simp add: GetCustomizeCallbacks_def Let_def)

lemma foldl_add_new:
  "set (foldl (add_new old) result nodes) = set result \<union> (set nodes - set old)
   \<and> (distinct result \<longrightarrow> distinct (foldl (add_new old) result nodes))"
proof (induction nodes arbitrary: result)
  case (Cons n nodes)
  then show ?case using Cons [of "add_new old result n"] by (auto simp: add_new_def)
qed simp

text \<open>When a schema file was seen before, \<^verbatim>\<open>UpdateSchemaNodesAndDiff\<close> returns the nodes that
  it has now and did not have then, each once; it remembers the nodes of now, so the same nodes again
  give no difference, and other files are not touched.\<close>

theorem UpdateSchemaNodesAndDiff_diff:
  assumes "UpdateSchemaNodesAndDiff file nodes s = (new, s')"
  shows "set new = set nodes - (case mget (schemaToNodes s) file of None \<Rightarrow> {} | Some old \<Rightarrow> set old)
    \<and> (mget (schemaToNodes s) file \<noteq> None \<longrightarrow> distinct new)
    \<and> fst (UpdateSchemaNodesAndDiff file nodes s') = []
    \<and> (\<forall>f. f \<noteq> file \<longrightarrow> mget (schemaToNodes s') f = mget (schemaToNodes s) f)"
proof -
  have "foldl (add_new nodes) [] nodes = []"
    using foldl_add_new [of nodes "[]" nodes] by auto
  then show ?thesis
    using assms foldl_add_new [of "the (mget (schemaToNodes s) file)" "[]" nodes]
    by (auto simp: UpdateSchemaNodesAndDiff_def split: option.splits)
qed

theorem UpdateSchemaNodesAndDiff_diff_witness:
  "set (fst (UpdateSchemaNodesAndDiff ''f'' [''b'', ''c'']
     \<lparr>updatedSchemaFiles = [], updatedNodes = [], schemaToNodes = [(''f'', [''a'', ''b''])]\<rparr>)) = {''c''}"
proof -
  let ?s = "\<lparr>updatedSchemaFiles = [], updatedNodes = [], schemaToNodes = [(''f'', [''a'', ''b''])]\<rparr>"
  obtain new s' where "UpdateSchemaNodesAndDiff ''f'' [''b'', ''c''] ?s = (new, s')" by fastforce
  then show ?thesis using UpdateSchemaNodesAndDiff_diff [of "''f''" "[''b'', ''c'']" ?s new s'] by auto
qed

end
