(* ===== verification/Compile.thy ===== *)
theory Compile
  imports NewValue ConfigSchema Callbacks
begin

text \<open>
  \<^verbatim>\<open>compile\<close>, \<^verbatim>\<open>compileTomlFile\<close> and \<^verbatim>\<open>compileSchemaFile\<close> (\<^verbatim>\<open>configwatcher/zk_watcher.go\<close>): a schema
  file is rewritten with the values of its items and stored beside the schema file.

  \<open>tools\<close> is what the compilation uses of the outside: the PHP interpreter (what the \<open>i\<close>-th run of a
  script prints and its error, and what the script's file holds afterwards), the errors of creating and
  writing a temporary file for an item and of opening and writing the compiled file, the
  compilation of a regular expression that is not plain text, MD5, and the clock.
  \<open>world\<close> is the state: the client, the record of updates, and the files written so far, each with its
  whole new content.  \<open>None\<close> stands for waiting for another goroutine.
\<close>

record tools =
  temp_create :: "string \<Rightarrow> goerr option"
  temp_write :: "string \<Rightarrow> goerr option"
  run_php :: "nat \<Rightarrow> string \<Rightarrow> string \<times> goerr option"
  php_file :: "string \<Rightarrow> bytes res"
  open_err :: "string \<Rightarrow> goerr option"
  write_err :: "string \<Rightarrow> goerr option"
  compile_expr :: "string \<Rightarrow> re res"
  md5_hex :: "bytes \<Rightarrow> string"
  clock_lock :: int
  clock_release :: int

record ('d, 'e) world =
  cl :: "('d, 'e) client"
  cbs :: callback_state
  written :: "(string \<times> bytes) list"

text \<open>The errors of opening and of writing a file.\<close>

definition write_out ::
    "tools \<Rightarrow> string \<Rightarrow> bytes \<Rightarrow> ('d, 'e) world \<Rightarrow> goerr option \<times> goerr option \<times> ('d, 'e) world" where
  "write_out T path content w =
     (case open_err T path of
        Some e \<Rightarrow> (Some e, None, w)
      | None \<Rightarrow>
          (case write_err T path of
             Some e \<Rightarrow> (None, Some e, w)
           | None \<Rightarrow> (None, None, w\<lparr>written := written w @ [(path, content)]\<rparr>)))"

definition errors_of :: "string list \<Rightarrow> goerr option" where
  "errors_of errMsg = (if length errMsg > 0 then Some (ErrText (Join errMsg ''|'')) else None)"

definition err_list :: "goerr option \<Rightarrow> string list" where
  "err_list e = (case e of None \<Rightarrow> [] | Some x \<Rightarrow> [err_text x])"

section \<open>PHP schema files\<close>

definition php_escape :: "string \<Rightarrow> string" where
  "php_escape jsonV = Replace (Replace jsonV [CHR 0x5C] [CHR 0x5C, CHR 0x5C] (-1)) [CHR 0x27] [CHR 0x5C, CHR 0x27] (-1)"

definition php_script :: "string \<Rightarrow> string" where
  "php_script jsonV =
     ''<?php'' @ [CHR 0x0A]
     @ ''ini_set('serialize_precision', 14);$data=var_export(json_decode('' @ [CHR 0x27] @ php_escape jsonV
     @ [CHR 0x27] @ '',true), true);'' @ ''file_put_contents(__FILE__, $data);''"

text \<open>
  Two attempts at running the script.  Without a temporary file the code goes on with a nil file, of
  which it asks the name after the failed write.
\<close>

definition php_value :: "tools \<Rightarrow> string \<Rightarrow> string \<Rightarrow> bytes res" where
  "php_value T configItem jsonV =
     (let script = php_script jsonV in
      if temp_create T configItem \<noteq> None then Panic ''nil pointer dereference''
      else case temp_write T configItem of
        Some e \<Rightarrow>
          Err (ErrText (''Failed to write to temp file for deconding config content of ['' @ configItem @ '']: '' @ err_text e))
      | None \<Rightarrow>
          (case (if snd (run_php T 0 script) = None then run_php T 0 script else run_php T 1 script) of
             (out, Some e) \<Rightarrow>
               Err (ErrText (''Failed to decode content for ['' @ configItem @ '']: PHP Json decode error: ''
                             @ err_text e @ '': '' @ out @ '', '' @ php_escape jsonV))
           | (out, None) \<Rightarrow>
               (case php_file T script of
                  Err e \<Rightarrow> Err (ErrText (''Failed to read decoded content for ['' @ configItem @ ''] : '' @ err_text e))
                | r \<Rightarrow> r)))"

text \<open>One item of the schema file: the text with its placeholder replaced, and the messages so far.\<close>

definition compile_item ::
    "('d, 'e, 'o) env \<Rightarrow> tools \<Rightarrow> (string, bytes option) gomap \<Rightarrow> string
     \<Rightarrow> bytes \<times> string list \<times> ('d, 'e) client \<Rightarrow> (bytes \<times> string list \<times> ('d, 'e) client) res option" where
  "compile_item E T values configItem acc =
     (case acc of (fileContent, errMsg, s) \<Rightarrow>
        (case (case mget values configItem of
                 Some jsonB \<Rightarrow> Some (Ok jsonB, s)
               | None \<Rightarrow> GetConfig E (clock_lock T) (clock_release T) configItem None [] True s) of
           None \<Rightarrow> None
         | Some (Panic m, s') \<Rightarrow> Some (Panic m)
         | Some (Err e, s') \<Rightarrow>
             Some (Ok (fileContent, errMsg @ [''Cannot find value for config['' @ configItem @ ''].''], s'))
         | Some (Ok jsonB, s') \<Rightarrow>
             (case php_value T configItem (case jsonB of Some b \<Rightarrow> b | None \<Rightarrow> []) of
                Panic m \<Rightarrow> Some (Panic m)
              | Err e \<Rightarrow> Some (Ok (fileContent, errMsg @ [err_text e], s'))
              | Ok phpV \<Rightarrow> Some (Ok (Replace fileContent (placeholder configItem) phpV (-1), errMsg, s')))))"

fun compile_items ::
    "('d, 'e, 'o) env \<Rightarrow> tools \<Rightarrow> (string, bytes option) gomap \<Rightarrow> string list
     \<Rightarrow> bytes \<times> string list \<times> ('d, 'e) client \<Rightarrow> (bytes \<times> string list \<times> ('d, 'e) client) res option" where
  "compile_items E T values [] acc = Some (Ok acc)"
| "compile_items E T values (item # items) acc =
     (case compile_item E T values item acc of
        Some (Ok acc') \<Rightarrow> compile_items E T values items acc'
      | r \<Rightarrow> r)"

text \<open>
  The caution goes behind the first opening tag, or with a tag of its own to the front when
  there is no tag or only blanks before it.
\<close>

definition phpOpenTag :: string where
  "phpOpenTag = ''<?php''"

definition add_caution :: "bytes \<Rightarrow> bytes" where
  "add_caution fileContent =
     (case Index fileContent phpOpenTag of
        None \<Rightarrow> GetCompilationCaution True @ fileContent
      | Some pos \<Rightarrow>
          if Index (TrimSpace fileContent) phpOpenTag = Some 0 \<and> pos > 0
          then GetCompilationCaution True @ fileContent
          else take (pos + 5) fileContent @ GetCompilationCaution False @ drop (pos + 5) fileContent)"

definition compileSchemaFile ::
    "('d, 'e, 'o) env \<Rightarrow> tools \<Rightarrow> (string, bytes option) gomap \<Rightarrow> string \<Rightarrow> ('d, 'e) world
     \<Rightarrow> (goerr option res \<times> ('d, 'e) world) option" where
  "compileSchemaFile E T values filePath w =
     (case ParseItems (files E) filePath of
        Err e \<Rightarrow> Some (Ok (Some e), w)
      | Panic m \<Rightarrow> Some (Panic m, w)
      | Ok configItems \<Rightarrow>
          (case fs_file (files E) filePath of
             Err e \<Rightarrow> Some (Ok (Some e), w)
           | Panic m \<Rightarrow> Some (Panic m, w)
           | Ok content \<Rightarrow>
               (case compile_items E T values configItems (content, [], cl w) of
                  None \<Rightarrow> None
                | Some (Panic m) \<Rightarrow> Some (Panic m, w)
                | Some (Err e) \<Rightarrow> Some (Err e, w)
                | Some (Ok (fileContent, errMsg, s)) \<Rightarrow>
                    (case write_out T (take (length filePath - 11) filePath @ ''.php'')
                            (add_caution fileContent) (w\<lparr>cl := s\<rparr>) of
                       (errO, errW, w') \<Rightarrow>
                         Some (Ok (errors_of (errMsg @ err_list errO @ err_list errW)), w')))))"

section \<open>Replacing placeholders\<close>

lemma replace_lim_hit:
  assumes "old \<noteq> []"
  shows "replace_lim (Suc n) (old @ s) old new = new @ replace_lim n s old new"
proof -
  have "Index (old @ s) old = Some 0" by (simp add: Index_0)
  then show ?thesis by simp
qed

lemma replace_lim_skip:
  "\<not> prefix old (c # s) \<Longrightarrow> replace_lim n (c # s) old new = c # replace_lim n s old new"
  by (cases n) (auto split: option.split)

lemma replace_lim_run:
  "(\<And>u c v. xs = u @ c # v \<Longrightarrow> \<not> prefix old (c # v @ rest))
   \<Longrightarrow> replace_lim n (xs @ rest) old new = xs @ replace_lim n rest old new"
proof (induction xs)
  case (Cons c xs)
  have "\<not> prefix old (c # xs @ rest)" using Cons.prems [of "[]" c xs] by simp
  moreover have "replace_lim n (xs @ rest) old new = xs @ replace_lim n rest old new"
  proof (rule Cons.IH)
    fix u d v assume "xs = u @ d # v"
    then show "\<not> prefix old (d # v @ rest)" using Cons.prems [of "c # u" d v] by simp
  qed
  ultimately show ?case by (simp add: replace_lim_skip)
qed simp

abbreviation safe_start :: "string \<Rightarrow> bool" where
  "safe_start rest \<equiv> rest = [] \<or> hd rest \<noteq> CHR ''#''"

lemma placeholder_prefix: "prefix (placeholder m) s \<Longrightarrow> prefix open_mark s"
  by (auto simp: placeholder_def prefix_def)

lemma replace_text:
  assumes "CHR ''#'' \<notin> set seg" and "safe_start rest"
  shows "replace_lim n (seg @ rest) (placeholder m) v = seg @ replace_lim n rest (placeholder m) v"
proof (rule replace_lim_run)
  fix u c w assume "seg = u @ c # w"
  with assms have "\<not> prefix open_mark (c # w @ rest)" by (cases w; cases rest) auto
  then show "\<not> prefix (placeholder m) (c # w @ rest)" using placeholder_prefix by blast
qed

lemma placeholder_prefix_eq:
  assumes "item_name m" "item_name k" "prefix (placeholder m) (placeholder k @ rest)"
  shows "m = k"
proof -
  obtain r where "placeholder k @ rest = placeholder m @ r" using assms(3) by (auto simp: prefix_def)
  then have "k @ close_mark @ rest = m @ close_mark @ r" by (simp add: placeholder_def)
  then show ?thesis using close_mark_unique assms(1,2) by blast
qed

lemma replace_other:
  assumes "item_name m" "item_name k" "m \<noteq> k" "safe_start rest"
  shows "replace_lim n (placeholder k @ rest) (placeholder m) v = placeholder k @ replace_lim n rest (placeholder m) v"
proof (rule replace_lim_run)
  fix u c w assume split: "placeholder k = u @ c # w"
  show "\<not> prefix (placeholder m) (c # w @ rest)"
  proof (cases u)
    case Nil
    then have "c # w @ rest = placeholder k @ rest" using split by simp
    then show ?thesis using placeholder_prefix_eq [OF assms(1,2)] assms(3) by metis
  next
    case (Cons x u')
    have q: "CHR 0x22 \<notin> set k" using assms(2) by (auto simp: item_name_def list_all_iff name_char_def word_char_def)
    from split Cons have tail: "[CHR ''#'', CHR 0x7B] @ k @ [CHR 0x7D] @ [CHR 0x22] = u' @ c # w"
      by (auto simp: placeholder_def)
    have "c \<noteq> CHR 0x22 \<or> w = []"
    proof (cases w rule: rev_cases)
      case (snoc w' y)
      with tail have "[CHR ''#'', CHR 0x7B] @ k @ [CHR 0x7D] = u' @ c # w'"
        by (metis append.assoc append_Cons butlast_snoc)
      then have "c \<in> set ([CHR ''#'', CHR 0x7B] @ k @ [CHR 0x7D])" by simp
      then show ?thesis using q by auto
    qed simp
    then have "\<not> prefix open_mark (c # w @ rest)" using assms(4) by (cases rest) auto
    then show ?thesis using placeholder_prefix by blast
  qed
qed

text \<open>
  A schema text with some of its items filled in: \<open>\<sigma>\<close> gives the values known so far.
\<close>

fun fill :: "(string \<rightharpoonup> string) \<Rightarrow> (string \<times> string) list \<Rightarrow> string \<Rightarrow> string" where
  "fill \<sigma> [] t = t"
| "fill \<sigma> ((seg, n) # ps) t =
     seg @ (case \<sigma> n of Some v \<Rightarrow> v | None \<Rightarrow> placeholder n) @ fill \<sigma> ps t"

definition schema_text :: "(string \<times> string) list \<Rightarrow> string \<Rightarrow> bool" where
  "schema_text ps t \<longleftrightarrow> (\<forall>(seg, n) \<in> set ps. CHR ''#'' \<notin> set seg \<and> item_name n) \<and> CHR ''#'' \<notin> set t"

definition no_marks :: "(string \<rightharpoonup> string) \<Rightarrow> bool" where
  "no_marks \<sigma> \<longleftrightarrow> (\<forall>n v. \<sigma> n = Some v \<longrightarrow> CHR ''#'' \<notin> set v)"

lemma fill_render: "fill Map.empty ps t = render ps t"
  by (induction ps t rule: render.induct) simp_all

lemma safe_fill: "schema_text ps t \<Longrightarrow> no_marks \<sigma> \<Longrightarrow> safe_start (fill \<sigma> ps t)"
proof (induction ps)
  case Nil
  then show ?case by (cases t) (auto simp: schema_text_def)
next
  case (Cons p ps)
  obtain seg n where p: "p = (seg, n)" by (cases p)
  have rest: "safe_start (fill \<sigma> ps t)" using Cons by (auto simp: schema_text_def)
  have "safe_start ((case \<sigma> n of Some v \<Rightarrow> v | None \<Rightarrow> placeholder n) @ fill \<sigma> ps t)"
  proof (cases "\<sigma> n")
    case None
    then show ?thesis by (simp add: hd_placeholder)
  next
    case (Some v)
    with Cons.prems(2) have "CHR ''#'' \<notin> set v" by (auto simp: no_marks_def)
    with Some rest show ?thesis by (cases v) auto
  qed
  moreover have "CHR ''#'' \<notin> set seg" using Cons.prems p by (auto simp: schema_text_def)
  ultimately show ?case by (cases seg) (auto simp: p)
qed

definition occurs :: "string \<Rightarrow> (string \<times> string) list \<Rightarrow> nat" where
  "occurs m ps = length (filter (\<lambda>p. snd p = m) ps)"

lemma occurs_fill: "\<sigma> m = None \<Longrightarrow> occurs m ps \<le> length (fill \<sigma> ps t)"
proof (induction ps)
  case (Cons p ps)
  then show ?case by (cases p) (auto simp: occurs_def placeholder_def)
qed (simp add: occurs_def)

lemma replace_fill:
  assumes "schema_text ps t" "no_marks \<sigma>" "item_name m" "\<sigma> m = None \<or> \<sigma> m = Some v"
    and "\<sigma> m = None \<longrightarrow> occurs m ps \<le> n"
  shows "replace_lim n (fill \<sigma> ps t) (placeholder m) v = fill (\<sigma>(m \<mapsto> v)) ps t"
  using assms(1,5)
proof (induction ps arbitrary: n)
  case Nil
  then have "replace_lim n (t @ []) (placeholder m) v = t @ replace_lim n [] (placeholder m) v"
    by (intro replace_text) (auto simp: schema_text_def)
  moreover have "replace_lim n [] (placeholder m) v = []"
    by (cases n) (simp_all add: placeholder_not_Nil)
  ultimately show ?case by simp
next
  case (Cons p ps)
  obtain seg k where p: "p = (seg, k)" by (cases p)
  have ok: "CHR ''#'' \<notin> set seg" "item_name k" "schema_text ps t"
    using Cons.prems(1) p by (auto simp: schema_text_def)
  note rest = safe_fill [OF ok(3) assms(2)]
  let ?f = "fill \<sigma> ps t"
  have front: "replace_lim n (seg @ placeholder k @ ?f) (placeholder m) v
      = seg @ replace_lim n (placeholder k @ ?f) (placeholder m) v" for n
    using ok(1) by (intro replace_text) (simp_all add: hd_placeholder)
  show ?case
  proof (cases "\<sigma> k")
    case None
    show ?thesis
    proof (cases "k = m")
      case True
      then obtain n' where n': "n = Suc n'" "occurs m ps \<le> n'"
        using Cons.prems(2) p None by (cases n) (auto simp: occurs_def)
      have "replace_lim n (placeholder m @ ?f) (placeholder m) v = v @ replace_lim n' ?f (placeholder m) v"
        unfolding n'(1) by (simp only: replace_lim_hit [OF placeholder_not_Nil])
      also have "\<dots> = v @ fill (\<sigma>(m \<mapsto> v)) ps t" by (simp only: Cons.IH [OF ok(3), of n'] n'(2) simp_thms)
      finally show ?thesis using True p None front [of n] by (simp del: fun_upd_apply add: fun_upd_same)
    next
      case False
      have "replace_lim n (placeholder k @ ?f) (placeholder m) v = placeholder k @ replace_lim n ?f (placeholder m) v"
        using replace_other [OF assms(3) ok(2) _ rest] False by simp
      moreover have "replace_lim n ?f (placeholder m) v = fill (\<sigma>(m \<mapsto> v)) ps t"
        using Cons.prems(2) p False by (intro Cons.IH [OF ok(3)]) (simp add: occurs_def)
      ultimately show ?thesis
        using False None p front [of n] by (simp del: fun_upd_apply add: fun_upd_other)
    qed
  next
    case (Some w)
    then have w: "CHR ''#'' \<notin> set w" using assms(2) by (auto simp: no_marks_def)
    have "replace_lim n ((seg @ w) @ ?f) (placeholder m) v = (seg @ w) @ replace_lim n ?f (placeholder m) v"
      using ok(1) w rest by (intro replace_text) auto
    moreover have "replace_lim n ?f (placeholder m) v = fill (\<sigma>(m \<mapsto> v)) ps t"
      using Cons.prems(2) p by (intro Cons.IH [OF ok(3)]) (auto simp: occurs_def split: if_splits)
    ultimately show ?thesis
      using Some p assms(4) by (cases "k = m") (auto simp del: fun_upd_apply simp: fun_upd_same fun_upd_other)
  qed
qed

section \<open>What is written\<close>

text \<open>The value of an item as the compiled file has it.\<close>

definition php_of :: "tools \<Rightarrow> (string, bytes option) gomap \<Rightarrow> string \<Rightarrow> string option" where
  "php_of T values n =
     (case mget values n of
        None \<Rightarrow> None
      | Some j \<Rightarrow> (case php_value T n (case j of Some b \<Rightarrow> b | None \<Rightarrow> []) of Ok v \<Rightarrow> Some v | _ \<Rightarrow> None))"

lemma compile_items_fill:
  assumes "schema_text ps t" and "distinct items"
    and "\<forall>n \<in> set items. item_name n \<and> (\<exists>v. php_of T values n = Some v \<and> CHR ''#'' \<notin> set v)"
    and "no_marks \<sigma>" and "\<forall>n \<in> set items. \<sigma> n = None"
  shows "compile_items E T values items (fill \<sigma> ps t, errMsg, s)
    = Some (Ok (fill (\<sigma> ++ (php_of T values |` set items)) ps t, errMsg, s))"
  using assms(2-5)
proof (induction items arbitrary: \<sigma>)
  case (Cons n items)
  obtain v where v: "php_of T values n = Some v" "CHR ''#'' \<notin> set v" using Cons.prems by auto
  obtain j where j: "mget values n = Some j" "php_value T n (case j of Some b \<Rightarrow> b | None \<Rightarrow> []) = Ok v"
    using v(1) by (auto simp: php_of_def split: option.splits res.splits)
  have "Replace (fill \<sigma> ps t) (placeholder n) v (-1) = fill (\<sigma>(n \<mapsto> v)) ps t"
    using Cons.prems assms(1) by (simp add: Replace_def replace_fill occurs_fill)
  then have step: "compile_item E T values n (fill \<sigma> ps t, errMsg, s) = Some (Ok (fill (\<sigma>(n \<mapsto> v)) ps t, errMsg, s))"
    using j by (simp add: compile_item_def)
  have "no_marks (\<sigma>(n \<mapsto> v))" using Cons.prems(3) v(2) by (auto simp: no_marks_def)
  then have "compile_items E T values items (fill (\<sigma>(n \<mapsto> v)) ps t, errMsg, s)
      = Some (Ok (fill (\<sigma>(n \<mapsto> v) ++ (php_of T values |` set items)) ps t, errMsg, s))"
    using Cons.prems by (intro Cons.IH) (assumption | simp | force)+
  moreover have "\<sigma>(n \<mapsto> v) ++ (php_of T values |` set items) = \<sigma> ++ (php_of T values |` set (n # items))"
    using v(1) Cons.prems(1) by (auto simp: fun_eq_iff map_add_def restrict_map_def split: option.split)
  ultimately show ?case using step by simp
qed (simp add: map_add_def restrict_map_def)

text \<open>C16: compiling a PHP schema file whose items all have a value writes one file, beside the schema
  file and without \<^verbatim>\<open>.schema\<close> in its name: the text of the schema with every placeholder
  replaced by the PHP form of its value, and the caution; no placeholder is left and no error is
  reported.\<close>

theorem compileSchemaFile_fills:
  assumes "schema_text ps t" and "fs_file (files E) filePath = Ok (render ps t)"
    and "\<forall>n \<in> snd ` set ps. \<exists>v. php_of T values n = Some v \<and> CHR ''#'' \<notin> set v"
    and "open_err T (take (length filePath - 11) filePath @ ''.php'') = None"
    and "write_err T (take (length filePath - 11) filePath @ ''.php'') = None"
  shows "compileSchemaFile E T values filePath w = Some (Ok None, w\<lparr>written := written w
      @ [(take (length filePath - 11) filePath @ ''.php'',
          add_caution (concat (map (\<lambda>(seg, n). seg @ the (php_of T values n)) ps) @ t))]\<rparr>)"
proof -
  let ?items = "StringSliceUnique (map snd ps)"
  have parts: "\<forall>(seg, n) \<in> set ps. CHR ''#'' \<notin> set seg \<and> item_name n" "CHR ''#'' \<notin> set t"
    using assms(1) by (auto simp: schema_text_def)
  have items: "ParseItems (files E) filePath = Ok ?items"
    using ParseItems_schema [OF parts assms(2)] .
  have names: "\<forall>n \<in> set ?items. item_name n \<and> (\<exists>v. php_of T values n = Some v \<and> CHR ''#'' \<notin> set v)"
    using assms(3) parts(1) by fastforce
  have "compile_items E T values ?items (fill Map.empty ps t, [], cl w)
      = Some (Ok (fill (Map.empty ++ (php_of T values |` set ?items)) ps t, [], cl w))"
    using names by (intro compile_items_fill [OF assms(1)]) (auto simp: no_marks_def)
  moreover have "fill (php_of T values |` set ?items) qs t = concat (map (\<lambda>(seg, n). seg @ the (php_of T values n)) qs) @ t"
    if "set qs \<subseteq> set ps" for qs
    using that
  proof (induction qs)
    case (Cons q qs)
    obtain seg n where q: "q = (seg, n)" by (cases q)
    then have n: "n \<in> set ?items" using Cons.prems by force
    then obtain v where "php_of T values n = Some v" using names by blast
    then show ?case using Cons q n by (simp add: restrict_map_def)
  qed simp
  ultimately show ?thesis
    using items assms(2,4,5) by (simp add: compileSchemaFile_def fill_render write_out_def errors_of_def err_list_def)
qed

text \<open>A schema file with two placeholders, and an interpreter that writes a \<^verbatim>\<open>7\<close>.\<close>

definition demo_tools :: tools where
  "demo_tools = \<lparr>temp_create = (\<lambda>_. None), temp_write = (\<lambda>_. None), run_php = (\<lambda>_ _. ([], None)),
     php_file = (\<lambda>_. Ok ''7''), open_err = (\<lambda>_. None), write_err = (\<lambda>_. None),
     compile_expr = (\<lambda>_. Err (ErrText ''missing argument to repetition operator'')), md5_hex = (\<lambda>_. ''0''),
     clock_lock = 0, clock_release = 0\<rparr>"

definition demo_world :: "(demo_db, (string, bytes) gomap) world" where
  "demo_world = \<lparr>cl = demo_client [], cbs = \<lparr>updatedSchemaFiles = [], updatedNodes = [], schemaToNodes = []\<rparr>,
     written = []\<rparr>"

theorem compileSchemaFile_fills_witness:
  "compileSchemaFile ((demo_env (Ok ()))\<lparr>files := demo_fs\<rparr>) demo_tools
       [(''Pay.Db.host'', Some ''7''), (''Pay.Db.port'', Some ''7'')] ''/p/db.schema.php'' demo_world
   = Some (Ok None, demo_world\<lparr>written := [(''/p/db.php'', add_caution ''host=7, port=7, again=7;'')]\<rparr>)"
proof -
  let ?ps = "[(''host='', ''Pay.Db.host''), ('', port='', ''Pay.Db.port''), ('', again='', ''Pay.Db.host'')]"
  let ?vs = "[(''Pay.Db.host'', Some ''7''), (''Pay.Db.port'', Some ''7'')] :: (string, bytes option) gomap"
  let ?E = "(demo_env (Ok ()))\<lparr>files := demo_fs\<rparr>"
  have "schema_text ?ps '';''" by code_simp
  moreover have "fs_file (files ?E) ''/p/db.schema.php'' = Ok (render ?ps '';'')" by (simp add: demo_fs_def)
  moreover have php: "php_of demo_tools ?vs ''Pay.Db.host'' = Some ''7''" "php_of demo_tools ?vs ''Pay.Db.port'' = Some ''7''"
    by (simp_all add: php_of_def php_value_def demo_tools_def)
  ultimately show ?thesis
    using compileSchemaFile_fills [of ?ps "'';''" ?E "''/p/db.schema.php''" demo_tools ?vs demo_world]
    by (simp add: demo_tools_def demo_world_def)
qed

end
