(* ===== verification/CompileToml.thy ===== *)
theory CompileToml
  imports Compile
begin

text \<open>
  \<^verbatim>\<open>compileTomlFile\<close> and \<^verbatim>\<open>compile\<close> (\<^verbatim>\<open>configwatcher/zk_watcher.go\<close>): a TOML schema file is
  copied line by line; the placeholders of a line are replaced by the TOML text of their values.  A
  value that is a table has its sections renamed to lie in the section of the line.
\<close>

section \<open>The expressions\<close>

definition dot :: "char \<Rightarrow> bool" where
  "dot c \<longleftrightarrow> c \<noteq> CHR 0x0A"

text \<open>\<^verbatim>\<open>"#{.+?}"\<close>\<close>

definition configFinder :: re where
  "configFinder = Seq (Lit open_mark) (Seq (LazyPlus (Cls dot)) (Lit close_mark))"

text \<open>\<^verbatim>\<open>^ *\[.+?\] *$\<close>\<close>

definition sectionFinder :: re where
  "sectionFinder =
     Seq (Star (Cls (\<lambda>c. c = CHR 0x20)))
       (Seq (Lit [CHR 0x5B]) (Seq (LazyPlus (Cls dot)) (Seq (Lit [CHR 0x5D]) (Seq (Star (Cls (\<lambda>c. c = CHR 0x20))) Eol))))"

text \<open>
  \<^verbatim>\<open>=(?:("[^\n]*")|([^ #\[\t\n]+)|(\[(.|\n|\r)*\]))\<close>, which follows the name of the node in the
  expression for a plain value.  The name is part of the expression as it is: when it has no
  character with a meaning of its own it stands for itself.
\<close>

definition value_re :: re where
  "value_re =
     Seq (Lit ''='')
       (Alt (Seq (Lit [CHR 0x22]) (Seq (Star (Cls dot)) (Lit [CHR 0x22])))
         (Alt (Plus (Cls (\<lambda>c. c \<notin> {CHR 0x20, CHR ''#'', CHR 0x5B, CHR 0x09, CHR 0x0A})))
           (Seq (Lit [CHR 0x5B]) (Seq (Star (Cls (\<lambda>_. True))) (Lit [CHR 0x5D])))))"

definition value_expr :: string where
  "value_expr = ''=(?:('' @ [CHR 0x22] @ ''[^'' @ [CHR 0x0A] @ '']*'' @ [CHR 0x22] @ '')|([^ #'' @ [CHR 0x5C] @ ''['' @ [CHR 0x09, CHR 0x0A]
     @ '']+)|('' @ [CHR 0x5C] @ ''[(.|'' @ [CHR 0x0A] @ ''|'' @ [CHR 0x0D] @ '')*'' @ [CHR 0x5C] @ '']))''"

definition literal_char :: "char \<Rightarrow> bool" where
  "literal_char c \<longleftrightarrow> (of_char c :: nat) < 128
     \<and> c \<notin> set ([CHR 0x5C, CHR 0x5B, CHR 0x5D, CHR 0x7B, CHR 0x7D] @ ''.+*?()|^$'')"

definition baseMatcher :: "tools \<Rightarrow> string \<Rightarrow> re res" where
  "baseMatcher T nodeLastName =
     (if list_all literal_char nodeLastName then Ok (Seq (Lit nodeLastName) value_re)
      else case compile_expr T (nodeLastName @ value_expr) of
             Ok r \<Rightarrow> Ok r
           | _ \<Rightarrow> Panic ''regexp: Compile'')"

text \<open>\<^verbatim>\<open>FindString\<close>: the leftmost match; every expression here needs at least one character.\<close>

definition FindString :: "re \<Rightarrow> string \<Rightarrow> string" where
  "FindString r s = (case find_all r s of [] \<Rightarrow> [] | m # _ \<Rightarrow> m)"

section \<open>The text of a value\<close>

abbreviation brackets :: "string \<Rightarrow> string" where
  "brackets s \<equiv> [CHR 0x5B] @ s @ [CHR 0x5D]"

abbreviation trim_section :: "string \<Rightarrow> string" where
  "trim_section s \<equiv> Trim s [CHR 0x5B, CHR 0x5D, CHR 0x20]"

abbreviation newline :: string where
  "newline \<equiv> [CHR 0x0A]"

text \<open>One row of a table; \<open>headed\<close> says that the table starts with its own name.\<close>

definition toml_row :: "bool \<Rightarrow> string \<Rightarrow> string \<Rightarrow> nat \<Rightarrow> string \<Rightarrow> string" where
  "toml_row headed section_name nodeLastName index line =
     (let row = TrimSpace line in
      if (index = 0 \<and> headed) \<or> row = [] \<or> HasPrefix row ''#'' then []
      else let contentSection = find_anchored sectionFinder row in
        if contentSection \<noteq> [] then
          brackets (trim_section (Replace contentSection (nodeLastName @ ''.'')
             (if section_name = [] then [] else section_name @ ''.'') 1)) @ newline
        else row @ newline)"

definition table_content :: "string \<Rightarrow> string \<Rightarrow> bool" where
  "table_content nodeLastName nodeContent \<longleftrightarrow>
     HasPrefix nodeContent (brackets nodeLastName) \<or> HasPrefix nodeContent ([CHR 0x5B] @ nodeLastName @ ''.'')"

definition nodeData :: "tools \<Rightarrow> string \<Rightarrow> string \<Rightarrow> string \<Rightarrow> string res" where
  "nodeData T section_name nodeLastName nodeContent =
     (if table_content nodeLastName nodeContent then
        let rows = Split nodeContent newline;
            headed = HasPrefix nodeContent (brackets nodeLastName)
        in Ok (concat (map (\<lambda>(i, row). toml_row headed section_name nodeLastName i row) (enumerate 0 rows)))
      else
        res_bind (baseMatcher T nodeLastName) (\<lambda>matcher.
          let configContent = FindString matcher nodeContent in
          Ok (if configContent = [] then nodeContent
              else Replace configContent (nodeLastName @ ''='') [] 1)))"

section \<open>The file\<close>

text \<open>The raw text of a node, fetched when it is not there.\<close>

definition raw_of ::
    "('d, 'e, 'o) env \<Rightarrow> 'o DebugConfigs option \<Rightarrow> string \<Rightarrow> string \<Rightarrow> ('d, 'e) client
     \<Rightarrow> string res \<times> ('d, 'e) client" where
  "raw_of E dbc filePath nodeName s =
     (case GetRawConfig nodeName (mem s) of
        Ok nodeContent \<Rightarrow> (Ok nodeContent, s)
      | _ \<Rightarrow>
          (case GetNewValueOfConfig E nodeName dbc filePath s of
             (Panic m, s') \<Rightarrow> (Panic m, s')
           | (_, s') \<Rightarrow> (GetRawConfig nodeName (mem s'), s')))"

fun toml_nodes ::
    "('d, 'e, 'o) env \<Rightarrow> tools \<Rightarrow> 'o DebugConfigs option \<Rightarrow> string \<Rightarrow> string \<Rightarrow> string list
     \<Rightarrow> string \<times> string list \<times> ('d, 'e) client \<Rightarrow> (string \<times> string list \<times> ('d, 'e) client) res" where
  "toml_nodes E T dbc filePath section_name [] acc = Ok acc"
| "toml_nodes E T dbc filePath section_name (matched # rest) (lineStr, errMsg, s) =
     (let nodeName = strip_marks matched in
      case raw_of E dbc filePath nodeName s of
        (Panic m, s') \<Rightarrow> Panic m
      | (Err e, s') \<Rightarrow>
          toml_nodes E T dbc filePath section_name rest
            (lineStr, errMsg @ [''Cannot find value for config['' @ nodeName @ ''].''], s')
      | (Ok nodeContent, s') \<Rightarrow>
          res_bind (nodeData T section_name (last (Split nodeName ''.'')) nodeContent) (\<lambda>data.
            toml_nodes E T dbc filePath section_name rest
              (Replace lineStr (placeholder nodeName) data 1000, errMsg, s')))"

fun toml_lines ::
    "('d, 'e, 'o) env \<Rightarrow> tools \<Rightarrow> 'o DebugConfigs option \<Rightarrow> string \<Rightarrow> string list
     \<Rightarrow> string \<times> string \<times> string list \<times> ('d, 'e) client \<Rightarrow> (string \<times> string list \<times> ('d, 'e) client) res" where
  "toml_lines E T dbc filePath [] (configContent, section_name, errMsg, s) = Ok (configContent, errMsg, s)"
| "toml_lines E T dbc filePath (l # ls) (configContent, section_name, errMsg, s) =
     (let line = TrimSpace l in
      if line = [] then toml_lines E T dbc filePath ls (configContent, section_name, errMsg, s)
      else if find_anchored sectionFinder line \<noteq> [] then
        toml_lines E T dbc filePath ls (configContent @ line @ newline, trim_section line, errMsg, s)
      else
        res_bind (toml_nodes E T dbc filePath section_name (take 1000 (find_all configFinder line)) (line, errMsg, s))
          (\<lambda>(lineStr, errMsg', s').
             toml_lines E T dbc filePath ls (configContent @ lineStr @ newline, section_name, errMsg', s')))"

definition load_dbc :: "('d, 'e, 'o) env \<Rightarrow> 'o DebugConfigs option res" where
  "load_dbc E =
     (if DEVMODE (cfg E) then
        (case LoadDebugConfigs (load E) (files E) (cfg E) of
           Ok dbc \<Rightarrow> Ok (Some dbc) | Err _ \<Rightarrow> Ok None | Panic m \<Rightarrow> Panic m)
      else Ok None)"

definition compileTomlFile ::
    "('d, 'e, 'o) env \<Rightarrow> tools \<Rightarrow> string \<Rightarrow> ('d, 'e) world \<Rightarrow> goerr option res \<times> ('d, 'e) world" where
  "compileTomlFile E T filePath w =
     (case fs_file (files E) filePath of
        Err e \<Rightarrow> (Ok (Some e), w)
      | Panic m \<Rightarrow> (Panic m, w)
      | Ok content \<Rightarrow>
          (case res_bind (load_dbc E) (\<lambda>dbc.
                  toml_lines E T dbc filePath (Split content newline) ([], [], [], cl w)) of
             Err e \<Rightarrow> (Err e, w)
           | Panic m \<Rightarrow> (Panic m, w)
           | Ok (configContent, errMsg, s) \<Rightarrow>
               (case write_out T (Replace filePath ''.schema.'' ''.'' 1) configContent (w\<lparr>cl := s\<rparr>) of
                  (errO, _, w') \<Rightarrow> (Ok (errors_of (errMsg @ err_list errO)), w'))))"

definition compile ::
    "('d, 'e, 'o) env \<Rightarrow> tools \<Rightarrow> (string, bytes option) gomap \<Rightarrow> string \<Rightarrow> ('d, 'e) world
     \<Rightarrow> (goerr option res \<times> ('d, 'e) world) option" where
  "compile E T values filePath w =
     (if HasSuffix filePath ''.schema.toml'' then
        Some (compileTomlFile E T filePath (w\<lparr>cbs := AddUpdatedSchemafiles filePath (cbs w)\<rparr>))
      else if HasSuffix filePath ''.schema.php'' then
        compileSchemaFile E T values filePath (w\<lparr>cbs := AddUpdatedSchemafiles filePath (cbs w)\<rparr>)
      else Some (Ok (Some (ErrText ''Unknown schema file type'')), w))"

section \<open>What the expressions find\<close>

lemma mt_configFinder:
  assumes "item_name n"
  shows "\<exists>ts. mt configFinder (placeholder n @ rest) = rest # ts"
proof -
  obtain c u where n: "n = c # u" using assms by (cases n) (auto simp: item_name_def)
  have name: "list_all name_char (c # u)" using assms n by (simp add: item_name_def)
  then have "list_all dot (c # u)" by (auto simp: list_all_iff name_char_def word_char_def dot_def)
  moreover have "\<not> prefix close_mark (b @ close_mark @ rest)" if "u = a @ b" "b \<noteq> []" for a b
    using name that by (cases b) (auto simp: name_char_def word_char_def)
  ultimately have "\<exists>ts. concat (map (mt (Lit close_mark)) (mt (LazyStar (Cls dot)) (u @ close_mark @ rest))) = rest # ts"
    by (intro mt_lazy_first) auto
  then show ?thesis using \<open>list_all dot (c # u)\<close>
    by (simp del: Lit.simps add: configFinder_def placeholder_def LazyPlus_def mt_Lit n)
qed

lemma configFinder_open: "\<not> prefix open_mark s \<Longrightarrow> mt configFinder s = []"
  by (simp add: configFinder_def mt_Lit del: Lit.simps)

lemma find_all_config_text:
  assumes "CHR ''#'' \<notin> set seg" and "safe_start rest"
  shows "find_all configFinder (seg @ rest) = find_all configFinder rest"
  using assms(1)
proof (induction seg)
  case (Cons c seg)
  have "\<not> prefix open_mark (c # seg @ rest)"
    using Cons.prems assms(2) by (cases seg; cases rest) auto
  then show ?case using Cons by (simp add: find_all_skip configFinder_open)
qed simp

lemma find_all_config_render:
  assumes "schema_text ps t"
  shows "find_all configFinder (render ps t) = map placeholder (map snd ps)"
  using assms
proof (induction ps)
  case Nil
  then show ?case using find_all_config_text [of t "[]"] by (simp add: schema_text_def)
next
  case (Cons p ps)
  obtain seg n where p: "p = (seg, n)" by (cases p)
  with Cons.prems have ok: "CHR ''#'' \<notin> set seg" "item_name n" "schema_text ps t"
    by (auto simp: schema_text_def)
  obtain ts where "mt configFinder (placeholder n @ render ps t) = render ps t # ts"
    using mt_configFinder [OF ok(2)] by blast
  then show ?case
    using find_all_config_text [OF ok(1), of "placeholder n @ render ps t"] Cons.IH [OF ok(3)] p
    by (simp add: hd_placeholder find_all_first placeholder_not_Nil)
qed

lemma not_section:
  assumes "hd line \<notin> {CHR 0x20, CHR 0x5B}" "line \<noteq> []"
  shows "find_anchored sectionFinder line = []"
proof -
  have "\<not> matches sectionFinder line t" for t
  proof
    assume "matches sectionFinder line t"
    then obtain u v where "line = u @ CHR 0x5B # v" "list_all (\<lambda>c. c = CHR 0x20) u"
      by (auto simp: sectionFinder_def matches_Star_Cls)
    then show False using assms by (cases u) auto
  qed
  then have "mt sectionFinder line = []" by (simp add: mt_Nil_iff)
  then show ?thesis by (simp add: find_anchored_def)
qed

text \<open>The plain values: no quote at the start and none of the characters that end a value.\<close>

definition scalar :: "string \<Rightarrow> bool" where
  "scalar v \<longleftrightarrow> v \<noteq> [] \<and> hd v \<noteq> CHR 0x22 \<and> list_all (\<lambda>c. c \<notin> {CHR 0x20, CHR ''#'', CHR 0x5B, CHR 0x09, CHR 0x0A}) v"

abbreviation last_name :: "string \<Rightarrow> string" where
  "last_name n \<equiv> last (Split n ''.'')"

lemma name_literal: "name_char c \<Longrightarrow> c \<noteq> CHR ''.'' \<Longrightarrow> literal_char c"
  by (auto simp: name_char_def word_char_def literal_char_def Let_def)

lemma last_name_chars:
  assumes "item_name n"
  shows "last_name n \<noteq> []" "list_all literal_char (last_name n)" "hd (last_name n) \<noteq> CHR 0x5B"
proof -
  have l: "last_name n = rev (takeWhile (\<lambda>x. x \<noteq> CHR ''.'') (rev n))"
    by (simp add: Split_eq_split_on last_split_on)
  obtain c m where n: "rev n = c # m" "word_char c"
    using assms by (cases "rev n") (auto simp: item_name_def last_rev hd_rev [symmetric])
  then show ne: "last_name n \<noteq> []" unfolding l by (auto simp: word_char_def)
  have "c \<in> set n \<and> c \<noteq> CHR ''.''" if "c \<in> set (last_name n)" for c
    using that unfolding l by (auto dest: set_takeWhileD)
  then show lit: "list_all literal_char (last_name n)"
    using assms by (auto simp: list_all_iff item_name_def intro: name_literal)
  then show "hd (last_name n) \<noteq> CHR 0x5B"
    using ne by (cases "last_name n") (auto simp: literal_char_def)
qed

lemma FindString_scalar:
  assumes "scalar v"
  shows "FindString (Seq (Lit k) value_re) (k @ ''='' @ v) = k @ ''='' @ v"
proof -
  let ?P = "\<lambda>c. c \<notin> {CHR 0x20, CHR ''#'', CHR 0x5B, CHR 0x09, CHR 0x0A}"
  obtain c u where v: "v = c # u" using assms by (cases v) (auto simp: scalar_def)
  have dw: "dropWhile ?P u = []" using assms v by (auto simp: scalar_def list_all_iff)
  have "?P c" using assms v by (simp add: scalar_def)
  from mt_Plus_Cls_hd [of ?P, OF this, of u] obtain ts where "mt (Plus (Cls ?P)) v = [] # ts"
    unfolding dw v by blast
  moreover have "mt (Lit [CHR 0x22]) v = []" using assms v by (auto simp: mt_Lit scalar_def simp del: Lit.simps)
  ultimately have "\<exists>ts. mt (Seq (Lit k) value_re) ((k @ ''='' @ v) @ []) = [] # ts"
    by (simp add: value_re_def mt_Lit del: Lit.simps)
  then obtain ts' where "mt (Seq (Lit k) value_re) ((k @ ''='' @ v) @ []) = [] # ts'" by blast
  from find_all_first [OF this] show ?thesis by (simp add: FindString_def)
qed

lemma nodeData_scalar:
  assumes "item_name n" "scalar v"
  shows "nodeData T section_name (last_name n) (last_name n @ ''='' @ v) = Ok v"
proof -
  note l = last_name_chars [OF assms(1)]
  have "\<not> table_content (last_name n) (last_name n @ ''='' @ v)"
    using l(1,3) by (cases "last_name n") (auto simp: table_content_def HasPrefix_def)
  moreover have "baseMatcher T (last_name n) = Ok (Seq (Lit (last_name n)) value_re)"
    using l(2) by (simp add: baseMatcher_def)
  moreover have "Replace ((last_name n @ ''='') @ v) (last_name n @ ''='') [] 1 = v"
    using replace_lim_hit [of "last_name n @ ''=''" 0 v "[]"] by (simp add: Replace_def)
  ultimately show ?thesis using FindString_scalar [OF assms(2), of "last_name n"] by (simp add: nodeData_def Let_def)
qed

section \<open>What is written\<close>

text \<open>
  A line of a TOML schema: a text with placeholders, without blanks around it and not the head of a
  section when it has a placeholder.  \<open>raw_ok\<close>: the raw text of a name is the plain value that \<open>\<rho>\<close> gives it.
\<close>

definition toml_line :: "(string \<times> string) list \<times> string \<Rightarrow> bool" where
  "toml_line l \<longleftrightarrow> (case l of (ps, t) \<Rightarrow>
     schema_text ps t \<and> length ps \<le> 1000 \<and> TrimSpace (render ps t) = render ps t \<and> CHR 0x0A \<notin> set (render ps t)
     \<and> (ps \<noteq> [] \<longrightarrow> hd (render ps t) \<notin> {CHR 0x20, CHR 0x5B}))"

definition raw_ok :: "mem_state \<Rightarrow> (string \<rightharpoonup> string) \<Rightarrow> string set \<Rightarrow> bool" where
  "raw_ok m \<rho> names \<longleftrightarrow>
     (\<forall>n \<in> names. \<exists>v. \<rho> n = Some v \<and> scalar v \<and> GetRawConfig n m = Ok (last_name n @ ''='' @ v))"

lemma occurs_le: "occurs m ps \<le> length ps"
  by (simp add: occurs_def)

lemma toml_nodes_fill:
  assumes "schema_text ps t" and "length ps \<le> 1000"
    and "\<forall>n \<in> set ns. item_name n" and "raw_ok (mem s) \<rho> (set ns)"
    and "no_marks \<sigma>" and "\<forall>n \<in> set ns. \<sigma> n = None \<or> \<sigma> n = \<rho> n"
  shows "toml_nodes E T dbc f sec (map placeholder ns) (fill \<sigma> ps t, errMsg, s)
    = Ok (fill (\<sigma> ++ (\<rho> |` set ns)) ps t, errMsg, s)"
  using assms(3-6)
proof (induction ns arbitrary: \<sigma>)
  case (Cons n ns)
  obtain v where v: "\<rho> n = Some v" "scalar v" "GetRawConfig n (mem s) = Ok (last_name n @ ''='' @ v)"
    using Cons.prems(2) by (auto simp: raw_ok_def)
  have name: "item_name n" using Cons.prems(1) by simp
  have mark: "CHR ''#'' \<notin> set v" using v(2) by (auto simp: scalar_def list_all_iff)
  have "occurs n ps \<le> 1000" using occurs_le [of n ps] assms(2) by simp
  then have "Replace (fill \<sigma> ps t) (placeholder n) v 1000 = fill (\<sigma>(n \<mapsto> v)) ps t"
    using Cons.prems(3,4) v(1) name unfolding Replace_def by (auto intro: replace_fill [OF assms(1)])
  then have step: "toml_nodes E T dbc f sec (map placeholder (n # ns)) (fill \<sigma> ps t, errMsg, s)
      = toml_nodes E T dbc f sec (map placeholder ns) (fill (\<sigma>(n \<mapsto> v)) ps t, errMsg, s)"
    using v(3) name nodeData_scalar [OF name v(2), of T sec]
    by (simp del: fun_upd_apply add: strip_marks_placeholder raw_of_def)
  have "no_marks (\<sigma>(n \<mapsto> v))" using Cons.prems(3) mark by (auto simp: no_marks_def)
  then have IH: "toml_nodes E T dbc f sec (map placeholder ns) (fill (\<sigma>(n \<mapsto> v)) ps t, errMsg, s)
      = Ok (fill (\<sigma>(n \<mapsto> v) ++ (\<rho> |` set ns)) ps t, errMsg, s)"
    using Cons.prems v(1) by (intro Cons.IH) (assumption | simp add: raw_ok_def)+
  have "\<sigma>(n \<mapsto> v) ++ (\<rho> |` set ns) = \<sigma> ++ (\<rho> |` set (n # ns))"
    using v(1) by (auto simp: fun_eq_iff map_add_def restrict_map_def split: option.split)
  with step IH show ?case by simp
qed (simp add: map_add_def restrict_map_def)

lemma toml_lines_fill:
  assumes "\<forall>l \<in> set ls. toml_line l" and "raw_ok (mem s) \<rho> (\<Union>l \<in> set ls. snd ` set (fst l))"
  shows "\<exists>sec'. toml_lines E T dbc f (map (\<lambda>(ps, t). render ps t) ls @ rest) (out, sec, errMsg, s)
    = toml_lines E T dbc f rest
        (out @ concat (map (\<lambda>(ps, t). if render ps t = [] then [] else fill \<rho> ps t @ newline) ls), sec', errMsg, s)"
  using assms
proof (induction ls arbitrary: out sec)
  case (Cons l ls)
  obtain ps t where l: "l = (ps, t)" by (cases l)
  have line: "schema_text ps t" "length ps \<le> 1000" "TrimSpace (render ps t) = render ps t"
      "ps \<noteq> [] \<longrightarrow> hd (render ps t) \<notin> {CHR 0x20, CHR 0x5B}"
    using Cons.prems(1) l by (auto simp: toml_line_def)
  have raws: "raw_ok (mem s) \<rho> (snd ` set ps)" using Cons.prems(2) l by (auto simp: raw_ok_def)
  have names: "\<forall>n \<in> set (map snd ps). item_name n" using line(1) by (auto simp: schema_text_def)
  have f: "fill (\<rho> |` (snd ` set ps)) qs t = fill \<rho> qs t" if "set qs \<subseteq> set ps" for qs
    using that
  proof (induction qs)
    case (Cons q qs)
    then have "snd q \<in> snd ` set ps" by auto
    then show ?case using Cons by (cases q) (simp add: restrict_map_def)
  qed simp
  have nodes: "toml_nodes E T dbc f sec (take 1000 (find_all configFinder (render ps t))) (render ps t, errMsg, s)
      = Ok (fill \<rho> ps t, errMsg, s)"
    using toml_nodes_fill [OF line(1,2) names, of s \<rho> Map.empty E T dbc f sec errMsg] raws line(2) f [of ps]
    by (simp add: find_all_config_render [OF line(1)] fill_render no_marks_def image_image)
  have ih: "\<exists>sec'. toml_lines E T dbc f (map (\<lambda>(ps, t). render ps t) ls @ rest) (out', sec1, errMsg, s)
    = toml_lines E T dbc f rest
        (out' @ concat (map (\<lambda>(ps, t). if render ps t = [] then [] else fill \<rho> ps t @ newline) ls), sec', errMsg, s)"
    for out' sec1 using Cons.prems by (intro Cons.IH) (auto simp: raw_ok_def)
  show ?case
  proof (cases "render ps t = []")
    case True
    then show ?thesis using l line(3) ih by (simp add: Let_def)
  next
    case False
    show ?thesis
    proof (cases "find_anchored sectionFinder (render ps t) = []")
      case True
      then show ?thesis using False l line(3) nodes ih [of "out @ fill \<rho> ps t @ newline" sec]
        by (simp add: Let_def)
    next
      case sec: False
      then have "ps = []" using not_section [of "render ps t"] False line(4) by blast
      then show ?thesis using sec False l line(3) ih [of "out @ t @ newline" "trim_section t"]
        by (simp add: Let_def)
    qed
  qed
qed auto

text \<open>C17: compiling a TOML schema file whose items all have a plain value as their raw text writes one file,
  beside the schema file and without \<^verbatim>\<open>.schema\<close> in its name: every line of the schema that is
  not blank, in order, with each placeholder replaced by its value; no error is reported.\<close>

theorem compileTomlFile_fills:
  assumes "fs_file (files E) filePath = Ok (Join (map (\<lambda>(ps, t). render ps t) ls) newline)"
    and "\<forall>l \<in> set ls. toml_line l" and "ls \<noteq> []"
    and "raw_ok (mem (cl w)) \<rho> (\<Union>l \<in> set ls. snd ` set (fst l))"
    and "load_dbc E = Ok dbc"
    and "open_err T (Replace filePath ''.schema.'' ''.'' 1) = None"
    and "write_err T (Replace filePath ''.schema.'' ''.'' 1) = None"
  shows "compileTomlFile E T filePath w = (Ok None, w\<lparr>written := written w
      @ [(Replace filePath ''.schema.'' ''.'' 1,
          concat (map (\<lambda>(ps, t). if render ps t = [] then [] else fill \<rho> ps t @ newline) ls))]\<rparr>)"
proof -
  have "Split (Join (map (\<lambda>(ps, t). render ps t) ls) newline) newline = map (\<lambda>(ps, t). render ps t) ls"
    unfolding Split_eq_split_on using assms(2,3) by (intro split_on_Join) (auto simp: toml_line_def)
  then show ?thesis
    using toml_lines_fill [OF assms(2,4), of E T dbc filePath "[]" "[]" "[]" "[]"] assms(1,5-7)
    by (auto simp: compileTomlFile_def write_out_def errors_of_def err_list_def)
qed

definition demo_toml :: "((string \<times> string) list \<times> string) list" where
  "demo_toml = [([], brackets ''db''), ([(''port='', ''Pay.Db.port'')], []), ([], []), ([(''a='', ''Pay.n''), ('', b='', ''Pay.n'')], [])]"

definition demo_raw :: mem_state where
  "demo_raw = \<lparr>memCachedProjectConfigs = [], rawConfig = [(''Pay.Db.port'', ''port=3306''), (''Pay.n'', ''n=true'')]\<rparr>"

theorem compileTomlFile_fills_witness:
  "compileTomlFile ((demo_env (Ok ()))\<lparr>files := demo_fs\<lparr>fs_file := (\<lambda>_. Ok (Join (map (\<lambda>(ps, t). render ps t) demo_toml) newline))\<rparr>\<rparr>)
       demo_tools ''/p/db.schema.toml'' (demo_world\<lparr>cl := (demo_client [])\<lparr>mem := demo_raw\<rparr>\<rparr>)
   = (Ok None, demo_world\<lparr>cl := (demo_client [])\<lparr>mem := demo_raw\<rparr>,
        written := [(''/p/db.toml'', brackets ''db'' @ newline @ ''port=3306'' @ newline @ ''a=true, b=true'' @ newline)]\<rparr>)"
proof -
  let ?E = "(demo_env (Ok ()))\<lparr>files := demo_fs\<lparr>fs_file := (\<lambda>_. Ok (Join (map (\<lambda>(ps, t). render ps t) demo_toml) newline))\<rparr>\<rparr>"
  let ?w = "demo_world\<lparr>cl := (demo_client [])\<lparr>mem := demo_raw\<rparr>\<rparr>"
  let ?\<rho> = "[''Pay.Db.port'' \<mapsto> ''3306'', ''Pay.n'' \<mapsto> ''true'']"
  have "\<forall>l \<in> set demo_toml. case l of (ps, t) \<Rightarrow> schema_text ps t \<and> CHR 0x0A \<notin> set (render ps t)
      \<and> (render ps t = [] \<or> visible (hd (render ps t)) \<and> visible (last (render ps t)))
      \<and> (ps \<noteq> [] \<longrightarrow> hd (render ps t) \<notin> {CHR 0x20, CHR 0x5B})" by code_simp
  moreover have "\<forall>l \<in> set demo_toml. length (fst l) \<le> 1000" by (simp add: demo_toml_def)
  ultimately have lines: "\<forall>l \<in> set demo_toml. toml_line l"
    using TrimSpace_id by (fastforce simp: toml_line_def)
  have names: "(\<Union>l \<in> set demo_toml. snd ` set (fst l)) = {''Pay.Db.port'', ''Pay.n''}" by (auto simp: demo_toml_def)
  have last: "last_name ''Pay.Db.port'' = ''port''" "last_name ''Pay.n'' = ''n''" by code_simp+
  have "raw_ok (mem (cl ?w)) ?\<rho> (\<Union>l \<in> set demo_toml. snd ` set (fst l))"
    unfolding names raw_ok_def by (simp add: last demo_raw_def GetRawConfig_def scalar_def)
  moreover have "load_dbc ?E = Ok None"
    by (simp add: load_dbc_def demo_env_def demo_config_def zero_config_def)
  moreover have path: "Replace ''/p/db.schema.toml'' ''.schema.'' ''.'' 1 = ''/p/db.toml''" by code_simp
  ultimately show ?thesis
    using compileTomlFile_fills [where ?E = ?E and filePath = "''/p/db.schema.toml''" and ls = demo_toml
        and w = ?w and \<rho> = ?\<rho> and dbc = None and T = demo_tools] lines
    by (simp add: demo_tools_def demo_world_def) (simp add: demo_toml_def placeholder_def)
qed

end
