(* ===== verification/Service.thy ===== *)
theory Service
  imports Framing Statistics Registry CompileToml
begin

text \<open>
  The local service: \<^verbatim>\<open>handler/base.go\<close>, \<^verbatim>\<open>handler/project_config.go\<close> and, of
  \<^verbatim>\<open>connection/conn_handler.go\<close>, \<^verbatim>\<open>processRequest\<close>, \<^verbatim>\<open>runRequestHandler\<close> and \<^verbatim>\<open>HandleConn\<close>.
  \<open>service\<close> is the state that a request changes: the client, the registry of configurations, the work
  that the handler leaves to a goroutine, and the messages to the statistics in the order in which their
  goroutines start.  The clock readings of a request are arguments.
\<close>

record clocks =
  t_reg :: int
  t_acc :: int
  t_lock :: int
  t_release :: int

record ('d, 'e) service =
  svc :: "('d, 'e) client"
  sreg :: registry
  deferred :: "(string \<times> bytes option \<times> bytes) list"
  stats_sent :: "StatsMessage list"

section \<open>The handlers\<close>

text \<open>
  \<^verbatim>\<open>GetProjectConfig.Process\<close>.  The goroutine that stores a new value is an entry of \<open>deferred\<close>; without
  a new value it does nothing.
\<close>

definition Process ::
    "('d, 'e, 'o) env \<Rightarrow> clocks \<Rightarrow> (string \<times> json) list \<Rightarrow> ('d, 'e) service
     \<Rightarrow> (bytes option res \<times> ('d, 'e) service) option" where
  "Process E t args w =
     (case mget args ''name'' of
        Some (JStr name) \<Rightarrow>
          (case load_dbc E of
             Panic m \<Rightarrow> Some (Panic m, w)
           | Err e \<Rightarrow> Some (Err e, w)
           | Ok dbc \<Rightarrow>
               (case TouchDynamicNode E (t_reg t) (t_acc t) name (sreg w) (svc w) of
                  (hasBeenWatching, r, s) \<Rightarrow>
                    if hasBeenWatching then
                      (case GetConfig E (t_lock t) (t_release t) name dbc [] True s of
                         None \<Rightarrow> None
                       | Some (re, s') \<Rightarrow> Some (re, w\<lparr>svc := s', sreg := r\<rparr>))
                    else
                      (case GetNewValueOfConfig E name dbc [] s of
                         (Panic m, s') \<Rightarrow> Some (Panic m, w\<lparr>svc := s', sreg := r\<rparr>)
                       | (Err e, s') \<Rightarrow> Some (Err e, w\<lparr>svc := s', sreg := r\<rparr>)
                       | (Ok v, s') \<Rightarrow>
                           Some ((case cErr v of Some e \<Rightarrow> Err e | None \<Rightarrow> Ok (valueSerialized v)),
                             w\<lparr>svc := s', sreg := r,
                               deferred := deferred w @
                                 (if cErr v = None \<and> \<not> isDebugValue v \<and> hasUpdate v
                                  then [(name, valueSerialized v, valuePlain v)] else [])\<rparr>))))
      | _ \<Rightarrow> Some (Panic ''interface conversion: not string'', w))"

text \<open>The goroutine; the error of \<^verbatim>\<open>SaveToDisk\<close> is not looked at.\<close>

definition store_deferred ::
    "('d, 'e, 'o) env \<Rightarrow> string \<times> bytes option \<times> bytes \<Rightarrow> ('d, 'e) client \<Rightarrow> ('d, 'e) client" where
  "store_deferred E job s =
     (case job of (name, re, plain) \<Rightarrow> snd (SaveToDisk E name plain (s\<lparr>mem := StoreToMem name re (mem s)\<rparr>)))"

definition run_deferred :: "('d, 'e, 'o) env \<Rightarrow> ('d, 'e) service \<Rightarrow> ('d, 'e) service" where
  "run_deferred E w = w\<lparr>svc := fold (store_deferred E) (deferred w) (svc w), deferred := []\<rparr>"

definition HandlerExists :: "string \<Rightarrow> bool" where
  "HandlerExists n \<longleftrightarrow> n = ''GetProjectConfig''"

definition Run ::
    "('d, 'e, 'o) env \<Rightarrow> clocks \<Rightarrow> string \<Rightarrow> (string \<times> json) list \<Rightarrow> ('d, 'e) service
     \<Rightarrow> (bytes option res \<times> ('d, 'e) service) option" where
  "Run E t n args w =
     (if \<not> HandlerExists n
      then Some (Err (ErrorHandleNotExists (''Method '' @ [CHR 0x22] @ n @ [CHR 0x22] @ '' not exists!'')), w)
      else Process E t args w)"

section \<open>One request\<close>

definition sendStats :: "StatsMessage \<Rightarrow> ('d, 'e) service \<Rightarrow> ('d, 'e) service" where
  "sendStats msg w = w\<lparr>stats_sent := stats_sent w @ [msg]\<rparr>"

text \<open>
  \<open>late\<close>: the handler answers after the timeout.  The answer is then sent to a channel that nobody reads any
  more, so the goroutine of the handler stops there and the last message is not sent.  A handler that
  waits for another goroutine (\<open>None\<close>) is late as well.
\<close>

definition runRequestHandler ::
    "('d, 'e, 'o) env \<Rightarrow> clocks \<Rightarrow> bool \<Rightarrow> string \<Rightarrow> (string \<times> json) list \<Rightarrow> ('d, 'e) service
     \<Rightarrow> bytes option res \<times> ('d, 'e) service" where
  "runRequestHandler E t late cmd args w =
     (let w1 = sendStats \<lparr>sm_cmd = cmd, sm_action = CONNACTION_ACCEPT, sm_status = CONNACTION_STATUS_OK\<rparr> w in
      case Run E t cmd args w1 of
        None \<Rightarrow> (Err (ErrText ''Process timeout.''), w1)
      | Some (Panic m, w2) \<Rightarrow> (Panic m, w2)
      | Some (r, w2) \<Rightarrow>
          if late then (Err (ErrText ''Process timeout.''), w2)
          else (r, sendStats \<lparr>sm_cmd = cmd, sm_action = CONNACTION_PROCESS_FIN,
                     sm_status = (case r of Err _ \<Rightarrow> CONNACTION_STATUS_FAILED | _ \<Rightarrow> CONNACTION_STATUS_OK)\<rparr> w2))"

definition processRequest ::
    "('d, 'e, 'o) env \<Rightarrow> clocks \<Rightarrow> bool \<Rightarrow> bytes \<Rightarrow> ('d, 'e) service \<Rightarrow> bytes option res \<times> ('d, 'e) service" where
  "processRequest E t late requestData w =
     (case UnmarshalMap requestData of
        Err e \<Rightarrow>
          (Err (ErrText (''Failed to decode client data: '' @ err_text e @ [CHR 0x0A] @ ''Raw data: '' @ requestData)), w)
      | Panic m \<Rightarrow> (Panic m, w)
      | Ok clientData \<Rightarrow>
          (case mget clientData ''cmd'' of
             Some (JStr cmd) \<Rightarrow>
               (case mget clientData ''args'' of
                  Some (JObj args) \<Rightarrow> runRequestHandler E t late cmd args w
                | _ \<Rightarrow> (Panic ''interface conversion: not map[string]interface {}'', w))
           | _ \<Rightarrow> (Panic ''interface conversion: not string'', w)))"

text \<open>The status and the data of the answer.\<close>

definition answer :: "bytes option res \<Rightarrow> string \<times> bytes" where
  "answer r =
     (case r of
        Ok (Some re) \<Rightarrow> (''ok'', re)
      | Ok None \<Rightarrow> (''ok'', [])
      | Err e \<Rightarrow> (''failed'', marshal (\<lambda>_. []) (JStr (err_text e)))
      | Panic m \<Rightarrow> ([], []))"

section \<open>One connection\<close>

definition ev_size :: "event list \<Rightarrow> nat" where
  "ev_size evs = sum_list (map (\<lambda>e. case e of Data d \<Rightarrow> Suc (length d) | Fail _ \<Rightarrow> 1) evs)"

lemma ev_size_simps [simp]:
  "ev_size [] = 0" "ev_size (Data d # evs) = Suc (length d) + ev_size evs" "ev_size (Fail e # evs) = Suc (ev_size evs)"
  by (simp_all add: ev_size_def)

lemma read_full_size:
  "read_full need got evs = Some (b, e, evs') \<Longrightarrow> ev_size evs' \<le> ev_size evs \<and> (need > 0 \<longrightarrow> ev_size evs' < ev_size evs)"
proof (induction evs arbitrary: need got)
  case Nil
  then show ?case by (simp add: read_full.simps split: if_splits)
next
  case (Cons ev evs)
  show ?case
  proof (cases ev)
    case (Data d)
    show ?thesis
    proof (cases "need \<noteq> 0 \<and> length d \<le> need")
      case True
      then have "read_full (need - length d) (got @ d) evs = Some (b, e, evs')"
        using Cons.prems Data by (simp add: read_full.simps [of need])
      from Cons.IH [OF this] Data show ?thesis by auto
    next
      case False
      then show ?thesis using Cons.prems Data by (auto simp: read_full.simps [of need] split: if_splits)
    qed
  next
    case (Fail x)
    then show ?thesis using Cons.prems by (auto simp: read_full.simps [of need] split: if_splits)
  qed
qed

lemma readRequest_size: "readRequest evs = Some (req, evs') \<Longrightarrow> ev_size evs' < ev_size evs"
  unfolding readRequest_def
  by (auto simp: HEAD_TAG_LENGTH_def Let_def split: option.splits prod.splits if_splits res.splits
      dest!: read_full_size)

text \<open>
  The loop of \<^verbatim>\<open>HandleConn\<close>.  At its \<open>i\<close>-th turn \<open>stop i\<close> says whether a stopping signal is taken, \<open>late i\<close>
  whether the handler is late, \<open>werr i\<close> which writes fail.  The result: whether \<^verbatim>\<open>Unuse\<close> was called, what was
  written and the new state.  \<open>None\<close>: nothing arrives any more.
\<close>

record conn_env =
  stop :: "nat \<Rightarrow> bool"
  late :: "nat \<Rightarrow> bool"
  werr :: "nat \<Rightarrow> nat \<Rightarrow> goerr option"
  clock :: "nat \<Rightarrow> clocks"

function handle_loop ::
    "('d, 'e, 'o) env \<Rightarrow> conn_env \<Rightarrow> nat \<Rightarrow> event list \<Rightarrow> bytes \<Rightarrow> ('d, 'e) service
     \<Rightarrow> (bool \<times> bytes \<times> ('d, 'e) service) res option" where
  "handle_loop E C i evs out w =
     (if stop C i then Some (Ok (False, out, w))
      else case readRequest evs of
             None \<Rightarrow> None
           | Some (request, evs') \<Rightarrow>
               if Closed request \<or> ReqErr request \<noteq> None then Some (Ok (True, out, w))
               else (case processRequest E (clock C i) (late C i) (case Body request of Some b \<Rightarrow> b | None \<Rightarrow> []) w of
                       (Panic m, w') \<Rightarrow> Some (Panic m)
                     | (r, w') \<Rightarrow>
                         (case response (werr C i) (fst (answer r)) (snd (answer r)) of
                            Panic m \<Rightarrow> Some (Panic m)
                          | Err e \<Rightarrow> Some (Err e)
                          | Ok (Some e, sent) \<Rightarrow> Some (Ok (True, out @ sent, w'))
                          | Ok (None, sent) \<Rightarrow> handle_loop E C (Suc i) evs' (out @ sent) w')))"
  by pat_completeness auto
termination
  by (relation "measure (\<lambda>(E, C, i, evs, out, w). ev_size evs)") (auto dest: readRequest_size)

declare handle_loop.simps [simp del]

text \<open>
  \<^verbatim>\<open>HandleConn\<close>: by how much the counter of users has changed, what was written, and the new state.
\<close>

definition HandleConn ::
    "('d, 'e, 'o) env \<Rightarrow> conn_env \<Rightarrow> bool \<Rightarrow> event list \<Rightarrow> ('d, 'e) service
     \<Rightarrow> (int \<times> bytes \<times> ('d, 'e) service) res option" where
  "HandleConn E C isServerStopping evs w =
     (if isServerStopping then Some (Ok (0, tagClose, w))
      else case handle_loop E C 0 evs [] w of
             None \<Rightarrow> None
           | Some r \<Rightarrow> Some (res_bind r (\<lambda>(unused, out, w').
               Ok (if unused then 0 else 1, out @ tagClose, w'))))"

section \<open>A session\<close>

text \<open>The requests of a session worked off in order: the specification of the loop.\<close>

fun serve ::
    "('d, 'e, 'o) env \<Rightarrow> conn_env \<Rightarrow> nat \<Rightarrow> bytes list \<Rightarrow> ('d, 'e) service
     \<Rightarrow> bytes option res list \<times> ('d, 'e) service" where
  "serve E C i [] w = ([], w)"
| "serve E C i (b # bodies) w =
     (case processRequest E (clock C i) (late C i) b w of
        (r, w') \<Rightarrow> (case serve E C (Suc i) bodies w' of (rs, w'') \<Rightarrow> (r # rs, w'')))"

definition close_frame :: bytes where
  "close_frame = tagClose @ replicate 3 (CHR 0x00)"

lemma readRequest_close:
  assumes "packets evs = Some (close_frame @ rest)"
  shows "\<exists>evs'. readRequest evs = Some (\<lparr>Closed = True, Body = None, ReqErr = None\<rparr>, evs')"
proof -
  have "length close_frame = HEAD_TAG_LENGTH" "isTagClose (parseHeadTagLength close_frame)" by code_simp+
  then show ?thesis
    using read_full_packets [OF assms, of "[]"] by (auto simp: readRequest_def Let_def)
qed

lemma answer_status: "length (fst (answer r)) \<le> 8"
  by (simp add: answer_def split: res.split option.split)

lemma handle_loop_session:
  assumes "\<forall>i. \<not> stop C i" and "\<forall>i. werr C i = (\<lambda>_. None)"
    and "\<forall>b \<in> set bodies. b \<noteq> [] \<and> length b < 10 ^ 8"
    and "packets evs = Some (concat (map request_frame bodies) @ close_frame @ rest)"
    and "serve E C i bodies w = (rs, w')"
    and "\<forall>r \<in> set rs. \<not> is_panic r \<and> length (snd (answer r)) < 10 ^ 8"
  shows "handle_loop E C i evs out w =
    Some (Ok (True, out @ concat (map (\<lambda>r. answer_frame (fst (answer r)) (snd (answer r))) rs), w'))"
  using assms(3-6)
proof (induction bodies arbitrary: evs i out w rs)
  case Nil
  then obtain evs' where "readRequest evs = Some (\<lparr>Closed = True, Body = None, ReqErr = None\<rparr>, evs')"
    using readRequest_close [of evs rest] by auto
  with Nil assms(1) show ?case by (simp add: handle_loop.simps [of E C i])
next
  case (Cons b bodies)
  obtain r w1 where r: "processRequest E (clock C i) (late C i) b w = (r, w1)" by fastforce
  obtain rs1 where rs: "rs = r # rs1" "serve E C (Suc i) bodies w1 = (rs1, w')"
    using Cons.prems(3) r by (auto split: prod.splits)
  have "packets evs = Some (request_frame b @ concat (map request_frame bodies) @ close_frame @ rest)"
    using Cons.prems(2) by simp
  then obtain evs1 where ev: "readRequest evs = Some (\<lparr>Closed = False, Body = Some b, ReqErr = None\<rparr>, evs1)"
      "packets evs1 = Some (concat (map request_frame bodies) @ close_frame @ rest)"
    using readRequest_frame [of b evs] Cons.prems(1) by auto
  have resp: "response (\<lambda>_. None) (fst (answer r)) (snd (answer r))
      = Ok (None, answer_frame (fst (answer r)) (snd (answer r)))"
    using response_frame answer_status Cons.prems(4) rs(1) by auto
  have IH: "handle_loop E C (Suc i) evs1 (out @ answer_frame (fst (answer r)) (snd (answer r))) w1 =
      Some (Ok (True, (out @ answer_frame (fst (answer r)) (snd (answer r)))
        @ concat (map (\<lambda>r. answer_frame (fst (answer r)) (snd (answer r))) rs1), w'))"
    using Cons.prems(1,4) rs ev(2) by (intro Cons.IH) auto
  have "\<not> is_panic r" using Cons.prems(4) rs(1) by simp
  then show ?case
    using assms(1,2) ev(1) r resp IH rs(1) by (subst handle_loop.simps) (cases r; simp)
qed

text \<open>C7: on a connection on which a client sends any number of requests and then \<^verbatim>\<open>CLOSE\<close>, cut into packets
  anyhow, the service answers the requests one after the other in their order, each as the handler answers
  it in the state the requests before it left, then closes the connection and releases its place in the
  count of users.\<close>

theorem HandleConn_session:
  assumes "\<forall>i. \<not> stop C i" and "\<forall>i. werr C i = (\<lambda>_. None)"
    and "\<forall>b \<in> set bodies. b \<noteq> [] \<and> length b < 10 ^ 8"
    and "packets evs = Some (concat (map request_frame bodies) @ close_frame @ rest)"
    and "serve E C 0 bodies w = (rs, w')"
    and "\<forall>r \<in> set rs. \<not> is_panic r \<and> length (snd (answer r)) < 10 ^ 8"
  shows "HandleConn E C False evs w =
    Some (Ok (0, concat (map (\<lambda>r. answer_frame (fst (answer r)) (snd (answer r))) rs) @ tagClose, w'))"
  using handle_loop_session [OF assms, of "[]"] by (simp add: HandleConn_def)

section \<open>Malformed requests\<close>

text \<open>C12: a request that is a JSON object without a string \<^verbatim>\<open>cmd\<close> or without an object \<^verbatim>\<open>args\<close> is not
  answered with an error: the type assertion panics, and nothing recovers from it, so a client can end
  the process.\<close>

theorem malformed_request_panics:
  assumes "UnmarshalMap body = Ok m"
    and "(\<nexists>cmd. mget m ''cmd'' = Some (JStr cmd)) \<or> (\<nexists>args. mget m ''args'' = Some (JObj args))"
    and "\<not> stop C i" and "readRequest evs = Some (\<lparr>Closed = False, Body = Some body, ReqErr = None\<rparr>, evs')"
  shows "\<exists>msg. handle_loop E C i evs out w = Some (Panic msg)"
proof -
  have "\<exists>msg. processRequest E (clock C i) (late C i) body w = (Panic msg, w)"
    using assms(1,2) by (auto simp: processRequest_def split: option.split json.split)
  then show ?thesis using assms(3,4) by (subst handle_loop.simps) auto
qed

section \<open>Witnesses\<close>

definition demo_conn :: conn_env where
  "demo_conn = \<lparr>stop = (\<lambda>_. False), late = (\<lambda>_. False), werr = (\<lambda>_ _. None),
     clock = (\<lambda>_. \<lparr>t_reg = 0, t_acc = 0, t_lock = 0, t_release = 0\<rparr>)\<rparr>"

definition demo_service :: "(demo_db, (string, bytes) gomap) service" where
  "demo_service = \<lparr>svc = demo_client demo_server, sreg = empty_registry, deferred = [], stats_sent = []\<rparr>"

text \<open>The request \<^verbatim>\<open>{"cmd":"f","args":{}}\<close>, sent twice.\<close>

definition demo_body :: bytes where
  "demo_body = marshal (\<lambda>_. []) (JObj [(''cmd'', JStr ''f''), (''args'', JObj [])])"

lemma demo_body_process:
  "fst (processRequest E t False demo_body w)
     = Err (ErrorHandleNotExists (''Method '' @ [CHR 0x22] @ ''f'' @ [CHR 0x22] @ '' not exists!''))"
proof -
  have p: "plain_json (JObj [(''cmd'', JStr ''f''), (''args'', JObj [])])" by (simp add: wf_map_def)
  have "sort_keys [(''cmd'', JStr ''f''), (''args'', JObj [])] = [(''args'', JObj []), (''cmd'', JStr ''f'')]"
    by code_simp
  then have "UnmarshalMap demo_body = Ok [(''args'', JObj []), (''cmd'', JStr ''f'')]"
    using Unmarshal_marshal [OF p, of "\<lambda>_. []"] by (simp add: UnmarshalMap_def demo_body_def sort_keys_def)
  then show ?thesis
    by (simp add: processRequest_def runRequestHandler_def Run_def HandlerExists_def sendStats_def Let_def)
qed

theorem HandleConn_session_witness:
  "\<exists>w'. HandleConn (demo_env (Ok ())) demo_conn False
      [Data (request_frame demo_body), Data (request_frame demo_body @ close_frame)] demo_service
    = Some (Ok (0, answer_frame ''failed'' (marshal (\<lambda>_. []) (JStr (''Method '' @ [CHR 0x22] @ ''f'' @ [CHR 0x22] @ '' not exists!'')))
        @ answer_frame ''failed'' (marshal (\<lambda>_. []) (JStr (''Method '' @ [CHR 0x22] @ ''f'' @ [CHR 0x22] @ '' not exists!'')))
        @ tagClose, w'))"
proof -
  let ?E = "demo_env (Ok ())" and ?bodies = "[demo_body, demo_body]"
  obtain rs w' where s: "serve ?E demo_conn 0 ?bodies demo_service = (rs, w')" by fastforce
  let ?e = "ErrorHandleNotExists (''Method '' @ [CHR 0x22] @ ''f'' @ [CHR 0x22] @ '' not exists!'')"
  have rs: "rs = [Err ?e, Err ?e]"
    using s demo_body_process [of ?E _ demo_service] demo_body_process [of ?E]
    by (auto simp: demo_conn_def split: prod.splits) (metis fst_conv)+
  have "demo_body \<noteq> [] \<and> length demo_body < 100" "length (marshal (\<lambda>_. []) (JStr (err_text ?e))) < 100" by code_simp+
  then have "\<forall>r \<in> set rs. \<not> is_panic r \<and> length (snd (answer r)) < 10 ^ 8"
      "\<forall>b \<in> set ?bodies. b \<noteq> [] \<and> length b < 10 ^ 8"
    by (auto simp: rs answer_def)
  from HandleConn_session [OF _ _ this(2) _ s this(1), of "[Data (request_frame demo_body), Data (request_frame demo_body @ close_frame)]" "[]"]
  show ?thesis by (intro exI [of _ w']) (simp add: rs answer_def demo_conn_def)
qed

theorem malformed_request_panics_witness:
  "\<exists>msg. handle_loop (demo_env (Ok ())) demo_conn 0 [Data (request_frame [CHR 0x7B, CHR 0x7D])] [] demo_service = Some (Panic msg)"
proof -
  let ?b = "[CHR 0x7B, CHR 0x7D]" and ?evs = "[Data (request_frame [CHR 0x7B, CHR 0x7D])]"
  have "UnmarshalMap ?b = Ok []" by code_simp
  moreover obtain evs' where "readRequest ?evs = Some (\<lparr>Closed = False, Body = Some ?b, ReqErr = None\<rparr>, evs')"
    using readRequest_frame [of ?b ?evs "[]"] by auto
  moreover have "\<not> stop demo_conn 0" by (simp add: demo_conn_def)
  ultimately show ?thesis
    using malformed_request_panics [of ?b "[]" demo_conn 0 ?evs evs' "demo_env (Ok ())" "[]" demo_service] by simp
qed

section \<open>A configuration asked for through the API\<close>

lemma SaveRegistered_open:
  assumes "db_open E is_open s"
  shows "\<exists>c. snd (SaveRegisteredNodesToDisk E r s) =
    s\<lparr>disk := snd (Conn_Put (engine E) (reopen_db E) KEY_NAME_OF_STORE_DYNAMIC_REG_CONF_NODES c (disk s))\<rparr>"
proof -
  let ?b = "marshal (\<lambda>_. []) (nodes_json r)"
  have "fst (Conn_Put (engine E) (reopen_db E) KEY_NAME_OF_STORE_DYNAMIC_REG_CONF_NODES ?b (disk s)) = Ok ()"
    using Conn_Put_open assms unfolding db_open_def by blast
  then show ?thesis
    using getLocalStorage_open [OF assms]
    by (intro exI [of _ ?b], cases "Conn_Put (engine E) (reopen_db E) KEY_NAME_OF_STORE_DYNAMIC_REG_CONF_NODES ?b (disk s)")
      (simp add: SaveRegisteredNodesToDisk_def)
qed

lemma Touch_new:
  assumes "db_open E is_open s" and "\<not> RunAsBi (cfg E)" and "getRegisteredNodeInfo name r = None"
    and "\<not> watching name r" and "name \<noteq> KEY_NAME_OF_STORE_DYNAMIC_REG_CONF_NODES"
  obtains r' s' where "TouchDynamicNode E treg tacc name r s = (False, r', s')" and "db_open E is_open s'"
    and "getRegisteredNodeInfo name r' \<noteq> None" and "fst (GetFromDisk E name s') = fst (GetFromDisk E name s)"
    and "server s' = server s" and "mem s' = mem s"
proof -
  let ?r = "snd (AddToWatchList (root_of name) (setRegisterdNodeInfo name \<lparr>ni_Name = name, LastAccessTime = tacc, RegTime = treg\<rparr> r))"
  have t: "TouchDynamicNode E treg tacc name r s = (False, ?r, snd (SaveRegisteredNodesToDisk E ?r s))"
    using assms(2-4) by (simp add: TouchDynamicNode_def Let_def)
  obtain c where c: "snd (SaveRegisteredNodesToDisk E ?r s) =
      s\<lparr>disk := snd (Conn_Put (engine E) (reopen_db E) KEY_NAME_OF_STORE_DYNAMIC_REG_CONF_NODES c (disk s))\<rparr>"
    using SaveRegistered_open [OF assms(1)] by blast
  have "getRegisteredNodeInfo name ?r \<noteq> None" by (simp add: getRegisteredNodeInfo_def)
  with that [OF t] c db_open_Put [OF assms(1)] GetFromDisk_Put_other [OF assms(1,5)] show thesis by simp
qed

lemma Touch_again:
  "getRegisteredNodeInfo name r \<noteq> None \<Longrightarrow> \<exists>r'. TouchDynamicNode E treg tacc name r s = (True, r', s)"
  by (auto simp: TouchDynamicNode_def)

text \<open>C9: the first request for a configuration gives the value that is published on the server; once the
  goroutine of the handler has run, the value is in memory and in the database and its name is registered,
  and the next request is answered with it even when the server cannot be reached.\<close>

theorem GetProjectConfig_first_and_next:
  assumes "db_open E is_open (svc w)" and "keys_ok E" and "\<not> DEVMODE (cfg E)" and "\<not> RunAsBi (cfg E)"
    and "getRegisteredNodeInfo name (sreg w) = None" and "\<not> watching name (sreg w)"
    and "name \<noteq> KEY_NAME_OF_STORE_DYNAMIC_REG_CONF_NODES" and "deferred w = []"
    and "fst (GetFromDisk E name (svc w)) = Err x" and "GetFromServer E name (svc w) = Ok content"
    and "to_json E content = Ok (Some j)" and "stored E content = content"
  shows "\<exists>w1 w2. Run E t ''GetProjectConfig'' [(''name'', JStr name)] w = Some (Ok (Some j), w1)
    \<and> w2 = run_deferred E w1 \<and> GetFromMem name (mem (svc w2)) = Some j
    \<and> fst (GetFromDisk E name (svc w2)) = Ok content
    \<and> (\<forall>e t'. \<exists>w3. Run (E\<lparr>remote := Err e\<rparr>) t' ''GetProjectConfig'' [(''name'', JStr name)] w2 = Some (Ok (Some j), w3))"
proof -
  obtain r s where touch: "TouchDynamicNode E (t_reg t) (t_acc t) name (sreg w) (svc w) = (False, r, s)"
    and s: "db_open E is_open s" "getRegisteredNodeInfo name r \<noteq> None" "fst (GetFromDisk E name s) = Err x"
      "server s = server (svc w)"
    using Touch_new [OF assms(1,4-7)] assms(9) by metis
  have srv: "GetFromServer E name s = Ok content" using assms(10) by (simp only: GetFromServer_def s(4))
  have dbc: "load_dbc E = Ok None" "load_dbc (E\<lparr>remote := Err e\<rparr>) = Ok None" for e
    using assms(3) by (simp_all add: load_dbc_def)
  have "newest E (Err x) (Ok content) = Some (content, Some j, FromServer)" "quiet E (Err x) (Ok content)"
    using assms(11) by (simp_all add: newest_def quiet_def)
  then obtain v s' where v: "GetNewValueOfConfig E name None [] s = (Ok v, s')" "cErr v = None" "valuePlain v = content"
      "valueSerialized v = Some j" "hasUpdate v" and disk: "disk s' = disk s"
    using GetNewValueOfConfig_spec [OF s(1) assms(2), of None name "[]" "[]"] s(3) srv
    by (auto simp: debug_value_def)
  have nodebug: "\<not> isDebugValue v"
    using v(1) by (auto simp: GetNewValueOfConfig_def debug_value_def finish_value_def no_value_def
        split: res.splits prod.splits option.splits)
  define w1 where "w1 = w\<lparr>svc := s', sreg := r, deferred := [(name, Some j, content)]\<rparr>"
  have first: "Run E t ''GetProjectConfig'' [(''name'', JStr name)] w = Some (Ok (Some j), w1)"
    using touch v nodebug assms(8) dbc(1) by (simp add: Run_def HandlerExists_def Process_def w1_def)
  define s1 where "s1 = s'\<lparr>mem := StoreToMem name (Some j) (mem s')\<rparr>"
  have s1: "db_open E is_open s1" using s(1) disk by (simp add: db_open_def s1_def)
  have w2: "svc (run_deferred E w1) = snd (SaveToDisk E name content s1)" "sreg (run_deferred E w1) = r"
    by (simp_all add: run_deferred_def store_deferred_def w1_def s1_def)
  have mem2: "GetFromMem name (mem (svc (run_deferred E w1))) = Some j"
    using SaveToDisk_mem(1) [OF s1 assms(2)] by (simp add: w2 s1_def)
  have disk2: "fst (GetFromDisk E name (svc (run_deferred E w1))) = Ok content"
    using GetFromDisk_SaveToDisk_same [OF s1 assms(2)] assms(12) by (simp add: w2)
  have "\<exists>w3. Run (E\<lparr>remote := Err e\<rparr>) t' ''GetProjectConfig'' [(''name'', JStr name)] (run_deferred E w1) = Some (Ok (Some j), w3)"
    for e t'
  proof -
    obtain r' where "TouchDynamicNode (E\<lparr>remote := Err e\<rparr>) (t_reg t') (t_acc t') name r (svc (run_deferred E w1))
        = (True, r', svc (run_deferred E w1))" using Touch_again [OF s(2)] by blast
    then show ?thesis
      using mem2 dbc(2) [of e] by (simp add: Run_def HandlerExists_def Process_def w2(2) GetConfig_memory)
  qed
  with first mem2 disk2 show ?thesis by blast
qed

theorem GetProjectConfig_first_and_next_witness:
  "\<exists>w1 w2 w3. Run (demo_env (Ok ())) (clock demo_conn 0) ''GetProjectConfig'' [(''name'', JStr ''Pay.Db.host'')] demo_service
       = Some (Ok (Some [CHR 0x22, CHR ''x'', CHR 0x22]), w1)
     \<and> w2 = run_deferred (demo_env (Ok ())) w1
     \<and> Run ((demo_env (Ok ()))\<lparr>remote := Err (ErrText ''down'')\<rparr>) (clock demo_conn 0) ''GetProjectConfig'' [(''name'', JStr ''Pay.Db.host'')] w2
       = Some (Ok (Some [CHR 0x22, CHR ''x'', CHR 0x22]), w3)"
proof -
  let ?E = "demo_env (Ok ())" and ?n = "''Pay.Db.host''"
  obtain e where e: "fst (GetFromDisk ?E ?n (svc demo_service)) = Err e" using demo_facts(3) by (auto simp: demo_service_def)
  have "db_open ?E fst (svc demo_service)" using demo_open by (simp add: demo_service_def)
  moreover have "\<not> DEVMODE (cfg ?E)" "\<not> RunAsBi (cfg ?E)" by (simp_all add: demo_env_def demo_config_def zero_config_def)
  moreover have "getRegisteredNodeInfo ?n (sreg demo_service) = None" "\<not> watching ?n (sreg demo_service)"
      "?n \<noteq> KEY_NAME_OF_STORE_DYNAMIC_REG_CONF_NODES" "deferred demo_service = []" by code_simp+
  moreover have "GetFromServer ?E ?n (svc demo_service) = Ok ''x''" using demo_facts(4) by (simp add: demo_service_def)
  ultimately show ?thesis
    using GetProjectConfig_first_and_next [OF _ demo_keys, of "Ok ()" fst demo_service ?n e "''x''"
        "[CHR 0x22, CHR ''x'', CHR 0x22]" "clock demo_conn 0"] e demo_facts(1,5) by blast
qed

end
