(* ===== verification/StopServer.thy ===== *)
theory StopServer
  imports Steps "HOL-Library.Word"
begin

text \<open>
  Stopping the local service (\<^verbatim>\<open>connection/conn_handler.go\<close>: \<^verbatim>\<open>StoppingSigalOp\<close>,
  \<^verbatim>\<open>StopLocalServer\<close>, and the parts of \<^verbatim>\<open>HandleConn\<close> and \<^verbatim>\<open>StartLocalServer\<close> that use it) as a transition
  system.  A user of the signals is the loop that accepts connections or the handler of a
  connection.  \<^verbatim>\<open>SendSignal\<close> holds the lock while it sends one signal per user to a channel with
  100 places; \<^verbatim>\<open>Use\<close> and \<^verbatim>\<open>Unuse\<close> need the lock.  The phases of a handler: it has looked at the stopping
  state and is about to call \<^verbatim>\<open>Use\<close>; it waits for a request or a signal; its client has closed
  and it is about to call \<^verbatim>\<open>Unuse\<close>; it has ended.
\<close>

definition signal_capacity :: nat where
  "signal_capacity = 100"

datatype handler_phase = Absent | Entering | Active | Leaving | Done

text \<open>The caller of \<^verbatim>\<open>StopLocalServer\<close>.\<close>

datatype stopper = Idle | Flagged | Sending nat | Sent

record stop_state =
  userCounter :: "64 word"
  pending :: nat
  locked :: bool
  stopping :: bool
  accepting :: bool
  phase :: "nat \<Rightarrow> handler_phase"
  stopper :: stopper

definition Use :: "stop_state \<Rightarrow> stop_state" where
  "Use s = s\<lparr>userCounter := userCounter s + 1\<rparr>"

definition Unuse :: "stop_state \<Rightarrow> stop_state" where
  "Unuse s = s\<lparr>userCounter := userCounter s - 1\<rparr>"

text \<open>The service has started: the accepting loop is a user.\<close>

definition stop_init :: stop_state where
  "stop_init = Use \<lparr>userCounter = 0, pending = 0, locked = False, stopping = False, accepting = True,
     phase = (\<lambda>_. Absent), stopper = Idle\<rparr>"

inductive stop_step :: "stop_state \<Rightarrow> stop_state \<Rightarrow> bool" where
  ss_accept: "accepting s \<Longrightarrow> phase s c = Absent
    \<Longrightarrow> stop_step s (s\<lparr>phase := (phase s)(c := if stopping s then Done else Entering)\<rparr>)"
| ss_exit: "accepting s \<Longrightarrow> 0 < pending s \<Longrightarrow> stop_step s (s\<lparr>accepting := False, pending := pending s - 1\<rparr>)"
| ss_use: "phase s c = Entering \<Longrightarrow> \<not> locked s \<Longrightarrow> stop_step s (Use (s\<lparr>phase := (phase s)(c := Active)\<rparr>))"
| ss_signal: "phase s c = Active \<Longrightarrow> 0 < pending s
    \<Longrightarrow> stop_step s (s\<lparr>phase := (phase s)(c := Done), pending := pending s - 1\<rparr>)"
| ss_close: "phase s c = Active \<Longrightarrow> stop_step s (s\<lparr>phase := (phase s)(c := Leaving)\<rparr>)"
| ss_unuse: "phase s c = Leaving \<Longrightarrow> \<not> locked s \<Longrightarrow> stop_step s (Unuse (s\<lparr>phase := (phase s)(c := Done)\<rparr>))"
| ss_flag: "stopper s = Idle \<Longrightarrow> stop_step s (s\<lparr>stopping := True, stopper := Flagged\<rparr>)"
| ss_lock: "stopper s = Flagged \<Longrightarrow> \<not> locked s
    \<Longrightarrow> stop_step s (s\<lparr>locked := True, stopper := Sending (unat (userCounter s))\<rparr>)"
| ss_send: "stopper s = Sending (Suc n) \<Longrightarrow> pending s < signal_capacity
    \<Longrightarrow> stop_step s (s\<lparr>pending := Suc (pending s), stopper := Sending n\<rparr>)"
| ss_sent: "stopper s = Sending 0 \<Longrightarrow> stop_step s (s\<lparr>locked := False, stopper := Sent\<rparr>)"

inductive_cases stop_stepE: "stop_step s s'"

abbreviation stop_reach :: "stop_state \<Rightarrow> bool" where
  "stop_reach s \<equiv> stop_step\<^sup>*\<^sup>* stop_init s"

lemmas stop_ops = Use_def Unuse_def

section \<open>Up to 100 users\<close>

text \<open>
  While the signals are being sent the lock is held, so the number of users is the one that was read,
  and the signals in the channel are among those that were sent.
\<close>

definition stop_inv :: "stop_state \<Rightarrow> bool" where
  "stop_inv s \<longleftrightarrow> (case stopper s of
      Idle \<Rightarrow> pending s = 0 \<and> \<not> locked s
    | Flagged \<Rightarrow> pending s = 0 \<and> \<not> locked s
    | Sending n \<Rightarrow> locked s \<and> pending s + n \<le> unat (userCounter s)
    | Sent \<Rightarrow> True)"

lemma stop_inv_step: "stop_step s s' \<Longrightarrow> stop_inv s \<Longrightarrow> stop_inv s'"
  by (induction rule: stop_step.induct)
    (auto simp: stop_inv_def stop_ops split: stopper.splits)

interpretation stops: reachable_invariant stop_step stop_inv "\<lambda>s. s = stop_init"
  by unfold_locales (rule stop_inv_step, simp_all add: stop_inv_def stop_init_def Use_def)

lemma stop_inv_reach: "stop_reach s \<Longrightarrow> stop_inv s"
  by (rule stops.inv_reach) simp_all

section \<open>More users\<close>

text \<open>
  The sender waits for a place in the channel, and nobody will make one: the accepting loop has
  ended and every handler has ended or waits for the lock.
\<close>

definition stuck :: "stop_state \<Rightarrow> bool" where
  "stuck s \<longleftrightarrow> (\<exists>n. stopper s = Sending (Suc n)) \<and> locked s \<and> pending s = signal_capacity \<and> \<not> accepting s
     \<and> (\<forall>c. phase s c \<noteq> Active)"

lemma stuck_step: "stop_step s s' \<Longrightarrow> stuck s \<Longrightarrow> stuck s'"
  by (erule stop_stepE) (auto simp: stuck_def)

interpretation crowded: step_invariant stop_step stuck
  by unfold_locales (rule stuck_step)

lemmas stuck_forever = crowded.inv_steps

text \<open>A run to such a state: \<open>n\<close> clients connect, the service is stopped, and all of them close.\<close>

definition crowd :: "nat \<Rightarrow> handler_phase \<Rightarrow> nat \<Rightarrow> handler_phase" where
  "crowd n p = (\<lambda>c. if c < n then p else Absent)"

lemma reach_crowd: "stop_reach (stop_init\<lparr>userCounter := of_nat (Suc n), phase := crowd n Active\<rparr>)"
proof (induction n)
  case 0
  have "stop_init\<lparr>userCounter := of_nat (Suc 0), phase := crowd 0 Active\<rparr> = stop_init"
    by (simp add: stop_init_def crowd_def Use_def)
  then show ?case by simp
next
  case (Suc n)
  let ?s = "stop_init\<lparr>userCounter := of_nat (Suc n), phase := crowd n Active\<rparr>"
  have "stop_step ?s (?s\<lparr>phase := (crowd n Active)(n := Entering)\<rparr>)"
    using ss_accept [of ?s n] by (simp add: stop_init_def Use_def crowd_def)
  moreover have "stop_step (?s\<lparr>phase := (crowd n Active)(n := Entering)\<rparr>)
      (Use (?s\<lparr>phase := (crowd n Active)(n := Active)\<rparr>))"
    using ss_use [of "?s\<lparr>phase := (crowd n Active)(n := Entering)\<rparr>" n] by (simp add: stop_init_def Use_def)
  moreover have "Use (?s\<lparr>phase := (crowd n Active)(n := Active)\<rparr>)
      = stop_init\<lparr>userCounter := of_nat (Suc (Suc n)), phase := crowd (Suc n) Active\<rparr>"
    by (auto simp: Use_def stop_init_def crowd_def fun_eq_iff)
  ultimately show ?case using Suc by (metis rtranclp.rtrancl_into_rtrancl)
qed

lemma close_crowd:
  "phase s = crowd n Active \<Longrightarrow> k \<le> n
   \<Longrightarrow> stop_step\<^sup>*\<^sup>* s (s\<lparr>phase := (\<lambda>c. if c < k then Leaving else crowd n Active c)\<rparr>)"
proof (induction k)
  case 0
  then show ?case by (simp flip: \<open>phase s = crowd n Active\<close>)
next
  case (Suc k)
  let ?t = "s\<lparr>phase := (\<lambda>c. if c < k then Leaving else crowd n Active c)\<rparr>"
  have "stop_step ?t (?t\<lparr>phase := (phase ?t)(k := Leaving)\<rparr>)"
    using Suc.prems by (intro ss_close) (simp add: crowd_def)
  moreover have "?t\<lparr>phase := (phase ?t)(k := Leaving)\<rparr> = s\<lparr>phase := (\<lambda>c. if c < Suc k then Leaving else crowd n Active c)\<rparr>"
    by (auto simp: fun_eq_iff less_Suc_eq)
  ultimately show ?case using Suc by (metis Suc_leD rtranclp.rtrancl_into_rtrancl)
qed

lemma send_signals:
  "stopper s = Sending (k + n) \<Longrightarrow> pending s + k \<le> signal_capacity
   \<Longrightarrow> stop_step\<^sup>*\<^sup>* s (s\<lparr>pending := pending s + k, stopper := Sending n\<rparr>)"
proof (induction k arbitrary: s)
  case 0
  then have "s\<lparr>pending := pending s + 0, stopper := Sending n\<rparr> = s" by (cases s) simp
  then show ?case by simp
next
  case (Suc k)
  let ?t = "s\<lparr>pending := Suc (pending s), stopper := Sending (k + n)\<rparr>"
  have "stop_step s ?t" using Suc.prems by (intro ss_send) auto
  moreover have "stop_step\<^sup>*\<^sup>* ?t (?t\<lparr>pending := pending ?t + k, stopper := Sending n\<rparr>)"
    using Suc.prems by (intro Suc.IH) auto
  ultimately show ?case by (auto intro: converse_rtranclp_into_rtranclp)
qed

lemma reach_stuck:
  fixes n :: nat
  assumes "102 \<le> n" and "n < 2 ^ 64 - 1"
  shows "\<exists>s. stop_reach s \<and> stuck s"
proof -
  let ?a = "stop_init\<lparr>userCounter := of_nat (Suc n), phase := crowd n Active\<rparr>"
  let ?b = "?a\<lparr>stopping := True, stopper := Flagged\<rparr>"
  let ?c = "?b\<lparr>locked := True, stopper := Sending (Suc n)\<rparr>"
  let ?d = "?c\<lparr>phase := crowd n Leaving\<rparr>"
  let ?e = "?d\<lparr>pending := 100, stopper := Sending (Suc n - 100)\<rparr>"
  let ?f = "?e\<lparr>accepting := False, pending := 99\<rparr>"
  let ?g = "?f\<lparr>pending := 100, stopper := Sending (Suc n - 101)\<rparr>"
  have "stop_step ?a ?b" by (rule ss_flag) (simp add: stop_init_def Use_def)
  moreover have "stop_step ?b ?c"
  proof -
    have "unat (of_nat (Suc n) :: 64 word) = Suc n"
      using assms(2) by (simp only: unsigned_of_nat) (simp add: take_bit_nat_eq_self)
    then show ?thesis using ss_lock [of ?b] by (simp add: stop_init_def Use_def del: of_nat_Suc)
  qed
  moreover have "stop_step\<^sup>*\<^sup>* ?c ?d"
  proof -
    have "(\<lambda>c. if c < n then Leaving else crowd n Active c) = crowd n Leaving" by (auto simp: crowd_def)
    then show ?thesis using close_crowd [of ?c n n] by simp
  qed
  moreover have "stop_step\<^sup>*\<^sup>* ?d ?e"
    using send_signals [of ?d 100 "Suc n - 100"] assms(1) by (simp add: signal_capacity_def stop_init_def Use_def)
  moreover have "stop_step ?e ?f"
    using ss_exit [of ?e] by (simp add: stop_init_def Use_def)
  moreover have "stop_step ?f ?g"
  proof -
    have "Suc n - 100 = Suc (Suc n - 101)" using assms(1) by simp
    then show ?thesis using ss_send [of ?f "Suc n - 101"] by (simp add: signal_capacity_def)
  qed
  ultimately have "stop_step\<^sup>*\<^sup>* ?a ?g" by (meson rtranclp.rtrancl_into_rtrancl rtranclp_trans r_into_rtranclp)
  then have "stop_reach ?g" using reach_crowd [of n] by (rule rtranclp_trans [rotated])
  moreover have "stuck ?g"
    using assms(1) by (auto simp: stuck_def signal_capacity_def crowd_def Suc_diff_le intro!: exI [of _ "n - 101"])
  ultimately show ?thesis by blast
qed

text \<open>C13: with at most 100 users the sender of the stopping signals never waits: there is a place in the
  channel for every signal it has still to send.  With 102 clients it can come to wait for ever: the lock it
  holds is the one the leaving handlers need.\<close>

theorem SendSignal_blocks_iff_crowded:
  "(\<forall>s m. stop_reach s \<and> stopper s = Sending (Suc m) \<and> unat (userCounter s) \<le> 100 \<longrightarrow> pending s < signal_capacity)
   \<and> (\<exists>s. stop_reach s \<and> stuck s \<and> (\<forall>s'. stop_step\<^sup>*\<^sup>* s s' \<longrightarrow> stuck s'))"
proof (intro conjI allI impI)
  fix s m assume s: "stop_reach s \<and> stopper s = Sending (Suc m) \<and> unat (userCounter s) \<le> 100"
  then have "stop_inv s" using stop_inv_reach by blast
  with s show "pending s < signal_capacity" by (simp add: stop_inv_def signal_capacity_def)
next
  obtain s where "stop_reach s" "stuck s" using reach_stuck [of 102] by auto
  then show "\<exists>s. stop_reach s \<and> stuck s \<and> (\<forall>s'. stop_step\<^sup>*\<^sup>* s s' \<longrightarrow> stuck s')" using stuck_forever by blast
qed

theorem SendSignal_blocks_iff_crowded_witness:
  "\<exists>s. stop_reach s \<and> stopper s = Sending 1 \<and> pending s < signal_capacity"
proof -
  let ?b = "stop_init\<lparr>stopping := True, stopper := Flagged\<rparr>"
  let ?c = "?b\<lparr>locked := True, stopper := Sending 1\<rparr>"
  have "stop_step stop_init ?b" by (rule ss_flag) (simp add: stop_init_def Use_def)
  moreover have "stop_step ?b ?c" using ss_lock [of ?b] by (simp add: stop_init_def Use_def)
  ultimately have "stop_reach ?c" by (meson r_into_rtranclp rtranclp.rtrancl_into_rtrancl)
  moreover have "unat (userCounter ?c) \<le> 100" by (simp add: stop_init_def Use_def)
  ultimately show ?thesis
    using SendSignal_blocks_iff_crowded [THEN conjunct1, rule_format, of ?c 0] by (intro exI [of _ ?c]) simp
qed

end
