(* ===== verification/Updater.thy ===== *)
theory Updater
  imports CompileToml Registry
begin

text \<open>
  \<^verbatim>\<open>updateProjectConfigByRootNode\<close> and \<^verbatim>\<open>updateProjectConfigBySchemafile\<close> (\<^verbatim>\<open>configwatcher/zk_watcher.go\<close>): an
  update of configurations, started by an event of the server, a changed schema or debug file, or a
  recheck.  \<open>update_vars\<close> is the state of an update: the variables of the function, and the world it
  changes.  Panics end the process; \<open>None\<close> stands for waiting for another goroutine.
\<close>

record ('d, 'e) update_vars =
  newItemValuesEncrypted :: "(string, bytes) gomap"
  newItemValuesPlain :: "(string, bytes) gomap"
  newItemValuesSerialized :: "(string, bytes option) gomap"
  itemsHasUpdate :: "string list"
  failedConfigItems :: "string list"
  fetchedDebugValues :: "string list"
  schemaContainsUpdate :: bool
  hasUpdateOverall :: bool
  registeredNodesHasUpdate :: bool
  u_cErr :: "goerr option"
  u_sErr :: "goerr option"
  u_psErr :: "goerr option"
  uw :: "('d, 'e) world"

definition new_updater :: "('d, 'e) world \<Rightarrow> ('d, 'e) update_vars" where
  "new_updater w =
     \<lparr>newItemValuesEncrypted = [], newItemValuesPlain = [], newItemValuesSerialized = [], itemsHasUpdate = [],
      failedConfigItems = [], fetchedDebugValues = [], schemaContainsUpdate = False, hasUpdateOverall = False,
      registeredNodesHasUpdate = False, u_cErr = None, u_sErr = None, u_psErr = None, uw = w\<rparr>"

definition of_root_node :: "string \<Rightarrow> string \<Rightarrow> bool" where
  "of_root_node configRoot dItem \<longleftrightarrow> configRoot = ''*'' \<or> Index dItem (configRoot @ ''.'') = Some 0"

section \<open>The items of the schema files\<close>

text \<open>What follows a call of \<^verbatim>\<open>GetNewValueOfConfig\<close>: its values are noted, and its failure.\<close>

definition note_values :: "string \<Rightarrow> new_value \<Rightarrow> ('d, 'e) update_vars \<Rightarrow> ('d, 'e) update_vars" where
  "note_values dItem v u =
     u\<lparr>newItemValuesEncrypted := mset (newItemValuesEncrypted u) dItem (case valueEncrypted v of Some b \<Rightarrow> b | None \<Rightarrow> []),
       newItemValuesPlain := mset (newItemValuesPlain u) dItem (valuePlain v),
       newItemValuesSerialized := mset (newItemValuesSerialized u) dItem (valueSerialized v)\<rparr>"

definition note_failure :: "string \<Rightarrow> new_value \<Rightarrow> ('d, 'e) update_vars \<Rightarrow> ('d, 'e) update_vars" where
  "note_failure dItem v u =
     (if cErr v \<noteq> None \<or> \<not> newVersionChecked v
      then u\<lparr>failedConfigItems := failedConfigItems u @ [dItem]\<rparr> else u)"

definition note_schema_item :: "string \<Rightarrow> new_value \<Rightarrow> ('d, 'e) update_vars \<Rightarrow> ('d, 'e) update_vars" where
  "note_schema_item dItem v u =
     (let u1 = u\<lparr>u_cErr := cErr v\<rparr>;
          u2 = (if cErr v = None then
                  let n1 = note_values dItem v u1;
                      n2 = (if hasUpdate v then
                              n1\<lparr>itemsHasUpdate := (if \<not> InArrayString (itemsHasUpdate n1) dItem
                                                     then itemsHasUpdate n1 @ [dItem] else itemsHasUpdate n1),
                                 schemaContainsUpdate := True, hasUpdateOverall := True\<rparr>
                            else n1)
                  in if isDebugValue v \<and> \<not> InArrayString (fetchedDebugValues n2) dItem
                     then n2\<lparr>fetchedDebugValues := fetchedDebugValues n2 @ [dItem]\<rparr> else n2
                else u1)
      in note_failure dItem v u2)"

definition update_item ::
    "('d, 'e, 'o) env \<Rightarrow> 'o DebugConfigs option \<Rightarrow> string \<Rightarrow> string \<Rightarrow> string \<Rightarrow> ('d, 'e) update_vars
     \<Rightarrow> ('d, 'e) update_vars res" where
  "update_item E dbc configRoot schemaPath dItem u =
     (if InArrayString (itemsHasUpdate u) dItem \<and> \<not> DEVMODE (cfg E) then Ok (u\<lparr>schemaContainsUpdate := True\<rparr>)
      else if DEVMODE (cfg E) \<or> (of_root_node configRoot dItem \<and> \<not> ExistsInMap (newItemValuesEncrypted u) dItem) then
        (case GetNewValueOfConfig E dItem dbc schemaPath (cl (uw u)) of
           (Ok v, s) \<Rightarrow> Ok (note_schema_item dItem v (u\<lparr>uw := (uw u)\<lparr>cl := s\<rparr>\<rparr>))
         | (Err e, s) \<Rightarrow> Err e
         | (Panic m, s) \<Rightarrow> Panic m)
      else Ok u)"

fun update_items ::
    "('d, 'e, 'o) env \<Rightarrow> 'o DebugConfigs option \<Rightarrow> string \<Rightarrow> string \<Rightarrow> string list \<Rightarrow> ('d, 'e) update_vars
     \<Rightarrow> ('d, 'e) update_vars res" where
  "update_items E dbc configRoot schemaPath [] u = Ok u"
| "update_items E dbc configRoot schemaPath (dItem # items) u =
     res_bind (update_item E dbc configRoot schemaPath dItem u) (update_items E dbc configRoot schemaPath items)"

text \<open>The text of an error printed with \<^verbatim>\<open>%v\<close>, which may be nil.\<close>

definition err_v :: "goerr option \<Rightarrow> string" where
  "err_v e = (case e of None \<Rightarrow> ''<nil>'' | Some x \<Rightarrow> err_text x)"

definition update_schema ::
    "('d, 'e, 'o) env \<Rightarrow> tools \<Rightarrow> 'o DebugConfigs option \<Rightarrow> string \<Rightarrow> bool \<Rightarrow> string \<Rightarrow> ('d, 'e) update_vars
     \<Rightarrow> ('d, 'e) update_vars res option" where
  "update_schema E T dbc configRoot forceCompile schemaPath u =
     (let u0 = u\<lparr>schemaContainsUpdate := False\<rparr> in
      case ParseItems (files E) schemaPath of
        Err err \<Rightarrow> Some (Ok (u0\<lparr>u_psErr := Some (ErrText (err_text err @ '':'' @ err_v (u_psErr u0)))\<rparr>))
      | Panic m \<Rightarrow> Some (Panic m)
      | Ok definedItems \<Rightarrow>
          (case update_items E dbc configRoot schemaPath definedItems u0 of
             Ok u1 \<Rightarrow>
               if forceCompile \<or> schemaContainsUpdate u1 then
                 (case compile E T (newItemValuesSerialized u1) schemaPath (uw u1) of
                    None \<Rightarrow> None
                  | Some (Ok sErr, w) \<Rightarrow> Some (Ok (u1\<lparr>u_sErr := sErr, uw := w\<rparr>))
                  | Some (Err e, w) \<Rightarrow> Some (Err e)
                  | Some (Panic m, w) \<Rightarrow> Some (Panic m))
               else Some (Ok u1)
           | r \<Rightarrow> Some r))"

fun update_schemas ::
    "('d, 'e, 'o) env \<Rightarrow> tools \<Rightarrow> 'o DebugConfigs option \<Rightarrow> string \<Rightarrow> bool \<Rightarrow> string list \<Rightarrow> ('d, 'e) update_vars
     \<Rightarrow> ('d, 'e) update_vars res option" where
  "update_schemas E T dbc configRoot forceCompile [] u = Some (Ok u)"
| "update_schemas E T dbc configRoot forceCompile (p # ps) u =
     (case update_schema E T dbc configRoot forceCompile p u of
        Some (Ok u') \<Rightarrow> update_schemas E T dbc configRoot forceCompile ps u'
      | r \<Rightarrow> r)"

section \<open>The registered nodes\<close>

definition note_registered :: "string \<Rightarrow> new_value \<Rightarrow> ('d, 'e) update_vars \<Rightarrow> ('d, 'e) update_vars" where
  "note_registered dItem v u =
     (let u1 = u\<lparr>u_cErr := cErr v\<rparr>;
          u2 = (if cErr v = None then
                  let n1 = note_values dItem v u1;
                      n2 = (if hasUpdate v then n1\<lparr>registeredNodesHasUpdate := True\<rparr> else n1)
                  in if isDebugValue v then n2\<lparr>fetchedDebugValues := fetchedDebugValues n2 @ [dItem]\<rparr> else n2
                else u1)
      in note_failure dItem v u2)"

definition update_registered ::
    "('d, 'e, 'o) env \<Rightarrow> 'o DebugConfigs option \<Rightarrow> string \<Rightarrow> string \<Rightarrow> ('d, 'e) update_vars \<Rightarrow> ('d, 'e) update_vars res" where
  "update_registered E dbc configRoot dItem u =
     (if configRoot \<noteq> ''*'' \<and> Index dItem (configRoot @ ''.'') \<noteq> Some 0 then Ok u
      else if mget (newItemValuesEncrypted u) dItem = None then
        (case GetNewValueOfConfig E dItem dbc [] (cl (uw u)) of
           (Ok v, s) \<Rightarrow> Ok (note_registered dItem v (u\<lparr>uw := (uw u)\<lparr>cl := s\<rparr>\<rparr>))
         | (Err e, s) \<Rightarrow> Err e
         | (Panic m, s) \<Rightarrow> Panic m)
      else Ok u)"

fun update_all_registered ::
    "('d, 'e, 'o) env \<Rightarrow> 'o DebugConfigs option \<Rightarrow> string \<Rightarrow> string list \<Rightarrow> ('d, 'e) update_vars \<Rightarrow> ('d, 'e) update_vars res" where
  "update_all_registered E dbc configRoot [] u = Ok u"
| "update_all_registered E dbc configRoot (dItem # items) u =
     res_bind (update_registered E dbc configRoot dItem u) (update_all_registered E dbc configRoot items)"

section \<open>Storing\<close>

definition kept :: "('d, 'e, 'o) env \<Rightarrow> ('d, 'e) update_vars \<Rightarrow> string \<Rightarrow> bool" where
  "kept E u configName \<longleftrightarrow> \<not> (DEVMODE (cfg E) \<and> InArrayString (fetchedDebugValues u) configName)"

text \<open>The writes to the database; their errors are only logged.\<close>

fun put_all :: "('d, 'e, 'o) env \<Rightarrow> (string \<times> bytes) list \<Rightarrow> ('d, 'e) client \<Rightarrow> ('d, 'e) client res" where
  "put_all E [] s = Ok s"
| "put_all E ((configName, configValue) # kvs) s =
     (case Conn_Put (engine E) (reopen_db E) configName configValue (disk s) of
        (Panic m, d) \<Rightarrow> Panic m
      | (_, d) \<Rightarrow> put_all E kvs (s\<lparr>disk := d\<rparr>))"

definition save_values :: "('d, 'e, 'o) env \<Rightarrow> ('d, 'e) update_vars \<Rightarrow> ('d, 'e) update_vars res" where
  "save_values E u =
     (if hasUpdateOverall u \<or> registeredNodesHasUpdate u then
        (let itemValues = (if ENCRYPT_ENABLE (cfg E) then newItemValuesEncrypted u else newItemValuesPlain u) in
         case (case getLocalStorage E (cl (uw u)) of
                 (Ok _, s) \<Rightarrow> put_all E (filter (\<lambda>(n, v). kept E u n) itemValues) s
               | (Err e, s) \<Rightarrow> Ok s
               | (Panic m, s) \<Rightarrow> Panic m) of
           Ok s \<Rightarrow>
             Ok (u\<lparr>uw := (uw u)\<lparr>cl := s\<lparr>mem := fold (\<lambda>(n, v). StoreToMem n v)
                    (filter (\<lambda>(n, v). kept E u n) (newItemValuesSerialized u)) (mem s)\<rparr>\<rparr>\<rparr>)
         | Err e \<Rightarrow> Err e
         | Panic m \<Rightarrow> Panic m)
      else Ok u)"

section \<open>The update of a root node\<close>

text \<open>
  \<open>granted\<close> is the answer of \<^verbatim>\<open>getUpdateLock\<close>.  The result is the state at the end of the function, and whether
  the root is sent to the recheck queue; the error variable that the function tests besides
  \<^verbatim>\<open>failedConfigItems\<close> is shadowed in the loop and never set.
\<close>

definition updateProjectConfigByRootNode ::
    "('d, 'e, 'o) env \<Rightarrow> tools \<Rightarrow> bool \<Rightarrow> string \<Rightarrow> bool \<Rightarrow> registry \<Rightarrow> ('d, 'e) world
     \<Rightarrow> (('d, 'e) update_vars \<times> bool) res option" where
  "updateProjectConfigByRootNode E T granted configRoot forceCompile r w =
     (if \<not> granted then Some (Ok (new_updater w, False))
      else
        let schemaFilesNew = map sf_Path (LoadSchemaFiles (md5_hex T) (files E) (cfg E)) in
        case load_dbc E of
          Panic m \<Rightarrow> Some (Panic m)
        | Err e \<Rightarrow> Some (Err e)
        | Ok dbc \<Rightarrow>
            (case update_schemas E T dbc configRoot forceCompile schemaFilesNew (new_updater w) of
               None \<Rightarrow> None
             | Some r1 \<Rightarrow>
                 Some (res_bind r1 (\<lambda>u1.
                   res_bind (update_all_registered E dbc configRoot (map fst (registeredNodes r)) u1) (\<lambda>u2.
                   res_bind (save_values E u2) (\<lambda>u3.
                     Ok (u3\<lparr>uw := (uw u3)\<lparr>cbs := AddUpdatedNodes (itemsHasUpdate u3) (cbs (uw u3))\<rparr>\<rparr>,
                         length (failedConfigItems u3) > 0)))))))"

text \<open>
  The goroutine that follows: the answer of \<^verbatim>\<open>getLockOfExecCallback\<close> is only logged, the callbacks run in any
  case; the results are not reported, since the function returns before.
\<close>

definition after_root_update ::
    "(string \<Rightarrow> bytes \<times> goerr option) \<Rightarrow> (string list \<Rightarrow> string \<times> goerr option) \<Rightarrow> Config \<Rightarrow> bool \<Rightarrow> bool \<Rightarrow> callback_state
     \<Rightarrow> (string, string) gomap \<times> (string list list \<times> (string, string) gomap) res \<times> callback_state" where
  "after_root_update run_cb run c has_update forceCompile s =
     (if has_update \<or> forceCompile then (invokeCallbacks run_cb c, invokeCallbackScripts run c s)
      else ([], Ok ([], []), s))"

section \<open>The update of a schema file\<close>

text \<open>
  The items of the file in order: the values found, the nodes that changed, the last error.
\<close>

fun schemafile_items ::
    "('d, 'e, 'o) env \<Rightarrow> tools \<Rightarrow> 'o DebugConfigs option \<Rightarrow> string \<Rightarrow> string list
     \<Rightarrow> (string, bytes option) gomap \<times> string list \<times> goerr option \<times> registry \<times> ('d, 'e) client
     \<Rightarrow> ((string, bytes option) gomap \<times> string list \<times> goerr option \<times> registry \<times> ('d, 'e) client) res option" where
  "schemafile_items E T dbc schemafile [] acc = Some (Ok acc)"
| "schemafile_items E T dbc schemafile (name # names) (itemValues, newNodes, err, r, s) =
     (case AddToWatchList (root_of name) r of
        (hasBeenWatching, r') \<Rightarrow>
          if hasBeenWatching then
            (case GetConfig E (clock_lock T) (clock_release T) name dbc schemafile False s of
               None \<Rightarrow> None
             | Some (Panic m, s') \<Rightarrow> Some (Panic m)
             | Some (Ok itemValue, s') \<Rightarrow>
                 schemafile_items E T dbc schemafile names (mset itemValues name itemValue, newNodes, None, r', s')
             | Some (Err e, s') \<Rightarrow>
                 schemafile_items E T dbc schemafile names (itemValues, newNodes, Some e, r', s'))
          else
            (case GetNewValueOfConfig E name dbc schemafile s of
               (Panic m, s') \<Rightarrow> Some (Panic m)
             | (Err e, s') \<Rightarrow> Some (Err e)
             | (Ok v, s') \<Rightarrow>
                 (if cErr v = None \<and> hasUpdate v \<and> \<not> isDebugValue v then
                    (case SaveToDisk E name (valuePlain v) (s'\<lparr>mem := StoreToMem name (valueSerialized v) (mem s')\<rparr>) of
                       (Panic m, s'') \<Rightarrow> Some (Panic m)
                     | (_, s'') \<Rightarrow>
                         schemafile_items E T dbc schemafile names
                           (mset itemValues name (valueSerialized v), newNodes @ [name], None, r', s''))
                  else if cErr v = None then
                    schemafile_items E T dbc schemafile names
                      (mset itemValues name (valueSerialized v), newNodes, None, r', s')
                  else schemafile_items E T dbc schemafile names (itemValues, newNodes, cErr v, r', s'))))"

text \<open>
  The part before the goroutine: the errors of the file (parsing or compiling) and of its last item;
  without the update lock nothing is done, and no goroutine follows.
\<close>

definition updateProjectConfigBySchemafile ::
    "('d, 'e, 'o) env \<Rightarrow> tools \<Rightarrow> bool \<Rightarrow> string \<Rightarrow> registry \<Rightarrow> ('d, 'e) world
     \<Rightarrow> ((goerr option \<times> goerr option) option \<times> registry \<times> ('d, 'e) world) res option" where
  "updateProjectConfigBySchemafile E T granted schemafile r w =
     (if \<not> granted then Some (Ok (None, r, w))
      else case ParseItems (files E) schemafile of
        Panic m \<Rightarrow> Some (Panic m)
      | Err e \<Rightarrow> Some (Ok (Some (Some e, None), r, w))
      | Ok definedItems \<Rightarrow>
          (case UpdateSchemaNodesAndDiff schemafile definedItems (cbs w) of
             (newNodes, c) \<Rightarrow>
               (case load_dbc E of
                  Panic m \<Rightarrow> Some (Panic m)
                | Err e \<Rightarrow> Some (Err e)
                | Ok dbc \<Rightarrow>
                    (case schemafile_items E T dbc schemafile definedItems ([], newNodes, None, r, cl w) of
                       None \<Rightarrow> None
                     | Some (Panic m) \<Rightarrow> Some (Panic m)
                     | Some (Err e) \<Rightarrow> Some (Err e)
                     | Some (Ok (itemValues, newNodes', itemErr, r', s)) \<Rightarrow>
                         (case compile E T itemValues schemafile (w\<lparr>cl := s, cbs := c\<rparr>) of
                            None \<Rightarrow> None
                          | Some (Panic m, w') \<Rightarrow> Some (Panic m)
                          | Some (Err e, w') \<Rightarrow> Some (Err e)
                          | Some (Ok err, w') \<Rightarrow>
                              Some (Ok (Some (err, itemErr), r', w'\<lparr>cbs := AddUpdatedNodes newNodes' (cbs w')\<rparr>)))))))"

text \<open>
  The goroutine that follows, when it has the lock for the callbacks: whether the file is sent to the
  recheck queue, the results of the callbacks, and the error that is reported.
\<close>

definition after_schemafile_update ::
    "(string \<Rightarrow> bytes \<times> goerr option) \<Rightarrow> (string list \<Rightarrow> string \<times> goerr option) \<Rightarrow> Config \<Rightarrow> goerr option \<Rightarrow> goerr option
     \<Rightarrow> callback_state \<Rightarrow> (string, string) gomap \<times> (string list list \<times> (string, string) gomap) res \<times> callback_state
        \<times> goerr option" where
  "after_schemafile_update run_cb run c err itemErr s =
     (let errMsg = err_list err @ err_list itemErr;
          sErr = (if length errMsg > 0 then Some (ErrText ([CHR 0x5B] @ Join errMsg '' '' @ [CHR 0x5D])) else None)
      in if err = None
         then (case invokeCallbackScripts run c s of (scripts, s') \<Rightarrow> (invokeCallbacks run_cb c, scripts, s', sErr))
         else ([], Ok ([], []), s, sErr))"

end
