(* ===== verification/UpdateLaws.thy ===== *)
theory UpdateLaws
  imports Updater
begin

text \<open>
  What an update does to the stores.  The locale \<open>client_frame\<close> states the contract of a relation between
  two states of the client that every access to the database and to the memory keeps, and carries
  it through the reads by any means and the compilations of schema files.  Its instance here is \<open>only_server_writes\<close>:
  nothing reaches the database but what the server has.
\<close>

section \<open>Relations kept by all reads and compilations\<close>

locale client_frame =
  fixes E :: "('d, 'e, 'o) env"
    and R :: "('d, 'e) client \<Rightarrow> ('d, 'e) client \<Rightarrow> bool"
  assumes R_mem: "R a b \<Longrightarrow> R a (b\<lparr>mem := m\<rparr>)"
    and R_queued: "R a b \<Longrightarrow> R a (b\<lparr>queued := q\<rparr>)"
    and R_read: "R a b \<Longrightarrow> R a (snd (GetFromDisk E n b))"
    and R_save: "R a b \<Longrightarrow> GetFromServer E n b = Ok c \<Longrightarrow> R a (snd (SaveToDisk E n c b))"
begin

lemma R_fetch_toml:
  assumes "R a b" "fetch_toml E n b = (r, s)"
  shows "R a s"
proof -
  obtain rd s1 where d: "GetFromDisk E n b = (rd, s1)" by fastforce
  then have s1: "R a s1" using R_read [OF assms(1), of n] by simp
  have "R a s2" if "GetFromServer E n s1 = Ok re" "SaveToDisk E n re s1 = (rs, s2)" for re rs s2
    using R_save [OF s1 that(1)] that(2) by simp
  with d s1 assms(2) show ?thesis by (auto simp: fetch_toml_def split: res.splits prod.splits)
qed

lemma R_fetch:
  assumes "R a b" "fetch E n b = (r, s)"
  shows "R a s"
proof -
  obtain rt s1 where t: "fetch_toml E n b = (rt, s1)" by fastforce
  then have "R a s1" by (rule R_fetch_toml [OF assms(1)])
  then show ?thesis using t assms(2) R_mem by (auto simp: fetch_def split: res.splits)
qed

lemma R_GetConfig:
  assumes "R a b" "GetConfig E t1 t2 n dbc sf lock b = Some (r, s)"
  shows "R a s"
proof -
  have f: "R a s1" if "fetch E n (b\<lparr>queued := q\<rparr>) = (x, s1)" for q x s1
    using R_fetch [OF R_queued [OF assms(1)] that] .
  have g: "R a s1" if "fetch E n b = (x, s1)" for x s1 using R_fetch [OF assms(1) that] .
  show ?thesis
    using assms R_queued f g
    by (auto simp: GetConfig_def split: option.splits res.splits prod.splits if_splits)
qed

lemma R_GetNewValue:
  assumes "R a b" "GetNewValueOfConfig E n dbc sf b = (r, s)"
  shows "R a s"
proof -
  obtain rd s1 where d: "GetFromDisk E n b = (rd, s1)" by fastforce
  then have s1: "R a s1" using R_read [OF assms(1), of n] by simp
  have "R a s2" if "finish_value E n p j v s1 = (x, s2)" for p j v x s2
    using s1 that R_mem by (auto simp: finish_value_def split: res.splits)
  with d s1 assms(2) show ?thesis
    by (auto simp: GetNewValueOfConfig_def split: res.splits prod.splits option.splits)
qed

lemma R_compile_item:
  assumes "R a b" "compile_item E T vs i (txt0, ms, b) = Some (Ok (txt1, ms', s))"
  shows "R a s"
  using assms R_GetConfig [OF assms(1)]
  by (auto simp: compile_item_def split: option.splits res.splits prod.splits)

lemma R_compile_items:
  "R a b \<Longrightarrow> compile_items E T vs is (txt0, ms, b) = Some (Ok (txt1, ms', s)) \<Longrightarrow> R a s"
proof (induction "is" arbitrary: txt0 ms b)
  case Nil
  then show ?case by simp
next
  case (Cons i "is")
  from Cons.prems(2) obtain t m s1 where
    i: "compile_item E T vs i (txt0, ms, b) = Some (Ok (t, m, s1))"
    and rest: "compile_items E T vs is (t, m, s1) = Some (Ok (txt1, ms', s))"
    by (auto split: option.splits res.splits)
  show ?case using Cons.IH [OF R_compile_item [OF Cons.prems(1) i] rest] .
qed

lemma R_raw_of:
  assumes "R a b" "raw_of E dbc fp n b = (r, s)"
  shows "R a s"
  using assms R_GetNewValue [OF assms(1)] by (auto simp: raw_of_def split: res.splits prod.splits)

lemma R_toml_nodes:
  "R a b \<Longrightarrow> toml_nodes E T dbc fp sect ms (l, es, b) = Ok (l', es', s) \<Longrightarrow> R a s"
proof (induction ms arbitrary: l es b)
  case Nil
  then show ?case by simp
next
  case (Cons m ms)
  obtain r s1 where raw: "raw_of E dbc fp (strip_marks m) b = (r, s1)" by fastforce
  with Cons.prems(1) have s1: "R a s1" by (rule R_raw_of)
  then show ?case
    using Cons.prems(2) Cons.IH [OF s1] raw by (auto simp: Let_def res_bind_eq_Ok split: res.splits)
qed

lemma R_toml_lines:
  "R a b \<Longrightarrow> toml_lines E T dbc fp ls (c, sect, es, b) = Ok (c', es', s) \<Longrightarrow> R a s"
proof (induction ls arbitrary: c sect es b)
  case Nil
  then show ?case by simp
next
  case (Cons l ls)
  let ?line = "TrimSpace l"
  consider "?line = []" | "?line \<noteq> []" "find_anchored sectionFinder ?line \<noteq> []"
    | "?line \<noteq> []" "find_anchored sectionFinder ?line = []" by blast
  then show ?case
  proof cases
    case 3
    with Cons.prems(2) obtain t es1 s1 where
      n: "toml_nodes E T dbc fp sect (take 1000 (find_all configFinder ?line)) (?line, es, b) = Ok (t, es1, s1)"
      and r: "toml_lines E T dbc fp ls (c @ t @ newline, sect, es1, s1) = Ok (c', es', s)"
      by (auto simp: Let_def res_bind_eq_Ok)
    show ?thesis using Cons.IH [OF R_toml_nodes [OF Cons.prems(1) n] r] .
  qed (use Cons in \<open>auto simp: Let_def\<close>)
qed

lemma write_out_cl: "cl (snd (snd (write_out T p c w))) = cl w"
  by (simp add: write_out_def split: option.split)

lemma R_compileTomlFile:
  assumes "R a (cl w)" "compileTomlFile E T fp w = (r, w')"
  shows "R a (cl w')"
proof -
  have "R a (cl w2)" if "toml_lines E T dbc fp ls ([], [], [], cl w) = Ok (c, es, s)"
      "write_out T p c2 (w\<lparr>cl := s\<rparr>) = (e1, e2, w2)" for dbc ls c es s p c2 e1 e2 w2
    using R_toml_lines [OF assms(1) that(1)] write_out_cl [of T p c2 "w\<lparr>cl := s\<rparr>"] that(2) by simp
  then show ?thesis
    using assms by (auto simp: compileTomlFile_def res_bind_def split: res.splits prod.splits)
qed

lemma R_compileSchemaFile:
  assumes "R a (cl w)" "compileSchemaFile E T vs fp w = Some (r, w')"
  shows "R a (cl w')"
proof -
  have "R a (cl w2)" if "compile_items E T vs is (t, [], cl w) = Some (Ok (c, es, s))"
      "write_out T p c2 (w\<lparr>cl := s\<rparr>) = (e1, e2, w2)" for "is" t c es s p c2 e1 e2 w2
    using R_compile_items [OF assms(1) that(1)] write_out_cl [of T p c2 "w\<lparr>cl := s\<rparr>"] that(2) by simp
  then show ?thesis
    using assms by (auto simp: compileSchemaFile_def split: option.splits res.splits prod.splits)
qed

lemma R_compile:
  assumes "R a (cl w)" "compile E T vs fp w = Some (r, w')"
  shows "R a (cl w')"
proof -
  let ?w = "w\<lparr>cbs := AddUpdatedSchemafiles fp (cbs w)\<rparr>"
  have "R a (cl ?w)" using assms(1) by simp
  note laws = R_compileTomlFile [OF this] R_compileSchemaFile [OF this]
  show ?thesis using assms laws by (simp add: compile_def split: if_splits)
qed

end

section \<open>Only contents of the server are written\<close>

definition disk_of :: "('d, 'e, 'o) env \<Rightarrow> string \<Rightarrow> ('d, 'e) client \<Rightarrow> bytes res" where
  "disk_of E n s = fst (GetFromDisk E n s)"

definition only_server_writes ::
    "('d, 'e, 'o) env \<Rightarrow> ('d \<Rightarrow> bool) \<Rightarrow> ('d, 'e) client \<Rightarrow> ('d, 'e) client \<Rightarrow> bool" where
  "only_server_writes E is_open s s' \<longleftrightarrow>
     keys_ok E \<and> db_open E is_open s' \<and> server s' = server s
     \<and> (\<forall>n. disk_of E n s' = disk_of E n s
          \<or> (\<exists>c. GetFromServer E n s = Ok c \<and> disk_of E n s' = Ok (stored E c)))"

lemma GetFromServer_server: "server s' = server s \<Longrightarrow> GetFromServer E n s' = GetFromServer E n s"
  by (cases "remote E") (simp_all add: GetFromServer_def)

lemma disk_of_same_disk:
  assumes "db_open E is_open s" and "disk s' = disk s"
  shows "disk_of E n s' = disk_of E n s" and "db_open E is_open s'"
proof -
  show o': "db_open E is_open s'" using assms by (simp add: db_open_def)
  show "disk_of E n s' = disk_of E n s"
    using getLocalStorage_open [OF assms(1)] getLocalStorage_open [OF o'] assms(2)
    by (cases "Conn_Get (engine E) (reopen_db E) n (disk s)") (simp add: disk_of_def GetFromDisk_def)
qed

interpretation server_writes: client_frame E "only_server_writes E is_open" for E :: "('d, 'e, 'o) env" and is_open
proof
  fix a b :: "('d, 'e) client" and m q n c
  assume R: "only_server_writes E is_open a b"
  then have op: "keys_ok E" "db_open E is_open b" "server b = server a" by (simp_all add: only_server_writes_def)
  show "only_server_writes E is_open a (b\<lparr>mem := m\<rparr>)" "only_server_writes E is_open a (b\<lparr>queued := q\<rparr>)"
    using R disk_of_same_disk [OF op(2), of "b\<lparr>mem := m\<rparr>"] disk_of_same_disk [OF op(2), of "b\<lparr>queued := q\<rparr>"]
    by (simp_all add: only_server_writes_def)
  show "only_server_writes E is_open a (snd (GetFromDisk E n b))"
    using R GetFromDisk_open [OF op(2)] by simp
  assume c: "GetFromServer E n b = Ok c"
  have "disk_of E k (snd (SaveToDisk E n c b)) = (if k = n then Ok (stored E c) else disk_of E k b)" for k
    using localdb.get_put [of E is_open b] op(1,2) by (simp add: disk_of_def)
  moreover have "GetFromServer E n a = Ok c" using c GetFromServer_server [OF op(3), of E n] by metis
  ultimately show "only_server_writes E is_open a (snd (SaveToDisk E n c b))"
    using R localdb.inv_put [of E is_open b n c] SaveToDisk_mem(2) [OF op(2,1)] op
    by (auto simp: only_server_writes_def)
qed

section \<open>One item through an update\<close>

text \<open>The server has the readable content \<open>c\<close> of \<open>n\<close>, with the JSON text \<open>j\<close>.\<close>

definition readable :: "('d, 'e, 'o) env \<Rightarrow> ('d, 'e) client \<Rightarrow> string \<Rightarrow> bytes \<Rightarrow> bytes option \<Rightarrow> bool" where
  "readable E s n c j \<longleftrightarrow> GetFromServer E n s = Ok c \<and> to_json E c = Ok j \<and> stored E c = c"

text \<open>What holds of such an item at every point of an update that began in \<open>s0\<close>.\<close>

definition tracked ::
    "('d, 'e, 'o) env \<Rightarrow> ('d \<Rightarrow> bool) \<Rightarrow> ('d, 'e) client \<Rightarrow> string \<Rightarrow> bytes \<Rightarrow> bytes option \<Rightarrow> ('d, 'e) update_vars \<Rightarrow> bool" where
  "tracked E is_open s0 n c j u \<longleftrightarrow>
     only_server_writes E is_open s0 (cl (uw u))
     \<and> wf_map (newItemValuesEncrypted u) \<and> wf_map (newItemValuesPlain u) \<and> wf_map (newItemValuesSerialized u)
     \<and> n \<notin> set (failedConfigItems u)
     \<and> (n \<in> set (itemsHasUpdate u) \<longrightarrow> mget (newItemValuesEncrypted u) n \<noteq> None)
     \<and> (\<forall>x. mget (newItemValuesEncrypted u) n = Some x \<longrightarrow>
          mget (newItemValuesPlain u) n = Some c \<and> mget (newItemValuesSerialized u) n = Some j
          \<and> Decrypt (tables E) (GetEncryptor E) x = Ok (TrimRight c [NUL])
          \<and> (hasUpdateOverall u \<or> registeredNodesHasUpdate u \<or> disk_of E n (cl (uw u)) = Ok c))"

lemma disk_of_stays:
  assumes "only_server_writes E is_open s s'" and "readable E s n c j" and "disk_of E n s = Ok c"
  shows "disk_of E n s' = Ok c"
  using assms unfolding only_server_writes_def readable_def by (metis res.inject(1))

lemma only_server_writes_trans:
  assumes "only_server_writes E is_open a b" and "only_server_writes E is_open b c"
  shows "only_server_writes E is_open a c"
proof -
  have "server b = server a" using assms(1) by (simp add: only_server_writes_def)
  then have "GetFromServer E n b = GetFromServer E n a" for n by (rule GetFromServer_server)
  then show ?thesis using assms unfolding only_server_writes_def by metis
qed

lemma only_server_writes_same_disk:
  assumes "only_server_writes E is_open a b" and "disk c = disk b" and "server c = server b"
  shows "only_server_writes E is_open a c"
  using assms disk_of_same_disk [of E is_open b c] by (auto simp: only_server_writes_def)

lemma tracked_cl:
  assumes "tracked E is_open s0 n c j u" and "readable E s0 n c j" and "only_server_writes E is_open (cl (uw u)) s"
  shows "tracked E is_open s0 n c j (u\<lparr>uw := (uw u)\<lparr>cl := s\<rparr>\<rparr>)"
proof -
  have w: "only_server_writes E is_open s0 (cl (uw u))" using assms(1) by (simp add: tracked_def)
  then have "readable E (cl (uw u)) n c j"
    using assms(2) GetFromServer_server [of "cl (uw u)" s0 E n] by (simp add: readable_def only_server_writes_def)
  then have "disk_of E n (cl (uw u)) = Ok c \<Longrightarrow> disk_of E n s = Ok c" using disk_of_stays [OF assms(3)] by blast
  then show ?thesis using assms(1) only_server_writes_trans [OF w assms(3)] by (auto simp: tracked_def)
qed

lemma new_value_state:
  assumes "db_open E is_open s" and "GetNewValueOfConfig E n dbc sf s = (Ok v, s')"
  shows "disk s' = disk s \<and> server s' = server s"
proof -
  have "GetFromDisk E n s = (disk_of E n s, s)"
    using GetFromDisk_open [OF assms(1), of n] by (simp add: disk_of_def prod_eq_iff)
  moreover have "disk s2 = disk s \<and> server s2 = server s" if "finish_value E n p x y s = (r, s2)" for p x y r s2
    using that by (auto simp: finish_value_def split: res.splits)
  ultimately show ?thesis
    using assms(2) by (auto simp: GetNewValueOfConfig_def split: res.splits prod.splits option.splits)
qed

lemma new_value_readable:
  assumes "db_open E is_open s" and "keys_ok E" and "\<not> DEVMODE (cfg E)" and "readable E s n c j"
    and "GetNewValueOfConfig E n dbc sf s = (Ok v, s')"
  shows "cErr v = None \<and> newVersionChecked v \<and> valuePlain v = c \<and> valueSerialized v = j
    \<and> hasUpdate v = (disk_of E n s \<noteq> Ok c)
    \<and> (\<exists>x. valueEncrypted v = Some x \<and> Decrypt (tables E) (GetEncryptor E) x = Ok (TrimRight c [NUL]))"
proof -
  have d: "GetFromDisk E n s = (disk_of E n s, s)"
    using GetFromDisk_open [OF assms(1), of n] by (simp add: disk_of_def prod_eq_iff)
  have "debug_value E dbc n sf = Ok (None, [])" using assms(3) by (simp add: debug_value_def split: option.split)
  moreover have "server_or_old E (disk_of E n s) (GetFromServer E n s) = Ok (Ok j, True, disk_of E n s \<noteq> Ok c)"
    using assms(4) by (simp add: server_or_old_def readable_def)
  moreover obtain x where "Encrypt (tables E) (GetEncryptor E) c = Ok x"
    "Decrypt (tables E) (GetEncryptor E) x = Ok (TrimRight c [NUL])"
    using assms(2) Encrypt_wf Decrypt_Encrypt_TrimRight unfolding keys_ok_def by blast
  ultimately show ?thesis
    using assms(4,5) d
    by (cases "disk_of E n s")
      (auto simp: GetNewValueOfConfig_def readable_def finish_value_def no_value_def)
qed

lemma note_schema_item_sel:
  "newItemValuesEncrypted (note_schema_item i v u) = (if cErr v = None then mset (newItemValuesEncrypted u) i (case valueEncrypted v of Some b \<Rightarrow> b | None \<Rightarrow> []) else newItemValuesEncrypted u)"
  "newItemValuesPlain (note_schema_item i v u) = (if cErr v = None then mset (newItemValuesPlain u) i (valuePlain v) else newItemValuesPlain u)"
  "newItemValuesSerialized (note_schema_item i v u) = (if cErr v = None then mset (newItemValuesSerialized u) i (valueSerialized v) else newItemValuesSerialized u)"
  "set (failedConfigItems (note_schema_item i v u)) = (if cErr v \<noteq> None \<or> \<not> newVersionChecked v then insert i (set (failedConfigItems u)) else set (failedConfigItems u))"
  "set (itemsHasUpdate (note_schema_item i v u)) = (if cErr v = None \<and> hasUpdate v then insert i (set (itemsHasUpdate u)) else set (itemsHasUpdate u))"
  "hasUpdateOverall (note_schema_item i v u) = (hasUpdateOverall u \<or> cErr v = None \<and> hasUpdate v)"
  "registeredNodesHasUpdate (note_schema_item i v u) = registeredNodesHasUpdate u"
  "uw (note_schema_item i v u) = uw u"
  by (auto simp: note_schema_item_def note_values_def note_failure_def Let_def)

lemma note_registered_sel:
  "newItemValuesEncrypted (note_registered i v u) = (if cErr v = None then mset (newItemValuesEncrypted u) i (case valueEncrypted v of Some b \<Rightarrow> b | None \<Rightarrow> []) else newItemValuesEncrypted u)"
  "newItemValuesPlain (note_registered i v u) = (if cErr v = None then mset (newItemValuesPlain u) i (valuePlain v) else newItemValuesPlain u)"
  "newItemValuesSerialized (note_registered i v u) = (if cErr v = None then mset (newItemValuesSerialized u) i (valueSerialized v) else newItemValuesSerialized u)"
  "set (failedConfigItems (note_registered i v u)) = (if cErr v \<noteq> None \<or> \<not> newVersionChecked v then insert i (set (failedConfigItems u)) else set (failedConfigItems u))"
  "itemsHasUpdate (note_registered i v u) = itemsHasUpdate u"
  "hasUpdateOverall (note_registered i v u) = hasUpdateOverall u"
  "registeredNodesHasUpdate (note_registered i v u) = (registeredNodesHasUpdate u \<or> cErr v = None \<and> hasUpdate v)"
  "uw (note_registered i v u) = uw u"
  by (auto simp: note_registered_def note_values_def note_failure_def Let_def)

lemmas note_sel = note_schema_item_sel note_registered_sel

text \<open>A call of \<^verbatim>\<open>GetNewValueOfConfig\<close> for any item, and what is noted of it.\<close>

lemma tracked_item:
  assumes tr: "tracked E is_open s0 n c j u" and "readable E s0 n c j" and "\<not> DEVMODE (cfg E)"
    and get: "GetNewValueOfConfig E dItem dbc sf (cl (uw u)) = (Ok v, s)"
    and note_cases: "note = note_schema_item \<or> note = note_registered"
  shows "tracked E is_open s0 n c j (note dItem v (u\<lparr>uw := (uw u)\<lparr>cl := s\<rparr>\<rparr>))
    \<and> (dItem = n \<longrightarrow> mget (newItemValuesEncrypted (note dItem v (u\<lparr>uw := (uw u)\<lparr>cl := s\<rparr>\<rparr>))) n \<noteq> None)"
proof -
  let ?s = "cl (uw u)"
  have w: "only_server_writes E is_open s0 ?s" using tr by (simp add: tracked_def)
  then have op: "keys_ok E" "db_open E is_open ?s" "server ?s = server s0" by (simp_all add: only_server_writes_def)
  have rd: "readable E ?s n c j" using assms(2) GetFromServer_server [OF op(3), of E n] by (simp add: readable_def)
  have st: "disk s = disk ?s" "server s = server ?s" using new_value_state [OF op(2) get] by simp_all
  have w': "only_server_writes E is_open s0 s" using only_server_writes_same_disk [OF w st] .
  have same: "disk_of E n s = disk_of E n ?s" using disk_of_same_disk(1) [OF op(2) st(1)] .
  show ?thesis
  proof (cases "dItem = n")
    case False
    then show ?thesis using tr w' same note_cases by (elim disjE; cases "cErr v") (auto simp: tracked_def note_sel)
  next
    case True
    from new_value_readable [OF op(2,1) assms(3) rd get [unfolded True]] obtain x where
      v: "cErr v = None" "newVersionChecked v" "valuePlain v = c" "valueSerialized v = j"
      "hasUpdate v = (disk_of E n ?s \<noteq> Ok c)" "valueEncrypted v = Some x"
      "Decrypt (tables E) (GetEncryptor E) x = Ok (TrimRight c [NUL])" by blast
    show ?thesis using tr w' same v True note_cases by (elim disjE) (simp_all add: tracked_def note_sel)
  qed
qed

definition noted :: "string \<Rightarrow> ('d, 'e) update_vars \<Rightarrow> bool" where
  "noted n u \<longleftrightarrow> mget (newItemValuesEncrypted u) n \<noteq> None"

lemma noted_grows:
  "noted n u \<Longrightarrow> noted n (note_schema_item i v u)" "noted n u \<Longrightarrow> noted n (note_registered i v u)"
  by (simp_all add: noted_def note_sel)

lemma update_item_tracked:
  assumes tr: "tracked E is_open s0 n c j u" and "readable E s0 n c j" and "\<not> DEVMODE (cfg E)"
    and up: "update_item E dbc configRoot p i u = Ok u'"
  shows "tracked E is_open s0 n c j u'" "noted n u \<Longrightarrow> noted n u'" "i = n \<Longrightarrow> of_root_node configRoot n \<Longrightarrow> noted n u'"
proof -
  let ?skip = "InArrayString (itemsHasUpdate u) i"
    and ?ask = "of_root_node configRoot i \<and> mget (newItemValuesEncrypted u) i = None"
  consider "?skip" "u' = u\<lparr>schemaContainsUpdate := True\<rparr>" | "\<not> ?skip" "\<not> ?ask" "u' = u"
    | v s where "\<not> ?skip" "?ask" "GetNewValueOfConfig E i dbc p (cl (uw u)) = (Ok v, s)"
        "u' = note_schema_item i v (u\<lparr>uw := (uw u)\<lparr>cl := s\<rparr>\<rparr>)"
  proof (cases ?skip)
    case True
    with up assms(3) that(1) show thesis by (simp add: update_item_def)
  next
    case skip: False
    show thesis
    proof (cases ?ask)
      case True
      obtain r s where "GetNewValueOfConfig E i dbc p (cl (uw u)) = (r, s)" by fastforce
      with up assms(3) skip True that(3) show thesis by (cases r) (simp_all add: update_item_def)
    next
      case False
      with up assms(3) skip that(2) show thesis by (auto simp: update_item_def split: if_splits)
    qed
  qed
  then have "tracked E is_open s0 n c j u' \<and> (noted n u \<longrightarrow> noted n u') \<and> (i = n \<longrightarrow> of_root_node configRoot n \<longrightarrow> noted n u')"
  proof cases
    case 1
    with tr show ?thesis by (auto simp: tracked_def noted_def)
  next
    case 2
    with tr show ?thesis by (auto simp: noted_def)
  next
    case 3
    have "noted n u \<Longrightarrow> noted n u'" using noted_grows(1) [of n "u\<lparr>uw := (uw u)\<lparr>cl := s\<rparr>\<rparr>"] 3(4) by (simp add: noted_def)
    with tracked_item [OF tr assms(2,3) 3(3), of note_schema_item] 3(4) show ?thesis by (auto simp: noted_def)
  qed
  then show "tracked E is_open s0 n c j u'" "noted n u \<Longrightarrow> noted n u'" "i = n \<Longrightarrow> of_root_node configRoot n \<Longrightarrow> noted n u'" by auto
qed

lemma update_items_tracked:
  assumes "readable E s0 n c j" and "\<not> DEVMODE (cfg E)"
  shows "tracked E is_open s0 n c j u \<Longrightarrow> update_items E dbc configRoot p is u = Ok u' \<Longrightarrow>
    tracked E is_open s0 n c j u' \<and> (noted n u \<or> n \<in> set is \<and> of_root_node configRoot n \<longrightarrow> noted n u')"
proof (induction "is" arbitrary: u)
  case Nil
  then show ?case by simp
next
  case (Cons i "is")
  from Cons.prems(2) obtain u1 where u1: "update_item E dbc configRoot p i u = Ok u1"
    and r: "update_items E dbc configRoot p is u1 = Ok u'" by (auto simp: res_bind_eq_Ok)
  show ?case using Cons.IH [OF update_item_tracked(1) [OF Cons.prems(1) assms u1] r]
      update_item_tracked(2,3) [OF Cons.prems(1) assms u1] by auto
qed

lemma update_schema_tracked:
  assumes "readable E s0 n c j" and "\<not> DEVMODE (cfg E)" and tr: "tracked E is_open s0 n c j u"
    and up: "update_schema E T dbc configRoot force p u = Some (Ok u')"
  shows "tracked E is_open s0 n c j u'
    \<and> (noted n u \<or> (\<exists>is. ParseItems (files E) p = Ok is \<and> n \<in> set is \<and> of_root_node configRoot n) \<longrightarrow> noted n u')"
proof -
  have t0: "tracked E is_open s0 n c j (u\<lparr>schemaContainsUpdate := False\<rparr>)" using tr by (simp add: tracked_def)
  show ?thesis
  proof (cases "ParseItems (files E) p")
    case (Ok "is")
    then obtain u1 where u1: "update_items E dbc configRoot p is (u\<lparr>schemaContainsUpdate := False\<rparr>) = Ok u1"
      and rest: "u' = u1 \<or> (\<exists>vs sErr w. compile E T vs p (uw u1) = Some (Ok sErr, w) \<and> u' = u1\<lparr>u_sErr := sErr, uw := w\<rparr>)"
      using up by (auto simp: update_schema_def Let_def split: res.splits if_splits option.splits prod.splits)
    have t1: "tracked E is_open s0 n c j u1" and n1: "noted n u \<or> n \<in> set is \<and> of_root_node configRoot n \<longrightarrow> noted n u1"
      using update_items_tracked [OF assms(1,2) t0 u1] by (auto simp: noted_def)
    have "tracked E is_open s0 n c j (u1\<lparr>u_sErr := e, uw := w\<rparr>)" if "compile E T vs p (uw u1) = Some (r, w)" for vs r w e
    proof -
      have op: "keys_ok E" "db_open E is_open (cl (uw u1))" using t1 by (auto simp: tracked_def only_server_writes_def)
      then have "only_server_writes E is_open (cl (uw u1)) (cl (uw u1))" by (simp add: only_server_writes_def)
      then have "only_server_writes E is_open (cl (uw u1)) (cl w)" using that by (rule server_writes.R_compile)
      from tracked_cl [OF t1 assms(1) this] show ?thesis by (simp add: tracked_def)
    qed
    with rest t1 n1 Ok show ?thesis by (auto simp: noted_def)
  next
    case (Err e)
    with up t0 show ?thesis by (auto simp: update_schema_def tracked_def noted_def)
  next
    case (Panic m)
    with up show ?thesis by (simp add: update_schema_def)
  qed
qed

lemma update_schemas_tracked:
  assumes "readable E s0 n c j" and "\<not> DEVMODE (cfg E)"
  shows "tracked E is_open s0 n c j u \<Longrightarrow> update_schemas E T dbc configRoot force ps u = Some (Ok u') \<Longrightarrow>
    tracked E is_open s0 n c j u'
    \<and> (noted n u \<or> (\<exists>p\<in>set ps. \<exists>is. ParseItems (files E) p = Ok is \<and> n \<in> set is \<and> of_root_node configRoot n)
       \<longrightarrow> noted n u')"
proof (induction ps arbitrary: u)
  case Nil
  then show ?case by simp
next
  case (Cons p ps)
  from Cons.prems(2) obtain u1 where u1: "update_schema E T dbc configRoot force p u = Some (Ok u1)"
    and r: "update_schemas E T dbc configRoot force ps u1 = Some (Ok u')" by (auto split: option.splits res.splits)
  from update_schema_tracked [OF assms Cons.prems(1) u1] have t1: "tracked E is_open s0 n c j u1"
    and n1: "noted n u \<or> (\<exists>is. ParseItems (files E) p = Ok is \<and> n \<in> set is \<and> of_root_node configRoot n) \<longrightarrow> noted n u1"
    by auto
  show ?case using Cons.IH [OF t1 r] n1 by auto
qed

lemma update_registered_tracked:
  assumes tr: "tracked E is_open s0 n c j u" and "readable E s0 n c j" and "\<not> DEVMODE (cfg E)"
    and up: "update_registered E dbc configRoot i u = Ok u'"
  shows "tracked E is_open s0 n c j u' \<and> (noted n u \<or> i = n \<and> of_root_node configRoot n \<longrightarrow> noted n u')"
proof (cases "of_root_node configRoot i \<and> mget (newItemValuesEncrypted u) i = None")
  case False
  with up have "u' = u" by (auto simp: update_registered_def of_root_node_def split: if_splits)
  with tr False show ?thesis by (auto simp: noted_def)
next
  case True
  obtain r s where get: "GetNewValueOfConfig E i dbc [] (cl (uw u)) = (r, s)" by fastforce
  with up True obtain v where v: "r = Ok v" "u' = note_registered i v (u\<lparr>uw := (uw u)\<lparr>cl := s\<rparr>\<rparr>)"
    by (cases r) (auto simp: update_registered_def of_root_node_def)
  have "noted n u \<Longrightarrow> noted n u'" using noted_grows(2) [of n "u\<lparr>uw := (uw u)\<lparr>cl := s\<rparr>\<rparr>"] v(2) by (simp add: noted_def)
  with tracked_item [OF tr assms(2,3) get [unfolded v(1)], of note_registered] v(2) show ?thesis by (auto simp: noted_def)
qed

lemma update_all_registered_tracked:
  assumes "readable E s0 n c j" and "\<not> DEVMODE (cfg E)"
  shows "tracked E is_open s0 n c j u \<Longrightarrow> update_all_registered E dbc configRoot is u = Ok u' \<Longrightarrow>
    tracked E is_open s0 n c j u' \<and> (noted n u \<or> n \<in> set is \<and> of_root_node configRoot n \<longrightarrow> noted n u')"
proof (induction "is" arbitrary: u)
  case Nil
  then show ?case by simp
next
  case (Cons i "is")
  from Cons.prems(2) obtain u1 where u1: "update_registered E dbc configRoot i u = Ok u1"
    and r: "update_all_registered E dbc configRoot is u1 = Ok u'" by (auto simp: res_bind_eq_Ok)
  from update_registered_tracked [OF Cons.prems(1) assms u1]
  show ?case using Cons.IH [OF _ r] by auto
qed

section \<open>Storing\<close>

lemma put_all_open:
  "db_open E is_open s \<Longrightarrow> put_all E kvs s = Ok (s\<lparr>disk := leveldb.puts (engine E) (reopen_db E) kvs (disk s)\<rparr>)"
proof (induction kvs arbitrary: s)
  case Nil
  then show ?case by simp
next
  case (Cons kv kvs)
  obtain k v where kv: "kv = (k, v)" by fastforce
  have r: "ldb_ready (engine E) is_open (disk s)" using Cons.prems by (simp add: db_open_def)
  obtain x d where p: "Conn_Put (engine E) (reopen_db E) k v (disk s) = (x, d)" by fastforce
  have "x = Ok ()" using Conn_Put_open [OF r, of "reopen_db E" k v] p by simp
  with p kv Cons.IH [OF db_open_Put [OF Cons.prems, of k v]] show ?case by simp
qed

lemma db_open_puts:
  assumes "db_open E is_open s"
  shows "db_open E is_open (s\<lparr>disk := leveldb.puts (engine E) (reopen_db E) kvs (disk s), mem := m\<rparr>)"
proof -
  have "initialized d = initialized (disk s) \<and> ldb_ready (engine E) is_open d"
    if "d = leveldb.puts (engine E) (reopen_db E) kvs (disk s)" for d
    unfolding that leveldb.puts_def using assms
    by (intro fold_invariant [where P = "\<lambda>x. initialized x = initialized (disk s) \<and> ldb_ready (engine E) is_open x"])
      (auto simp: leveldb.inv_put Conn_Put_open db_open_def)
  then show ?thesis using assms by (simp add: db_open_def)
qed

lemma fold_StoreToMem: "fold (\<lambda>(n, v). StoreToMem n v) kvs m = memory.puts kvs m"
  by (simp add: memory.puts_def)

lemma save_values_stores:
  assumes tr: "tracked E is_open s0 n c j u" and "\<not> DEVMODE (cfg E)" and "noted n u" and "stored E c = c"
    and up: "save_values E u = Ok u'"
  shows "disk_of E n (cl (uw u')) = Ok c
    \<and> (hasUpdateOverall u \<or> registeredNodesHasUpdate u \<longrightarrow> GetFromMem n (mem (cl (uw u'))) = j)"
proof (cases "hasUpdateOverall u \<or> registeredNodesHasUpdate u")
  case False
  with tr assms(3) up show ?thesis by (auto simp: save_values_def tracked_def noted_def)
next
  case True
  let ?s = "cl (uw u)"
  let ?vs = "if ENCRYPT_ENABLE (cfg E) then newItemValuesEncrypted u else newItemValuesPlain u"
  have op: "db_open E is_open ?s" using tr by (simp add: tracked_def only_server_writes_def)
  then have rdy: "ldb_ready (engine E) is_open (disk ?s)" by (simp add: db_open_def)
  obtain x where x: "mget (newItemValuesEncrypted u) n = Some x" "mget (newItemValuesPlain u) n = Some c"
    "mget (newItemValuesSerialized u) n = Some j" "Decrypt (tables E) (GetEncryptor E) x = Ok (TrimRight c [NUL])"
    using tr assms(3) by (auto simp: tracked_def noted_def)
  have wf: "wf_map ?vs" "wf_map (newItemValuesSerialized u)" using tr by (simp_all add: tracked_def)
  define d where "d = leveldb.puts (engine E) (reopen_db E) ?vs (disk ?s)"
  define s' where "s' = ?s\<lparr>disk := d, mem := memory.puts (newItemValuesSerialized u) (mem ?s)\<rparr>"
  have "kept E u k" for k using assms(2) by (simp add: kept_def)
  then have u': "cl (uw u') = s'"
    using up True getLocalStorage_open [OF op] put_all_open [OF op, of ?vs]
    by (auto simp: save_values_def Let_def fold_StoreToMem d_def s'_def)
  have op': "db_open E is_open s'" using db_open_puts [OF op] by (simp add: s'_def d_def)
  have "fst (Conn_Get (engine E) (reopen_db E) n d) = Ok (if ENCRYPT_ENABLE (cfg E) then x else c)"
    using leveldb.get_puts [OF rdy wf(1), of "reopen_db E" n] x(1,2) by (simp add: d_def)
  then have "disk_of E n s' = Ok (stored E c)"
    using getLocalStorage_open [OF op'] x(4)
    by (cases "Conn_Get (engine E) (reopen_db E) n d") (auto simp: disk_of_def GetFromDisk_def s'_def stored_def)
  moreover have "GetFromMem n (mem s') = j"
    using memory.get_puts [where s = "mem ?s" and k = n] wf(2) x(3) by (simp add: s'_def)
  ultimately show ?thesis using u' assms(4) by simp
qed

section \<open>The update of a root node\<close>

text \<open>The items an update of \<open>configRoot\<close> looks at: of the schema files and of the registered nodes.\<close>

definition looked_at ::
    "('d, 'e, 'o) env \<Rightarrow> tools \<Rightarrow> string \<Rightarrow> registry \<Rightarrow> string \<Rightarrow> bool" where
  "looked_at E T configRoot r n \<longleftrightarrow> of_root_node configRoot n
     \<and> (n \<in> fst ` set (registeredNodes r)
        \<or> (\<exists>f\<in>set (LoadSchemaFiles (md5_hex T) (files E) (cfg E)).
              \<exists>is. ParseItems (files E) (sf_Path f) = Ok is \<and> n \<in> set is))"

text \<open>Without schema files an update only reads, and then stores: it returns.\<close>

definition all_quiet :: "('d, 'e, 'o) env \<Rightarrow> string list \<Rightarrow> ('d, 'e) client \<Rightarrow> bool" where
  "all_quiet E ns s \<longleftrightarrow> (\<forall>n \<in> set ns. quiet E (disk_of E n s) (GetFromServer E n s))"

lemma update_all_registered_returns:
  assumes "keys_ok E" and "\<not> DEVMODE (cfg E)"
  shows "db_open E is_open (cl (uw u)) \<Longrightarrow> all_quiet E ns (cl (uw u)) \<Longrightarrow>
    \<exists>u'. update_all_registered E dbc configRoot ns u = Ok u' \<and> db_open E is_open (cl (uw u'))"
proof (induction ns arbitrary: u)
  case Nil
  then show ?case by simp
next
  case (Cons n ns)
  let ?s = "cl (uw u)"
  have dbg: "debug_value E dbc n [] = Ok (None, [])" using assms(2) by (simp add: debug_value_def split: option.split)
  obtain v s where v: "GetNewValueOfConfig E n dbc [] ?s = (Ok v, s)"
    using GetNewValueOfConfig_spec [OF Cons.prems(1) assms(1) dbg] Cons.prems(2)
    by (auto simp: all_quiet_def disk_of_def)
  have st: "disk s = disk ?s" "server s = server ?s" using new_value_state [OF Cons.prems(1) v] by simp_all
  have op: "db_open E is_open s" using disk_of_same_disk(2) [OF Cons.prems(1) st(1)] .
  have q: "all_quiet E ns ?s" using Cons.prems(2) by (simp add: all_quiet_def)
  then have q': "all_quiet E ns s"
    using disk_of_same_disk(1) [OF Cons.prems(1) st(1)] GetFromServer_server [OF st(2), of E] by (simp add: all_quiet_def)
  have "\<exists>u1. update_registered E dbc configRoot n u = Ok u1 \<and> (cl (uw u1) = s \<or> u1 = u)"
    using v by (simp add: update_registered_def note_sel)
  then obtain u1 where u1: "update_registered E dbc configRoot n u = Ok u1" "cl (uw u1) = s \<or> u1 = u" by blast
  then have "db_open E is_open (cl (uw u1)) \<and> all_quiet E ns (cl (uw u1))"
    using op q q' Cons.prems(1) by auto
  with Cons.IH [of u1] u1(1) show ?case by simp
qed

lemma registered_update_returns:
  assumes "db_open E is_open (cl w)" and "keys_ok E" and "\<not> DEVMODE (cfg E)"
    and "LoadSchemaFiles (md5_hex T) (files E) (cfg E) = []" and "all_quiet E (map fst (registeredNodes r)) (cl w)"
  shows "\<exists>u recheck. updateProjectConfigByRootNode E T True configRoot force r w = Some (Ok (u, recheck))"
proof -
  have dbc: "load_dbc E = Ok None" using assms(3) by (simp add: load_dbc_def)
  obtain u2 where u2: "update_all_registered E None configRoot (map fst (registeredNodes r)) (new_updater w) = Ok u2"
    and op: "db_open E is_open (cl (uw u2))"
    using update_all_registered_returns [OF assms(2,3), of is_open "new_updater w" "map fst (registeredNodes r)" None configRoot]
      assms(1,5) by (auto simp: new_updater_def)
  have "\<exists>u3. save_values E u2 = Ok u3"
    using getLocalStorage_open [OF op] put_all_open [OF op] by (simp add: save_values_def Let_def)
  then show ?thesis
    using dbc u2 assms(4) by (auto simp: updateProjectConfigByRootNode_def)
qed

lemma root_update_stored:
  assumes "db_open E is_open (cl w)" and "keys_ok E" and "\<not> DEVMODE (cfg E)"
    and up: "updateProjectConfigByRootNode E T True configRoot force r w = Some (Ok (u, recheck))"
    and "looked_at E T configRoot r n" and rd: "readable E (cl w) n c j"
  shows "disk_of E n (cl (uw u)) = Ok c \<and> n \<notin> set (failedConfigItems u)
    \<and> (hasUpdateOverall u \<or> registeredNodesHasUpdate u \<longrightarrow> GetFromMem n (mem (cl (uw u))) = j)"
proof -
  let ?s0 = "cl w" and ?ps = "map sf_Path (LoadSchemaFiles (md5_hex T) (files E) (cfg E))"
  have dbc: "load_dbc E = Ok None" using assms(3) by (simp add: load_dbc_def)
  with up obtain u1 u2 u3 where
    u1: "update_schemas E T None configRoot force ?ps (new_updater w) = Some (Ok u1)"
    and u2: "update_all_registered E None configRoot (map fst (registeredNodes r)) u1 = Ok u2"
    and u3: "save_values E u2 = Ok u3"
    and u: "u = u3\<lparr>uw := (uw u3)\<lparr>cbs := AddUpdatedNodes (itemsHasUpdate u3) (cbs (uw u3))\<rparr>\<rparr>"
    by (auto simp: updateProjectConfigByRootNode_def res_bind_eq_Ok Let_def split: option.splits)
  have t0: "tracked E is_open ?s0 n c j (new_updater w)"
    using assms(1,2) by (simp add: tracked_def only_server_writes_def new_updater_def)
  note s1 = update_schemas_tracked [OF rd assms(3) t0 u1]
  note s2 = update_all_registered_tracked [OF rd assms(3) conjunct1 [OF s1] u2]
  have "noted n u2" using s1 s2 assms(5) by (force simp: looked_at_def)
  moreover have "stored E c = c" using rd by (simp add: readable_def)
  ultimately have "disk_of E n (cl (uw u3)) = Ok c
      \<and> (hasUpdateOverall u2 \<or> registeredNodesHasUpdate u2 \<longrightarrow> GetFromMem n (mem (cl (uw u3))) = j)"
    using save_values_stores [OF conjunct1 [OF s2] assms(3) _ _ u3] by blast
  moreover have "hasUpdateOverall u3 = hasUpdateOverall u2 \<and> registeredNodesHasUpdate u3 = registeredNodesHasUpdate u2
      \<and> failedConfigItems u3 = failedConfigItems u2"
    using u3 by (auto simp: save_values_def Let_def split: if_splits res.splits)
  ultimately show ?thesis using s2 u by (auto simp: tracked_def)
qed

text \<open>C2: after an update of a root node that had its lock and returned, the database has the version of the server of
  every item under the root that a schema file names or a program registered, whatever the
  compilations in between fetched and stored; no such item is counted as failed, and when the update
  found any change the memory has its new JSON text.  (The server has a readable version of the item that
  storing does not change, and the client is not in development mode.)\<close>

theorem root_update_stores:
  assumes "db_open E is_open (cl w)" and "keys_ok E" and "\<not> DEVMODE (cfg E)"
    and up: "updateProjectConfigByRootNode E T True configRoot force r w = Some (Ok (u, recheck))"
    and "looked_at E T configRoot r n" and rd: "readable E (cl w) n c j"
  shows "disk_of E n (cl (uw u)) = Ok c \<and> n \<notin> set (failedConfigItems u)
    \<and> (hasUpdateOverall u \<or> registeredNodesHasUpdate u \<longrightarrow> GetFromMem n (mem (cl (uw u))) = j)"
  using assms by (rule root_update_stored)

text \<open>In development mode the values that came from debug files are never stored: the step of an update that stores
  the new values leaves what the database and the memory have of these items alone.\<close>

theorem debug_values_not_stored:
  assumes "db_open E is_open (cl (uw u))" and "DEVMODE (cfg E)" and "n \<in> set (fetchedDebugValues u)"
    and "save_values E u = Ok u'"
  shows "disk_of E n (cl (uw u')) = disk_of E n (cl (uw u)) \<and> GetFromMem n (mem (cl (uw u'))) = GetFromMem n (mem (cl (uw u)))"
proof (cases "hasUpdateOverall u \<or> registeredNodesHasUpdate u")
  case False
  with assms(4) show ?thesis by (simp add: save_values_def)
next
  case True
  let ?s = "cl (uw u)" and ?keep = "filter (\<lambda>(k, v). kept E u k)"
  let ?vs = "?keep (if ENCRYPT_ENABLE (cfg E) then newItemValuesEncrypted u else newItemValuesPlain u)"
  let ?ms = "filter (\<lambda>(k, v). kept E u k) (newItemValuesSerialized u)"
  have out: "n \<notin> fst ` set ?vs" "n \<notin> fst ` set ?ms" using assms(2,3) by (auto simp: kept_def)
  have u': "cl (uw u') = ?s\<lparr>disk := leveldb.puts (engine E) (reopen_db E) ?vs (disk ?s), mem := memory.puts ?ms (mem ?s)\<rparr>"
    using assms(4) True getLocalStorage_open [OF assms(1)] put_all_open [OF assms(1), of ?vs]
    by (auto simp: save_values_def Let_def fold_StoreToMem)
  have rdy: "ldb_ready (engine E) is_open (disk ?s)" using assms(1) by (simp add: db_open_def)
  have op': "db_open E is_open (cl (uw u'))" using db_open_puts [OF assms(1), where kvs = ?vs and m = "memory.puts ?ms (mem ?s)"] u' by simp
  have "fst (Conn_Get (engine E) (reopen_db E) n (disk (cl (uw u')))) = fst (Conn_Get (engine E) (reopen_db E) n (disk ?s))"
    using leveldb.get_puts_other [OF rdy out(1)] u' by simp
  then have "disk_of E n (cl (uw u')) = disk_of E n ?s"
    using getLocalStorage_open [OF op'] getLocalStorage_open [OF assms(1)]
    by (cases "Conn_Get (engine E) (reopen_db E) n (disk ?s)"; cases "Conn_Get (engine E) (reopen_db E) n (disk (cl (uw u')))")
      (simp add: disk_of_def GetFromDisk_def)
  moreover have "GetFromMem n (mem (cl (uw u'))) = GetFromMem n (mem ?s)"
    using memory.get_puts_other [where s = "mem ?s"] out(2) u' by simp
  ultimately show ?thesis by blast
qed

theorem debug_values_not_stored_witness:
  "\<exists>u'. save_values demo_dev ((new_updater demo_world)\<lparr>newItemValuesEncrypted := [(''p'', ''e'')],
        newItemValuesPlain := [(''p'', ''3'')], newItemValuesSerialized := [(''p'', Some ''3'')],
        fetchedDebugValues := [''p''], hasUpdateOverall := True\<rparr>) = Ok u'
     \<and> GetFromMem ''p'' (mem (cl (uw u'))) = None"
proof -
  let ?u = "(new_updater demo_world)\<lparr>newItemValuesEncrypted := [(''p'', ''e'')],
        newItemValuesPlain := [(''p'', ''3'')], newItemValuesSerialized := [(''p'', Some ''3'')],
        fetchedDebugValues := [''p''], hasUpdateOverall := True\<rparr>"
  have op: "db_open demo_dev fst (cl (uw ?u))"
    using demo_open [of "Ok ()" "[]"] by (simp add: demo_dev_def db_open_def new_updater_def demo_world_def demo_env_def)
  have dev: "DEVMODE (cfg demo_dev)" by (simp add: demo_dev_def demo_env_def)
  have "\<exists>u'. save_values demo_dev ?u = Ok u'"
    using getLocalStorage_open [OF op] put_all_open [OF op] by (simp add: save_values_def Let_def)
  then obtain u' where u': "save_values demo_dev ?u = Ok u'" by blast
  then show ?thesis using debug_values_not_stored [OF op dev _ u', of "''p''"]
    by (simp add: new_updater_def demo_world_def demo_client_def GetFromMem_def)
qed

definition demo_pay :: registry where
  "demo_pay = \<lparr>registeredNodes = [(''Pay.Db.host'', \<lparr>ni_Name = ''Pay.Db.host'', LastAccessTime = 5, RegTime = 5\<rparr>)],
     watchList = [], launched = []\<rparr>"

theorem root_update_stores_witness:
  "\<exists>u recheck. updateProjectConfigByRootNode (demo_env (Ok ())) demo_tools True ''Pay'' False demo_pay
       (demo_world\<lparr>cl := demo_client demo_server\<rparr>) = Some (Ok (u, recheck))
     \<and> disk_of (demo_env (Ok ())) ''Pay.Db.host'' (cl (uw u)) = Ok ''x'' \<and> ''Pay.Db.host'' \<notin> set (failedConfigItems u)"
proof -
  let ?E = "demo_env (Ok ())" and ?n = "''Pay.Db.host''" and ?w = "demo_world\<lparr>cl := demo_client demo_server\<rparr>"
  obtain e where e: "disk_of ?E ?n (demo_client demo_server) = Err e" using demo_facts(3) by (auto simp: disk_of_def)
  have op: "db_open ?E fst (cl ?w)" using demo_open by simp
  have dev: "\<not> DEVMODE (cfg ?E)" by (simp add: demo_env_def demo_config_def zero_config_def)
  have ns: "LoadSchemaFiles (md5_hex demo_tools) (files ?E) (cfg ?E) = []"
    by (simp add: LoadSchemaFiles_def demo_env_def demo_config_def zero_config_def)
  have "all_quiet ?E (map fst (registeredNodes demo_pay)) (cl ?w)"
    using e demo_facts(4,5) by (simp add: all_quiet_def demo_pay_def quiet_def)
  from registered_update_returns [OF op demo_keys dev ns this] obtain u rc where
    u: "updateProjectConfigByRootNode ?E demo_tools True ''Pay'' False demo_pay ?w = Some (Ok (u, rc))" by blast
  have rd: "readable ?E (cl ?w) ?n ''x'' (Some [CHR 0x22, CHR ''x'', CHR 0x22])"
    using demo_facts(1,4,5) by (simp add: readable_def)
  have "looked_at ?E demo_tools ''Pay'' demo_pay ?n"
  proof -
    have "of_root_node ''Pay'' ?n" by code_simp
    then show ?thesis by (simp add: looked_at_def demo_pay_def)
  qed
  from root_update_stores [OF op demo_keys dev u this rd]
  have "disk_of ?E ?n (cl (uw u)) = Ok ''x'' \<and> ?n \<notin> set (failedConfigItems u)" by blast
  with u show ?thesis by blast
qed

end
