(* ===== verification/GoPath.thy ===== *)
theory GoPath
  imports GoStrings
begin

text \<open>
  The functions of Go's \<^verbatim>\<open>path\<close> and \<^verbatim>\<open>path/filepath\<close> that the client uses, on a system whose separator
  is the slash.
\<close>

abbreviation slash :: char where
  "slash \<equiv> CHR ''/''"

fun clean_parts :: "bool \<Rightarrow> string list \<Rightarrow> string list \<Rightarrow> string list" where
  "clean_parts rooted out [] = out"
| "clean_parts rooted out (e # es) =
     clean_parts rooted
       (if e = [] \<or> e = ''.'' then out
        else if e = ''..'' then
          (if out \<noteq> [] \<and> last out \<noteq> ''..'' then butlast out else if rooted then out else out @ [''..''])
        else out @ [e]) es"

definition path_Clean :: "string \<Rightarrow> string" where
  "path_Clean p =
     (let rooted = (p \<noteq> [] \<and> hd p = slash);
          s = (if rooted then ''/'' else []) @ Join (clean_parts rooted [] (Split p ''/'')) ''/''
      in if s = [] then ''.'' else s)"

definition path_Dir :: "string \<Rightarrow> string" where
  "path_Dir p = path_Clean (case LastIndex p slash of None \<Rightarrow> [] | Some i \<Rightarrow> take (Suc i) p)"

definition path_Base :: "string \<Rightarrow> string" where
  "path_Base p =
     (if p = [] then ''.''
      else let q = TrimRight p ''/''
           in if q = [] then ''/'' else case LastIndex q slash of None \<Rightarrow> q | Some i \<Rightarrow> drop (Suc i) q)"

lemma LastIndex_absent: "c \<notin> set b \<Longrightarrow> LastIndex b c = None"
  by (induction b) auto

lemma LastIndex_append: "c \<notin> set b \<Longrightarrow> LastIndex (a @ c # b) c = Some (length a)"
proof (induction a)
  case Nil
  then show ?case by (simp add: LastIndex_absent)
next
  case (Cons x a)
  then show ?case by simp
qed

lemma path_Base_file:
  assumes "slash \<notin> set f" and "f \<noteq> []"
  shows "path_Base (d @ slash # f) = f"
proof -
  have "last f \<in> set f" using assms(2) by simp
  then have "last f \<noteq> slash" using assms(1) by metis
  then have "last (d @ slash # f) \<notin> set ''/''" using assms(2) by simp
  then have "TrimRight (d @ slash # f) ''/'' = d @ slash # f" by (intro TrimRight_id) simp
  then show ?thesis using LastIndex_append [OF assms(1)] by (simp add: path_Base_def)
qed

section \<open>Clean paths\<close>

lemma clean_parts_append: "clean_parts r out (xs @ ys) = clean_parts r (clean_parts r out xs) ys"
  by (induction r out xs rule: clean_parts.induct) simp_all

lemma clean_parts_parts:
  "\<forall>e \<in> set out \<union> set es. slash \<notin> set e \<Longrightarrow> \<forall>e \<in> set out. e \<noteq> [] \<Longrightarrow>
   e \<in> set (clean_parts r out es) \<Longrightarrow> e \<noteq> [] \<and> slash \<notin> set e"
proof (induction r out es rule: clean_parts.induct)
  case (2 r out x es)
  let ?o = "if x = [] \<or> x = ''.'' then out else if x = ''..'' then
      (if out \<noteq> [] \<and> last out \<noteq> ''..'' then butlast out else if r then out else out @ [''..'']) else out @ [x]"
  have "\<forall>e \<in> set ?o. e \<noteq> [] \<and> slash \<notin> set e" using 2(2,3) by (auto dest: in_set_butlastD)
  moreover have "\<forall>e \<in> set es. slash \<notin> set e" using 2(2) by simp
  ultimately have "\<forall>e \<in> set ?o \<union> set es. slash \<notin> set e" "\<forall>e \<in> set ?o. e \<noteq> []" by blast+
  then show ?case using 2(1) 2(4) unfolding clean_parts.simps by blast
qed simp

lemma path_Clean_last:
  assumes "path_Clean p \<noteq> ''/''"
  shows "path_Clean p \<noteq> [] \<and> last (path_Clean p) \<noteq> slash"
proof -
  define rooted where "rooted = (p \<noteq> [] \<and> hd p = slash)"
  define parts where "parts = clean_parts rooted [] (Split p ''/'')"
  have c: "path_Clean p = (let s = (if rooted then ''/'' else []) @ Join parts ''/'' in if s = [] then ''.'' else s)"
    by (simp add: path_Clean_def rooted_def parts_def Let_def)
  have "\<forall>e \<in> set (Split p ''/''). slash \<notin> set e" using split_on_no_sep by (fastforce simp: Split_eq_split_on)
  then have parts: "e \<noteq> [] \<and> slash \<notin> set e" if "e \<in> set parts" for e
    using clean_parts_parts [of "[]" "Split p ''/''" e rooted] that by (simp add: parts_def)
  show ?thesis
  proof (cases "parts = []")
    case True
    with assms c show ?thesis by (cases rooted) (simp_all add: Let_def)
  next
    case False
    then have "last parts \<in> set parts" by simp
    then have "last parts \<noteq> []" "slash \<notin> set (last parts)" using parts by blast+
    then have "last (last parts) \<noteq> slash" using last_in_set by metis
    moreover have "Join parts ''/'' \<noteq> [] \<and> last (Join parts ''/'') = last (last parts)"
      using last_Join [OF False] parts by blast
    ultimately show ?thesis using c by (simp add: Let_def)
  qed
qed

lemma path_Clean_slash: "p \<noteq> [] \<Longrightarrow> path_Clean (p @ ''/'') = path_Clean p"
proof -
  assume p: "p \<noteq> []"
  have "split_on slash (p @ [slash]) = split_on slash p @ [[]]" by (induction p) (auto simp: neq_Nil_conv)
  then show ?thesis using p by (simp add: path_Clean_def Split_eq_split_on clean_parts_append Let_def)
qed

lemma path_Dir_file:
  assumes "slash \<notin> set f" and "D \<noteq> []" and "path_Clean D = D"
  shows "path_Dir (D @ slash # f) = D"
proof -
  have "take (Suc (length D)) (D @ slash # f) = D @ ''/''" by simp
  then show ?thesis using LastIndex_append [OF assms(1), of D] path_Clean_slash [OF assms(2)] assms(3)
    by (simp add: path_Dir_def)
qed

end
