(* ===== verification/ConfigSetup.thy ===== *)
theory ConfigSetup
  imports Encrypt Toml Json Base64 ConfigTypes DebugConfig GoPath
begin

text \<open>
  The settings of the client (\<^verbatim>\<open>config/setup_config.go\<close>, \<^verbatim>\<open>config/utils.go\<close>), in the build for Linux: the
  settings packed into the program, the file \<^verbatim>\<open>/etc/DoveClient.conf\<close>, the environment of the process, and what
  the configuration centre says of an environment that is not packed.

  \<open>host\<close> is the system around the program.  Errors that are only logged (of changing owners and of creating the
  directory of the logs) are left out; an error of \<open>Setup\<close> ends the process, so its result is the settings, the
  addresses of the servers, or the error.
\<close>

record 'o host =
  args0 :: string
  getenv :: "string \<Rightarrow> string"
  id_cmd :: "string \<Rightarrow> string \<times> goerr option"
  own_ids :: "int \<times> int"
  mkdir_all :: "string \<Rightarrow> goerr option"
  host_fs :: fs
  interfaces :: "(string \<times> bool \<times> bool) list res"
  unix_now :: int
  md5_of :: "bytes \<Rightarrow> string"
  http_get :: "string \<Rightarrow> bytes res res"
  parse_float :: "string \<Rightarrow> rat res"
  toml_load :: "string \<Rightarrow> 'o toml res"
  toml_text :: "'o toml \<Rightarrow> string"
  toml_float :: "'o \<Rightarrow> rat option"
  host_tables :: Cipher
  spare :: nat
  SecretSettings :: bytes

section \<open>The packed settings\<close>

definition DecodeSetting :: "bytes \<Rightarrow> bytes" where
  "DecodeSetting settings = map (\<lambda>c. char_of_byte (not (byte_of c))) settings"

definition ParseSecretSettings :: "'o host \<Rightarrow> 'o toml res" where
  "ParseSecretSettings H =
     (case toml_load H (DecodeSetting (SecretSettings H)) of
        Err e \<Rightarrow> Err (ErrWrap ''Failed to load secret settings. You should fix configs in [settings.pack.toml.go] before compile the client! Error: '' e)
      | r \<Rightarrow> r)"

text \<open>Type assertions on a setting.\<close>

definition get_string :: "'o toml \<Rightarrow> string \<Rightarrow> string res" where
  "get_string t key = (case Get t key of Some (TStr s) \<Rightarrow> Ok s | _ \<Rightarrow> Panic ''interface conversion: not string'')"

definition get_int :: "'o toml \<Rightarrow> string \<Rightarrow> int res" where
  "get_int t key = (case Get t key of Some (TInt i) \<Rightarrow> Ok i | _ \<Rightarrow> Panic ''interface conversion: not int64'')"

definition get_float :: "'o host \<Rightarrow> 'o toml \<Rightarrow> string \<Rightarrow> rat res" where
  "get_float H t key =
     (case Get t key of
        Some (TOther x) \<Rightarrow> (case toml_float H x of Some r \<Rightarrow> Ok r | None \<Rightarrow> Panic ''interface conversion: not float64'')
      | _ \<Rightarrow> Panic ''interface conversion: not float64'')"

section \<open>The fields of the settings, by name\<close>

text \<open>What reflection sees of a field: its name, its type, and how it is set.\<close>

datatype field_type =
    FString "string \<Rightarrow> Config \<Rightarrow> Config"
  | FStrings "string list \<Rightarrow> Config \<Rightarrow> Config"
  | FStringss
  | FBool "bool \<Rightarrow> Config \<Rightarrow> Config"
  | FFloat "rat \<Rightarrow> Config \<Rightarrow> Config"
  | FInt

definition config_fields :: "(string \<times> field_type) list" where
  "config_fields =
     [(''ListenAddr'', FString (\<lambda>v. ListenAddr_update (\<lambda>_. v))),
      (''ListenAddrTransi'', FString (\<lambda>v. ListenAddrTransi_update (\<lambda>_. v))),
      (''RunAsBi'', FBool (\<lambda>v. RunAsBi_update (\<lambda>_. v))),
      (''InstallDir'', FString (\<lambda>v. InstallDir_update (\<lambda>_. v))),
      (''PidFile'', FString (\<lambda>v. PidFile_update (\<lambda>_. v))),
      (''DATA_ROOT'', FString (\<lambda>v. DATA_ROOT_update (\<lambda>_. v))),
      (''DATA_DIR'', FString (\<lambda>v. DATA_DIR_update (\<lambda>_. v))),
      (''LOG_DIR'', FString (\<lambda>v. LOG_DIR_update (\<lambda>_. v))),
      (''CONFIG_DIR'', FStrings (\<lambda>v. CONFIG_DIR_update (\<lambda>_. v))),
      (''DAEMON_USER'', FString (\<lambda>v. DAEMON_USER_update (\<lambda>_. v))),
      (''DAEMON_UID'', FInt),
      (''DAEMON_GID'', FInt),
      (''POST_UPDATE_CALLBACKS'', FStrings (\<lambda>v. POST_UPDATE_CALLBACKS_update (\<lambda>_. v))),
      (''POST_UPDATE_SCRIPTS'', FStrings (\<lambda>v. POST_UPDATE_SCRIPTS_update (\<lambda>_. v))),
      (''ENV'', FString (\<lambda>v. ENV_update (\<lambda>_. v))),
      (''ClientVer'', FString (\<lambda>v. ClientVer_update (\<lambda>_. v))),
      (''ENCRYPT_ENABLE'', FBool (\<lambda>v. ENCRYPT_ENABLE_update (\<lambda>_. v))),
      (''ENCRYPT_KEY'', FString (\<lambda>v. ENCRYPT_KEY_update (\<lambda>_. v))),
      (''ENCRYPT_IV'', FString (\<lambda>v. ENCRYPT_IV_update (\<lambda>_. v))),
      (''ENCRYPT_VER'', FFloat (\<lambda>v. ENCRYPT_VER_update (\<lambda>_. v))),
      (''DEVMODE'', FBool (\<lambda>v. DEVMODE_update (\<lambda>_. v))),
      (''DEBUG_FILE'', FString (\<lambda>v. DEBUG_FILE_update (\<lambda>_. v))),
      (''ETCD_CONNECTION_TIMEOUT'', FInt),
      (''ETCD_DIAL_KEEP_ALIVE_TIME'', FInt),
      (''ETCD_DIAL_KEEP_ALIVE_TIMEOUT'', FInt),
      (''ETCD_HEARTBEAT_KEY'', FString (\<lambda>v. ETCD_HEARTBEAT_KEY_update (\<lambda>_. v))),
      (''ETCD_REQUEST_TIMEOUT'', FInt),
      (''ETCD_MIN_RETRY_INTERVAL'', FInt),
      (''ETCD_RETRY_INTERVAL_RANGE'', FInt),
      (''ETCD_AUTO_SYNC_INTERVAL'', FInt),
      (''POST_UPDATE_SCRIPTS_RULE'', FString (\<lambda>v. POST_UPDATE_SCRIPTS_RULE_update (\<lambda>_. v))),
      (''PostUpdateRule'', FStringss),
      (''PPROF_LISTEN'', FString (\<lambda>v. PPROF_LISTEN_update (\<lambda>_. v))),
      (''DOVE_SERVER'', FString (\<lambda>v. DOVE_SERVER_update (\<lambda>_. v)))]"

text \<open>\<^verbatim>\<open>SetConfig\<close> with a string: the field must have that type.\<close>

definition SetConfig :: "string \<Rightarrow> string \<Rightarrow> Config \<Rightarrow> Config res" where
  "SetConfig name val c =
     (case map_of config_fields name of
        Some (FString f) \<Rightarrow> Ok (f val c)
      | _ \<Rightarrow> Panic ''reflect.Set: value of type string is not assignable'')"

definition GetBiPidFile :: "Config \<Rightarrow> string" where
  "GetBiPidFile c = DATA_ROOT c @ ''bi.pid''"

section \<open>The configuration file\<close>

definition set_field :: "'o host \<Rightarrow> string \<Rightarrow> string \<Rightarrow> Config \<Rightarrow> Config res" where
  "set_field H name val c =
     (case map_of config_fields name of
        None \<Rightarrow> Ok c
      | Some (FStrings f) \<Rightarrow> Ok (f (StringSplit val '','') c)
      | Some t \<Rightarrow>
          if name = ''ENCRYPT_ENABLE''
          then (case t of FBool f \<Rightarrow> Ok (f (let v = ToLower val in v = ''1'' \<or> v = ''true'') c) | _ \<Rightarrow> Panic ''reflect: SetBool'')
          else if name = ''ENCRYPT_VER''
          then (case t of
                  FFloat f \<Rightarrow>
                    (case parse_float H val of
                       Ok encVer \<Rightarrow> Ok (f encVer c)
                     | Err e \<Rightarrow> Err (ErrWrap ''Failed to parse ENCRYPT_VER: '' e)
                     | Panic m \<Rightarrow> Panic m)
                | _ \<Rightarrow> Panic ''reflect: SetFloat'')
          else (case t of FString f \<Rightarrow> Ok (f val c) | _ \<Rightarrow> Panic ''reflect: call of SetString on a field of another type''))"

fun parse_lines :: "'o host \<Rightarrow> string \<Rightarrow> nat \<Rightarrow> string list \<Rightarrow> Config \<Rightarrow> Config res" where
  "parse_lines H configFile lineNo [] c = Ok c"
| "parse_lines H configFile lineNo (line # ls) c =
     (if Index line ''#'' = Some 0 then parse_lines H configFile (Suc lineNo) ls c
      else case SplitN2 line ''='' of
             [k, v] \<Rightarrow>
               res_bind (set_field H (Trim k '' '') (Trim v [CHR '' '', CHR 0x22]) c)
                 (parse_lines H configFile (Suc lineNo) ls)
           | _ \<Rightarrow> Err (ErrText (''Failed to parse config file '' @ [CHR 0x27] @ configFile @ [CHR 0x27] @ '' on line '' @ Itoa (int lineNo))))"

definition config_path :: "string \<Rightarrow> string" where
  "config_path configFile = (if configFile = [] then ''/etc/DoveClient.conf'' else configFile)"

definition ParseExtraConfig :: "'o host \<Rightarrow> string \<Rightarrow> Config \<Rightarrow> Config res" where
  "ParseExtraConfig H configFile c =
     res_bind (fs_file (host_fs H) (config_path configFile)) (\<lambda>configStringByte.
       parse_lines H (config_path configFile) 0
         (Split (Trim configStringByte [CHR '' '', CHR 0x0A, CHR 0x0D, CHR 0x0A]) [CHR 0x0A]) c)"

text \<open>The file of rules for the scripts that run after an update: rows of strings.\<close>

fun string_row :: "'o toml list \<Rightarrow> string list res" where
  "string_row [] = Ok []"
| "string_row (TStr s # vs) = res_bind (string_row vs) (\<lambda>row. Ok (s # row))"
| "string_row (v # vs) = Panic ''interface conversion: not string''"

fun rule_rows :: "'o toml \<Rightarrow> string list \<Rightarrow> string list list res" where
  "rule_rows rules [] = Ok []"
| "rule_rows rules (key # keys) =
     (case Get rules key of
        Some (TArr vs) \<Rightarrow> res_bind (string_row vs) (\<lambda>row. res_bind (rule_rows rules keys) (\<lambda>rows. Ok (row # rows)))
      | _ \<Rightarrow> rule_rows rules keys)"

definition ParsePostUpdateRule :: "'o host \<Rightarrow> string \<Rightarrow> string list list res" where
  "ParsePostUpdateRule H ruleFile =
     res_bind (LoadFile (toml_load H) (host_fs H) ruleFile) (\<lambda>t.
       case Get t ''rules'' of
         Some (TTree ks vs) \<Rightarrow> rule_rows (TTree ks vs) ks
       | _ \<Rightarrow> Panic ''interface conversion: not *toml.TomlTree'')"

section \<open>Environments that are not packed\<close>

text \<open>The first address of an interface that is neither a loopback nor of version 6: \<open>(text, loopback, version 4)\<close>.\<close>

definition GetLocalIp :: "'o host \<Rightarrow> string" where
  "GetLocalIp H =
     (case interfaces H of
        Ok addrs \<Rightarrow>
          (case find (\<lambda>(ip, loop, v4). \<not> loop \<and> v4) addrs of Some (ip, _) \<Rightarrow> ip | None \<Rightarrow> ''Unknown'')
      | _ \<Rightarrow> ''Unknown'')"

text \<open>
  \<^verbatim>\<open>json.Unmarshal\<close> into a struct of strings matches keys without regard to case, where the long s and the Kelvin
  sign count as letters; the last key wins.
\<close>

function fold_key :: "string \<Rightarrow> string" where
  "fold_key s =
     (case s of
        [] \<Rightarrow> []
      | c # r \<Rightarrow>
          if take 2 s = [CHR 0xC5, CHR 0xBF] then CHR ''s'' # fold_key (drop 2 s)
          else if take 3 s = [CHR 0xE2, CHR 0x84, CHR 0xAA] then CHR ''k'' # fold_key (drop 3 s)
          else lower c # fold_key r)"
  by pat_completeness auto
termination by (relation "measure length") auto

declare fold_key.simps [simp del]

definition struct_string :: "(string \<times> json) list \<Rightarrow> string \<Rightarrow> string res" where
  "struct_string m name =
     (let vs = map snd (filter (\<lambda>(k, v). fold_key k = ToLower name) m)
      in if list_all (\<lambda>v. case v of JStr _ \<Rightarrow> True | JNull \<Rightarrow> True | _ \<Rightarrow> False) vs
         then Ok (foldl (\<lambda>acc v. case v of JStr x \<Rightarrow> x | _ \<Rightarrow> acc) [] vs)
         else Err (ErrText ''json: cannot unmarshal into Go struct field of type string''))"

definition struct3 :: "bytes \<Rightarrow> string \<Rightarrow> string \<Rightarrow> string \<Rightarrow> (string \<times> string \<times> string) res" where
  "struct3 b f g h =
     res_bind (UnmarshalMap b) (\<lambda>m.
     res_bind (struct_string m f) (\<lambda>x.
     res_bind (struct_string m g) (\<lambda>y.
     res_bind (struct_string m h) (\<lambda>z. Ok (x, y, z)))))"

record EnvInfo =
  Hosts :: string
  ei_Key :: string
  Iv :: string

definition env_url :: "'o host \<Rightarrow> string \<Rightarrow> Config \<Rightarrow> string" where
  "env_url H authKey c =
     (let env = ToLower (Replace (ENV c) ''-'' [] (-1));
          timestamp = Itoa (unix_now H);
          ip = GetLocalIp H;
          sign = md5_of H (ip @ env @ timestamp @ authKey)
      in TrimRight (DOVE_SERVER c) ''/'' @ ''/Api/Env?env='' @ env @ ''&timestamp='' @ timestamp
         @ ''&sign='' @ sign @ ''&ip='' @ ip)"

text \<open>A failed \<^verbatim>\<open>http.Get\<close> gives no response, whose body the code closes before it looks at the error.\<close>

definition initZkConfigByServer :: "'o host \<Rightarrow> 'o toml \<Rightarrow> Config \<Rightarrow> EnvInfo res" where
  "initZkConfigByServer H secret c =
     (if DOVE_SERVER c = [] then Err (ErrText ''Unconfigured address(DOVE_SERVER)'')
      else
        res_bind (get_string secret ''Env.AuthKey'') (\<lambda>authKey.
        case http_get H (env_url H authKey c) of
          Ok body \<Rightarrow>
            res_bind body (\<lambda>response.
            res_bind (struct3 response ''Status'' ''Data'' ''Message'') (\<lambda>(Status, Data, Message).
            if Status \<noteq> ''ok'' then Err (ErrText Message)
            else
              res_bind (DecodeString Data) (\<lambda>decData.
              res_bind (get_string secret ''Env.AuthIv'') (\<lambda>authIv.
              res_bind (Decrypt (host_tables H) \<lparr>IV = authIv, Key = authKey, enc_Mode = [], enc_Cipher = []\<rparr> decData) (\<lambda>plaintext.
              res_bind (struct3 plaintext ''Hosts'' ''Key'' ''Iv'') (\<lambda>(x, y, z).
                Ok \<lparr>Hosts = x, ei_Key = y, Iv = z\<rparr>))))))
        | _ \<Rightarrow> Panic ''invalid memory address or nil pointer dereference''))"

record zk_config =
  zk_hosts :: "(string, string list) gomap"
  zk_root :: string

fun packed_hosts :: "(string \<times> 'o goval) list \<Rightarrow> (string, string list) gomap res" where
  "packed_hosts [] = Ok []"
| "packed_hosts ((env, GVal (TStr h)) # raw) =
     res_bind (packed_hosts raw) (\<lambda>m. Ok ((env, Split h '','') # m))"
| "packed_hosts ((env, v) # raw) = Panic ''interface conversion: not string''"

definition initZkConfig :: "'o host \<Rightarrow> 'o toml \<Rightarrow> Config \<Rightarrow> EnvInfo option \<Rightarrow> zk_config res" where
  "initZkConfig H secret c envInfo =
     res_bind
       (case envInfo of
          Some i \<Rightarrow> Ok [(ENV c, Split (Hosts i) '','')]
        | None \<Rightarrow>
            (case Get secret ''Zookeeper.host'' of
               Some (TTree ks vs) \<Rightarrow>
                 (case TomlToMap (toml_load H) (toml_text H (TTree ks vs)) of
                    Ok hostsRaw \<Rightarrow> packed_hosts hostsRaw
                  | Err _ \<Rightarrow> Ok []
                  | Panic m \<Rightarrow> Panic m)
             | _ \<Rightarrow> Panic ''interface conversion: not *toml.TomlTree''))
       (\<lambda>hosts. res_bind (get_string secret ''Zookeeper.root'') (\<lambda>r. Ok \<lparr>zk_hosts = hosts, zk_root = r\<rparr>))"

section \<open>The user of the daemon\<close>

text \<open>
  The output of the command \<^verbatim>\<open>id\<close>.  A slice of a converted string may reach into the spare capacity of the conversion, which
  holds zero bytes.
\<close>

definition byte_slice :: "nat \<Rightarrow> string \<Rightarrow> nat \<Rightarrow> nat option \<Rightarrow> string res" where
  "byte_slice extra s lo hi =
     (case hi of
        None \<Rightarrow> Panic ''slice bounds out of range''
      | Some k \<Rightarrow>
          if lo \<le> k \<and> k \<le> length s + extra then Ok (drop lo (take k (s @ replicate extra NUL)))
          else Panic ''slice bounds out of range'')"

text \<open>The number \<^verbatim>\<open>strconv.Atoi\<close> returns, also together with an error.\<close>

definition atoi_value :: "string \<Rightarrow> int" where
  "atoi_value s =
     (case Atoi s of
        Ok i \<Rightarrow> i
      | _ \<Rightarrow>
          let ds = (if s \<noteq> [] \<and> (hd s = CHR ''-'' \<or> hd s = CHR ''+'') then tl s else s)
          in if ds = [] \<or> \<not> list_all is_digit ds then 0
             else if hd s = CHR ''-'' then - (2 ^ 63) else 2 ^ 63 - 1)"

definition LookupOsUidGid :: "'o host \<Rightarrow> string \<Rightarrow> (int \<times> int) res" where
  "LookupOsUidGid H name =
     (case id_cmd H name of
        (o1, Some e) \<Rightarrow> Err (ErrText (''Failed to get uid and gid for ['' @ name @ '']: '' @ err_text e @ '':'' @ o1))
      | (o1, None) \<Rightarrow>
          (case Fields o1 of
             f0 # f1 # _ \<Rightarrow>
               res_bind (byte_slice (spare H) f1 4 (Index f0 ''('')) (\<lambda>u.
               res_bind (byte_slice (spare H) f1 4 (Index f1 ''('')) (\<lambda>g.
                 case Atoi g of
                   Ok gid \<Rightarrow> Ok (atoi_value u, gid)
                 | Err e \<Rightarrow> Err (ErrText (''Failed to get gid for['' @ name @ '']: '' @ err_text e))
                 | Panic m \<Rightarrow> Panic m))
           | _ \<Rightarrow> Panic ''slice bounds out of range''))"

section \<open>Setup\<close>

text \<open>
  Whether the environment is known: the centre is asked first, and any error of it falls back to the packed
  environments.  (A percent sign in the name of the environment is not printed specially here.)
\<close>

definition env_info :: "'o host \<Rightarrow> 'o toml \<Rightarrow> Config \<Rightarrow> EnvInfo option res" where
  "env_info H secret c =
     (case initZkConfigByServer H secret c of
        Ok i \<Rightarrow> Ok (Some i)
      | Panic m \<Rightarrow> Panic m
      | Err _ \<Rightarrow>
          let err = (if Get secret (''Zookeeper.host.'' @ ENV c) = None then Some (''Zookeeper.host.'' @ ENV c @ ''not found.'')
                     else if Get secret (''Encrypt.'' @ ENV c) = None then Some (''Encrypt.'' @ ENV c @ ''not found.'')
                     else None)
          in case err of
               None \<Rightarrow> Ok None
             | Some e \<Rightarrow>
                 (case Get secret ''Zookeeper.host'' of
                    Some (TTree ks vs) \<Rightarrow>
                      Err (ErrText (''env ['' @ ENV c @ ''] has not been suppored: '' @ e @ '', valid envs are '' @ [CHR 0x5B] @ Join ks '' '' @ [CHR 0x5D]))
                  | _ \<Rightarrow> Panic ''interface conversion: not *toml.TomlTree''))"

definition setup_ids :: "'o host \<Rightarrow> Config \<Rightarrow> Config res" where
  "setup_ids H c =
     res_bind (if DAEMON_USER c = [] then Ok (own_ids H) else LookupOsUidGid H (DAEMON_USER c)) (\<lambda>(uid, gid).
       Ok (c\<lparr>DAEMON_UID := uid, DAEMON_GID := gid\<rparr>))"

definition make_dir :: "'o host \<Rightarrow> string \<Rightarrow> string \<Rightarrow> unit res" where
  "make_dir H what dir =
     (if FileExists (host_fs H) dir then Ok ()
      else case mkdir_all H dir of
             None \<Rightarrow> Ok ()
           | Some e \<Rightarrow> Err (ErrText (''Failed to initialize '' @ what @ '' dir['' @ dir @ '']: '' @ err_text e)))"

text \<open>The assignment of the default root is overwritten by the next statement.\<close>

definition data_root :: "Config \<Rightarrow> Config" where
  "data_root c =
     (let c1 = (if DATA_DIR c = [] then c\<lparr>DATA_ROOT := ''/var/lib/doveclient/''\<rparr> else c)
      in c1\<lparr>DATA_ROOT := TrimRight (DATA_DIR c1) ''/'' @ ''/''\<rparr>)"

definition setup_paths :: "'o host \<Rightarrow> Config \<Rightarrow> Config" where
  "setup_paths H c =
     (let c1 = (if ListenAddr c = []
                then c\<lparr>ListenAddr := DATA_DIR c @ ''doveclient.sock'', ListenAddrTransi := DATA_DIR c @ ''doveclient.transi.sock''\<rparr>
                else c);
          c2 = c1\<lparr>InstallDir := path_Dir (args0 H) @ '':''\<rparr>;
          c3 = (if \<not> RunAsBi c2 then c2\<lparr>PidFile := DATA_ROOT c2 @ ''pid''\<rparr> else c2\<lparr>PidFile := GetBiPidFile c2\<rparr>)
      in c3\<lparr>DATA_DIR := DATA_ROOT c3 @ ''/'' @ ENV c3 @ ''/''\<rparr>)"

definition pick_keys :: "'o toml \<Rightarrow> EnvInfo option \<Rightarrow> Config \<Rightarrow> Config res" where
  "pick_keys secret envInfo c =
     (case envInfo of
        Some i \<Rightarrow> Ok (c\<lparr>ENCRYPT_IV := Iv i, ENCRYPT_KEY := ei_Key i\<rparr>)
      | None \<Rightarrow>
          res_bind (get_string secret (''Encrypt.'' @ ENV c @ ''.iv'')) (\<lambda>iv.
          res_bind (get_string secret (''Encrypt.'' @ ENV c @ ''.key'')) (\<lambda>key.
            Ok (c\<lparr>ENCRYPT_IV := iv, ENCRYPT_KEY := key\<rparr>))))"

definition pick_version :: "'o host \<Rightarrow> 'o toml \<Rightarrow> Config \<Rightarrow> Config res" where
  "pick_version H secret c =
     (if ENCRYPT_VER c = 0 then res_bind (get_float H secret ''Encrypt.Ver'') (\<lambda>v. Ok (c\<lparr>ENCRYPT_VER := v\<rparr>))
      else Ok c)"

definition check_keys :: "Config \<Rightarrow> Config res" where
  "check_keys c =
     (if length (ENCRYPT_IV c) \<noteq> ENC_IV_SIZE then
        Err (ErrText (''Config encryption enabled, but ENCRYPT_IV  defined in config is not valid. Expecting a ''
                      @ Itoa (int ENC_IV_SIZE) @ ''-byte IV, but '' @ Itoa (int (length (ENCRYPT_IV c))) @ '' bytes detected!''))
      else if length (ENCRYPT_KEY c) < 1 then
        Err (ErrText ''Config encryption enabled, but ENCRYPT_KEY length is shorter than 1'')
      else Ok c)"

definition setup_keys :: "'o host \<Rightarrow> 'o toml \<Rightarrow> EnvInfo option \<Rightarrow> Config \<Rightarrow> Config res" where
  "setup_keys H secret envInfo c =
     res_bind (pick_keys secret envInfo c) (\<lambda>c1. res_bind (pick_version H secret c1) check_keys)"

text \<open>The environment variables, field by field.\<close>

definition env_override :: "'o host \<Rightarrow> string \<times> field_type \<Rightarrow> Config \<Rightarrow> Config res" where
  "env_override H field c =
     (case field of (name, t) \<Rightarrow>
        let v = getenv H (''DOVE_'' @ name)
        in if v = [] then Ok c
           else case t of
                  FStrings f \<Rightarrow> Ok (f (Split v '','') c)
                | FStringss \<Rightarrow> Ok c
                | _ \<Rightarrow> SetConfig name v c)"

fun env_overrides :: "'o host \<Rightarrow> (string \<times> field_type) list \<Rightarrow> Config \<Rightarrow> Config res" where
  "env_overrides H [] c = Ok c"
| "env_overrides H (f # fs) c = res_bind (env_override H f c) (env_overrides H fs)"

definition setup_debug :: "'o host \<Rightarrow> Config \<Rightarrow> Config" where
  "setup_debug H c =
     (if DEBUG_FILE c \<noteq> [] \<and> FileExists (host_fs H) (DEBUG_FILE c) then
        (case LastIndex (DEBUG_FILE c) slash of
           Some lastpos \<Rightarrow> c\<lparr>CONFIG_DIR := CONFIG_DIR c @ [take lastpos (DEBUG_FILE c)], DEVMODE := True\<rparr>
         | None \<Rightarrow> c)
      else c)"

definition setup_etcd :: "'o toml \<Rightarrow> Config \<Rightarrow> Config res" where
  "setup_etcd secret c =
     res_bind (get_int secret ''Etcd.CONNECTION_TIMEOUT'') (\<lambda>v1.
     res_bind (get_int secret ''Etcd.DIAL_KEEP_ALIVE_TIME'') (\<lambda>v2.
     res_bind (get_int secret ''Etcd.DIAL_KEEP_ALIVE_TIMEOUT'') (\<lambda>v3.
     res_bind (get_string secret ''Etcd.HEARTBEAT_KEY'') (\<lambda>v4.
     res_bind (get_int secret ''Etcd.REQUEST_TIMEOUT'') (\<lambda>v5.
     res_bind (get_int secret ''Etcd.MIN_RETRY_INTERVAL'') (\<lambda>v6.
     res_bind (get_int secret ''Etcd.RETRY_INTERVAL_RANGE'') (\<lambda>v7.
     res_bind (get_int secret ''Etcd.AUTO_SYNC_INTERVAL'') (\<lambda>v8.
       Ok (c\<lparr>ETCD_CONNECTION_TIMEOUT := v1, ETCD_DIAL_KEEP_ALIVE_TIME := v2, ETCD_DIAL_KEEP_ALIVE_TIMEOUT := v3,
             ETCD_HEARTBEAT_KEY := v4, ETCD_REQUEST_TIMEOUT := v5, ETCD_MIN_RETRY_INTERVAL := v6,
             ETCD_RETRY_INTERVAL_RANGE := v7, ETCD_AUTO_SYNC_INTERVAL := v8\<rparr>)))))))))"

definition wrap_err :: "string \<Rightarrow> string \<Rightarrow> 'a res \<Rightarrow> 'a res" where
  "wrap_err pre post r = (case r of Err e \<Rightarrow> Err (ErrText (pre @ err_text e @ post)) | x \<Rightarrow> x)"

definition setup_rule :: "'o host \<Rightarrow> Config \<Rightarrow> Config res" where
  "setup_rule H c =
     (if POST_UPDATE_SCRIPTS_RULE c \<noteq> [] then
        res_bind (wrap_err ''Callback configuration error: '' [] (ParsePostUpdateRule H (POST_UPDATE_SCRIPTS_RULE c)))
          (\<lambda>rows. Ok (c\<lparr>PostUpdateRule := rows\<rparr>))
      else Ok c)"

definition Setup :: "'o host \<Rightarrow> string \<Rightarrow> Config \<Rightarrow> (Config \<times> zk_config) res" where
  "Setup H configFile c0 =
     res_bind (wrap_err ''Failed to parse secret configs: '' '' '' (ParseSecretSettings H)) (\<lambda>secret.
     res_bind (wrap_err ''Failed to initialize configs: '' '' '' (ParseExtraConfig H configFile c0)) (\<lambda>c1.
     res_bind (setup_rule H c1) (\<lambda>c2.
     res_bind (get_string secret ''Ver'') (\<lambda>ver.
     let c3 = c2\<lparr>ClientVer := ver\<rparr> in
     res_bind (env_info H secret c3) (\<lambda>envInfo.
     let c4 = c3\<lparr>DEVMODE := Index (ENV c3) ''DEV'' = Some 0\<rparr> in
     res_bind (setup_ids H c4) (\<lambda>c5.
     let c6 = data_root c5 in
     res_bind (make_dir H ''data root'' (DATA_ROOT c6)) (\<lambda>_.
     res_bind (setup_keys H secret envInfo (setup_paths H c6)) (\<lambda>c7.
     res_bind (make_dir H ''data'' (DATA_DIR c7)) (\<lambda>_.
     res_bind (env_overrides H config_fields c7) (\<lambda>c8.
     let c9 = setup_debug H c8 in
     res_bind (initZkConfig H secret c9 envInfo) (\<lambda>zk.
     res_bind (setup_etcd secret c9) (\<lambda>c10. Ok (c10, zk)))))))))))))"

end
