(* ===== verification/SetupLaws.thy ===== *)
theory SetupLaws
  imports ConfigSetup ProjConfig
begin

text \<open>
  What \<^verbatim>\<open>Setup\<close> makes of the packed settings, the configuration file, the environment and the output of \<^verbatim>\<open>id\<close>.
\<close>

section \<open>The packed settings\<close>

text \<open>What \<^verbatim>\<open>scripts/create_settings.go\<close> writes into the program: the complement of every byte.\<close>

definition CreateSettingFile :: "bytes \<Rightarrow> string" where
  "CreateSettingFile configstringB =
     ''package config'' @ [CHR 0x0A] @ ''var SecretSettings = []byte{''
     @ Join (map (\<lambda>c. Itoa (int (unat (not (byte_of c))))) configstringB) '','' @ [CHR 0x7D]"

definition pack :: "bytes \<Rightarrow> bytes" where
  "pack b = map (\<lambda>c. char_of_byte (not (byte_of c))) b"

lemma DecodeSetting_pack: "DecodeSetting (pack b) = b"
  by (simp add: DecodeSetting_def pack_def comp_def)

section \<open>The configuration file\<close>

fun set_fields :: "'o host \<Rightarrow> (string \<times> string) list \<Rightarrow> Config \<Rightarrow> Config res" where
  "set_fields H [] c = Ok c"
| "set_fields H ((k, v) # kvs) c = res_bind (set_field H k v c) (set_fields H kvs)"

definition setting_line :: "string \<times> string \<Rightarrow> string" where
  "setting_line kv = fst kv @ ''='' @ snd kv"

definition plain_setting :: "string \<times> string \<Rightarrow> bool" where
  "plain_setting kv \<longleftrightarrow>
     (case kv of (k, v) \<Rightarrow>
        k \<noteq> [] \<and> hd k \<notin> set [CHR '' '', CHR ''#'', CHR 0x0D] \<and> last k \<noteq> CHR '' '' \<and> CHR ''='' \<notin> set k \<and> CHR 0x0A \<notin> set k
        \<and> CHR 0x0A \<notin> set v
        \<and> (v \<noteq> [] \<longrightarrow> hd v \<notin> set [CHR '' '', CHR 0x22] \<and> last v \<notin> set [CHR '' '', CHR 0x22, CHR 0x0D]))"

lemma SplitN2_setting: "CHR ''='' \<notin> set k \<Longrightarrow> SplitN2 (k @ ''='' @ v) ''='' = [k, v]"
proof -
  assume k: "CHR ''='' \<notin> set k"
  have "Index (k @ CHR ''='' # v) ''='' = Some (length k)" using k by (induction k) auto
  then show ?thesis by (simp add: SplitN2_def)
qed

lemma parse_lines_settings:
  assumes "\<forall>kv \<in> set kvs. plain_setting kv"
  shows "parse_lines H f n (map setting_line kvs) c = set_fields H kvs c"
  using assms
proof (induction kvs arbitrary: n c)
  case Nil
  then show ?case by simp
next
  case (Cons kv kvs)
  obtain k v where kv: "kv = (k, v)" by fastforce
  with Cons.prems have p: "plain_setting (k, v)" by simp
  then obtain x xs where k: "k = x # xs" "x \<noteq> CHR ''#''" by (cases k) (auto simp: plain_setting_def)
  have "Index (setting_line (k, v)) ''#'' \<noteq> Some 0" using k by (simp add: Index_0 setting_line_def)
  moreover have "SplitN2 (setting_line (k, v)) ''='' = [k, v]"
    using p SplitN2_setting [of k v] by (simp add: plain_setting_def setting_line_def)
  moreover have "Trim k '' '' = k" using p by (intro Trim_id) (auto simp: plain_setting_def)
  moreover have "Trim v [CHR '' '', CHR 0x22] = v"
    using p Trim_id [of v "[CHR '' '', CHR 0x22]"] by (cases "v = []") (auto simp: plain_setting_def Trim_def TrimLeft_def TrimRight_def)
  moreover have "parse_lines H f m (map setting_line kvs) c' = set_fields H kvs c'" for m c'
    using Cons.IH Cons.prems by simp
  then have "parse_lines H f (Suc n) (map setting_line kvs) = set_fields H kvs" by blast
  ultimately show ?case by (simp add: kv)
qed

lemma setting_line_ends:
  assumes "plain_setting kv"
  shows "setting_line kv \<noteq> []" "hd (setting_line kv) \<notin> set [CHR '' '', CHR 0x0A, CHR 0x0D, CHR 0x0A]"
    "last (setting_line kv) \<notin> set [CHR '' '', CHR 0x0A, CHR 0x0D, CHR 0x0A]" "CHR 0x0A \<notin> set (setting_line kv)"
proof -
  obtain k v where kv: "kv = (k, v)" by fastforce
  obtain x xs where k: "k = x # xs" using assms kv by (cases k) (auto simp: plain_setting_def)
  show "setting_line kv \<noteq> []" "hd (setting_line kv) \<notin> set [CHR '' '', CHR 0x0A, CHR 0x0D, CHR 0x0A]"
    "CHR 0x0A \<notin> set (setting_line kv)" using assms kv k by (auto simp: setting_line_def plain_setting_def)
  have "CHR 0x0A \<notin> set v" using assms kv by (simp add: plain_setting_def)
  then have "v \<noteq> [] \<Longrightarrow> last v \<noteq> CHR 0x0A" using last_in_set by metis
  then show "last (setting_line kv) \<notin> set [CHR '' '', CHR 0x0A, CHR 0x0D, CHR 0x0A]"
    using assms kv by (cases "v = []") (auto simp: setting_line_def plain_setting_def)
qed

subsection \<open>What a line sets\<close>

text \<open>The settings as a table: every field of the struct with its value, in the order of the struct.\<close>

datatype field_value =
    VText string
  | VList "string list"
  | VBool bool
  | VFloat rat
  | VInt int
  | VRows "string list list"

definition fields_of :: "Config \<Rightarrow> (string \<times> field_value) list" where
  "fields_of c =
     [(''ListenAddr'', VText (ListenAddr c)), (''ListenAddrTransi'', VText (ListenAddrTransi c)), (''RunAsBi'', VBool (RunAsBi c)),
      (''InstallDir'', VText (InstallDir c)), (''PidFile'', VText (PidFile c)), (''DATA_ROOT'', VText (DATA_ROOT c)),
      (''DATA_DIR'', VText (DATA_DIR c)), (''LOG_DIR'', VText (LOG_DIR c)), (''CONFIG_DIR'', VList (CONFIG_DIR c)),
      (''DAEMON_USER'', VText (DAEMON_USER c)), (''DAEMON_UID'', VInt (DAEMON_UID c)), (''DAEMON_GID'', VInt (DAEMON_GID c)),
      (''POST_UPDATE_CALLBACKS'', VList (POST_UPDATE_CALLBACKS c)), (''POST_UPDATE_SCRIPTS'', VList (POST_UPDATE_SCRIPTS c)),
      (''ENV'', VText (ENV c)), (''ClientVer'', VText (ClientVer c)), (''ENCRYPT_ENABLE'', VBool (ENCRYPT_ENABLE c)),
      (''ENCRYPT_KEY'', VText (ENCRYPT_KEY c)), (''ENCRYPT_IV'', VText (ENCRYPT_IV c)), (''ENCRYPT_VER'', VFloat (ENCRYPT_VER c)),
      (''DEVMODE'', VBool (DEVMODE c)), (''DEBUG_FILE'', VText (DEBUG_FILE c)),
      (''ETCD_CONNECTION_TIMEOUT'', VInt (ETCD_CONNECTION_TIMEOUT c)),
      (''ETCD_DIAL_KEEP_ALIVE_TIME'', VInt (ETCD_DIAL_KEEP_ALIVE_TIME c)),
      (''ETCD_DIAL_KEEP_ALIVE_TIMEOUT'', VInt (ETCD_DIAL_KEEP_ALIVE_TIMEOUT c)),
      (''ETCD_HEARTBEAT_KEY'', VText (ETCD_HEARTBEAT_KEY c)), (''ETCD_REQUEST_TIMEOUT'', VInt (ETCD_REQUEST_TIMEOUT c)),
      (''ETCD_MIN_RETRY_INTERVAL'', VInt (ETCD_MIN_RETRY_INTERVAL c)),
      (''ETCD_RETRY_INTERVAL_RANGE'', VInt (ETCD_RETRY_INTERVAL_RANGE c)),
      (''ETCD_AUTO_SYNC_INTERVAL'', VInt (ETCD_AUTO_SYNC_INTERVAL c)),
      (''POST_UPDATE_SCRIPTS_RULE'', VText (POST_UPDATE_SCRIPTS_RULE c)), (''PostUpdateRule'', VRows (PostUpdateRule c)),
      (''PPROF_LISTEN'', VText (PPROF_LISTEN c)), (''DOVE_SERVER'', VText (DOVE_SERVER c))]"

text \<open>
  The value that a line \<^verbatim>\<open>name=v\<close> gives to a field that holds \<open>old\<close>: text as it is, a list cut at the commas, the one flag
  and the one number that the file may set; \<open>None\<close> for the fields that it may not set.
\<close>

definition line_value :: "'o host \<Rightarrow> string \<Rightarrow> field_value \<Rightarrow> string \<Rightarrow> field_value option" where
  "line_value H name old v =
     (case old of
        VText _ \<Rightarrow> Some (VText v)
      | VList _ \<Rightarrow> Some (VList (if v = [] then [] else split_on (CHR '','') v))
      | VBool _ \<Rightarrow> if name = ''ENCRYPT_ENABLE'' then Some (VBool (ToLower v = ''1'' \<or> ToLower v = ''true'')) else None
      | VFloat _ \<Rightarrow> (case parse_float H v of Ok q \<Rightarrow> Some (VFloat q) | _ \<Rightarrow> None)
      | _ \<Rightarrow> None)"

text \<open>A line is accepted when its name is no field at all, or a field that it may set to this value.\<close>

definition accepted_line :: "'o host \<Rightarrow> Config \<Rightarrow> string \<times> string \<Rightarrow> bool" where
  "accepted_line H c kv \<longleftrightarrow> (\<forall>x. map_of (fields_of c) (fst kv) = Some x \<longrightarrow> line_value H (fst kv) x (snd kv) \<noteq> None)"

definition after_lines :: "'o host \<Rightarrow> (string \<times> string) list \<Rightarrow> (string \<times> field_value) list \<Rightarrow> (string \<times> field_value) list" where
  "after_lines H kvs fs =
     map (\<lambda>(n, x). (n, case map_of (rev kvs) n of None \<Rightarrow> x | Some v \<Rightarrow> the (line_value H n x v))) fs"

lemma config_field_names: "map fst config_fields = map fst (fields_of c)"
  by (simp add: config_fields_def fields_of_def)

lemma distinct_field_names: "distinct (map fst (fields_of c))"
  by (simp add: fields_of_def)

lemma StringSplit_commas: "StringSplit v '','' = (if v = [] then [] else split_on (CHR '','') v)"
proof (cases "v = []")
  case False
  then have "split_on (CHR '','') v \<noteq> [[]]"
    by (cases v) (auto dest: split_on_single)
  with False show ?thesis by (auto simp: StringSplit_def Split_eq_split_on Let_def length_Suc_conv hd_conv_nth)
qed (simp add: StringSplit_def Split_eq_split_on Let_def)

lemma set_field_unknown: "map_of (fields_of c) n = None \<Longrightarrow> set_field H n v c = Ok c"
proof -
  assume "map_of (fields_of c) n = None"
  then have "map_of config_fields n = None"
    using config_field_names [of c] by (metis map_of_eq_None_iff set_map)
  then show ?thesis by (simp add: set_field_def)
qed

definition put_field :: "string \<Rightarrow> field_value \<Rightarrow> (string \<times> field_value) list \<Rightarrow> (string \<times> field_value) list" where
  "put_field n y = map (\<lambda>(m, z). (m, if m = n then y else z))"

lemma put_field_at:
  assumes "distinct (map fst fs)" and "i < length fs" and "fst (fs ! i) = n"
  shows "put_field n y fs = fs[i := (n, y)]"
proof (rule nth_equalityI)
  fix j assume "j < length (put_field n y fs)"
  then have j: "j < length fs" by (simp add: put_field_def)
  have "fst (fs ! j) = n \<longleftrightarrow> j = i" using assms j by (metis length_map nth_eq_iff_index_eq nth_map)
  with j show "put_field n y fs ! j = fs[i := (n, y)] ! j"
    by (auto simp: put_field_def case_prod_beta nth_list_update)
qed (simp add: put_field_def)

text \<open>Each field by its place: reflection sets what the table has there, and nothing else.\<close>

definition place_law :: "Config \<Rightarrow> nat \<Rightarrow> string \<Rightarrow> field_type \<Rightarrow> field_value \<Rightarrow> bool" where
  "place_law c i n t x =
     (case t of
        FString f \<Rightarrow> n \<noteq> ''ENCRYPT_ENABLE'' \<and> n \<noteq> ''ENCRYPT_VER'' \<and> (case x of VText _ \<Rightarrow> True | _ \<Rightarrow> False)
                     \<and> (\<forall>v. fields_of (f v c) = (fields_of c)[i := (n, VText v)])
      | FStrings f \<Rightarrow> (case x of VList _ \<Rightarrow> True | _ \<Rightarrow> False) \<and> (\<forall>v. fields_of (f v c) = (fields_of c)[i := (n, VList v)])
      | FStringss \<Rightarrow> n \<noteq> ''ENCRYPT_ENABLE'' \<and> n \<noteq> ''ENCRYPT_VER'' \<and> (case x of VRows _ \<Rightarrow> True | _ \<Rightarrow> False)
      | FBool f \<Rightarrow> n \<noteq> ''ENCRYPT_VER'' \<and> (case x of VBool _ \<Rightarrow> True | _ \<Rightarrow> False)
                    \<and> (\<forall>v. fields_of (f v c) = (fields_of c)[i := (n, VBool v)])
      | FFloat f \<Rightarrow> n = ''ENCRYPT_VER'' \<and> (case x of VFloat _ \<Rightarrow> True | _ \<Rightarrow> False)
                    \<and> (\<forall>v. fields_of (f v c) = (fields_of c)[i := (n, VFloat v)])
      | FInt \<Rightarrow> n \<noteq> ''ENCRYPT_ENABLE'' \<and> n \<noteq> ''ENCRYPT_VER'' \<and> (case x of VInt _ \<Rightarrow> True | _ \<Rightarrow> False))"

lemma place_law_all:
  assumes "i < length config_fields"
  shows "place_law c i (fst (config_fields ! i)) (snd (config_fields ! i)) (snd (fields_of c ! i))"
proof -
  have "list_all (\<lambda>i. place_law c i (fst (config_fields ! i)) (snd (config_fields ! i)) (snd (fields_of c ! i))) [0..<34]"
    by (simp add: upt_rec place_law_def config_fields_def fields_of_def eval_nat_numeral)
  moreover have "length config_fields = 34" by (simp add: config_fields_def)
  ultimately show ?thesis using assms by (simp only: list_all_iff set_upt) simp
qed

text \<open>What a line does to a field, by the type of the field.\<close>

lemma set_field_types:
  assumes "map_of config_fields n = Some t" and "place_law c i n t x" and "\<And>y. put_field n y (fields_of c) = (fields_of c)[i := (n, y)]"
  shows "case line_value H n x v of
      Some y \<Rightarrow> \<exists>c'. set_field H n v c = Ok c' \<and> fields_of c' = put_field n y (fields_of c)
    | None \<Rightarrow> if n = ''ENCRYPT_VER'' then \<forall>c'. set_field H n v c \<noteq> Ok c' else \<exists>m. set_field H n v c = Panic m"
proof (cases t)
  case (FString f)
  with assms(2) show ?thesis unfolding assms(3) place_law_def
    by (cases x) (simp_all add: line_value_def set_field_def assms(1))
next
  case (FStrings f)
  with assms(2) show ?thesis unfolding assms(3) place_law_def
    by (cases x) (simp_all add: line_value_def set_field_def assms(1) StringSplit_commas)
next
  case FStringss
  with assms(2) show ?thesis unfolding place_law_def
    by (cases x) (simp_all add: line_value_def set_field_def assms(1))
next
  case (FBool f)
  with assms(1,2) show ?thesis unfolding assms(3) place_law_def
    by (cases x; cases "n = ''ENCRYPT_ENABLE''") (simp_all add: line_value_def set_field_def Let_def)
next
  case (FFloat f)
  with assms(1,2) show ?thesis unfolding assms(3) place_law_def
    by (cases x; cases "parse_float H v") (simp_all add: line_value_def set_field_def)
next
  case FInt
  with assms(2) show ?thesis unfolding place_law_def
    by (cases x) (simp_all add: line_value_def set_field_def assms(1))
qed

lemma set_field_known:
  assumes "map_of (fields_of c) n = Some x"
  shows "case line_value H n x v of
      Some y \<Rightarrow> \<exists>c'. set_field H n v c = Ok c' \<and> fields_of c' = put_field n y (fields_of c)
    | None \<Rightarrow> if n = ''ENCRYPT_VER'' then \<forall>c'. set_field H n v c \<noteq> Ok c' else \<exists>m. set_field H n v c = Panic m"
proof -
  note names = config_field_names [of c] and dist = distinct_field_names [of c]
  have "\<exists>i < length (fields_of c). fields_of c ! i = (n, x)"
    using map_of_SomeD [OF assms] by (simp add: in_set_conv_nth)
  then obtain i where i: "i < length (fields_of c)" "fields_of c ! i = (n, x)" by blast
  have li: "i < length config_fields" using i(1) names by (metis length_map)
  obtain t where t: "config_fields ! i = (n, t)"
    using i li names by (metis nth_map prod.collapse fst_conv)
  have "distinct (map fst config_fields)" using names dist by simp
  then have m: "map_of config_fields n = Some t" using t li by (metis map_of_eq_Some_iff nth_mem)
  show ?thesis
    by (rule set_field_types [OF m, where i = i]) (use place_law_all [OF li, of c] t i(2) put_field_at [OF dist i(1)] in simp_all)
qed

lemma line_value_again: "line_value H n x v = Some y \<Longrightarrow> line_value H n y w = line_value H n x w"
  by (auto simp: line_value_def split: field_value.splits if_splits res.splits)

lemma after_lines_Nil: "after_lines H [] fs = fs"
  by (simp add: after_lines_def case_prod_beta)

lemma after_lines_Cons_unknown: "map_of fs n = None \<Longrightarrow> after_lines H ((n, v) # kvs) fs = after_lines H kvs fs"
proof -
  assume "map_of fs n = None"
  then have "m \<noteq> n" if "(m, x) \<in> set fs" for m x using that by (metis map_of_eq_None_iff image_eqI fst_conv)
  then show ?thesis by (auto simp: after_lines_def map_add_def split: option.split)
qed

lemma after_lines_Cons_known:
  assumes "distinct (map fst fs)" and "map_of fs n = Some x" and "line_value H n x v = Some y"
  shows "after_lines H ((n, v) # kvs) fs = after_lines H kvs (put_field n y fs)"
proof -
  have "z = x" if "(n, z) \<in> set fs" for z using assms(1,2) that by (metis map_of_eq_Some_iff option.inject)
  then show ?thesis using assms(3) line_value_again [OF assms(3)]
    by (auto simp: after_lines_def put_field_def map_add_def case_prod_beta split: option.split)
qed

lemma map_of_put_field: "map_of (put_field n y fs) m = (if m = n then map_option (\<lambda>_. y) (map_of fs m) else map_of fs m)"
  by (induction fs) (auto simp: put_field_def)

lemma accepted_put_field:
  assumes "fields_of c' = put_field n y (fields_of c)" and "map_of (fields_of c) n = Some x" and "line_value H n x v = Some y"
  shows "accepted_line H c' kv \<longleftrightarrow> accepted_line H c kv"
  using assms(2) line_value_again [OF assms(3)] by (auto simp: accepted_line_def assms(1) map_of_put_field)

lemma set_fields_accepted:
  "(\<forall>kv \<in> set kvs. accepted_line H c kv) \<Longrightarrow> \<exists>c'. set_fields H (kvs @ rest) c = set_fields H rest c'
     \<and> fields_of c' = after_lines H kvs (fields_of c) \<and> (\<forall>kv. accepted_line H c' kv \<longleftrightarrow> accepted_line H c kv)"
proof (induction kvs arbitrary: c)
  case Nil
  then show ?case by (auto simp: after_lines_Nil)
next
  case (Cons kv kvs)
  obtain n v where kv: "kv = (n, v)" by fastforce
  show ?case
  proof (cases "map_of (fields_of c) n")
    case None
    then show ?thesis using Cons kv by (simp add: set_field_unknown after_lines_Cons_unknown)
  next
    case (Some x)
    then obtain y where y: "line_value H n x v = Some y" using Cons.prems kv by (auto simp: accepted_line_def)
    have "\<exists>c1. set_field H n v c = Ok c1 \<and> fields_of c1 = put_field n y (fields_of c)"
      using set_field_known [OF Some, of H v] y by simp
    then obtain c1 where c1: "set_field H n v c = Ok c1" "fields_of c1 = put_field n y (fields_of c)" by blast
    note acc = accepted_put_field [OF c1(2) Some y]
    have "\<forall>kv \<in> set kvs. accepted_line H c1 kv" using Cons.prems by (simp add: acc)
    from Cons.IH [OF this] show ?thesis
      using after_lines_Cons_known [OF distinct_field_names Some y] by (simp add: kv c1 acc)
  qed
qed

lemma ParseExtraConfig_set_fields:
  assumes "kvs \<noteq> []" and "\<forall>kv \<in> set kvs. plain_setting kv"
    and "fs_file (host_fs H) (config_path f) = Ok (Join (map setting_line kvs) [CHR 0x0A])"
  shows "ParseExtraConfig H f c = set_fields H kvs c"
proof -
  let ?ls = "map setting_line kvs" and ?blank = "[CHR '' '', CHR 0x0A, CHR 0x0D, CHR 0x0A]"
  note ends = setting_line_ends
  have ne: "?ls \<noteq> []" "\<forall>l \<in> set ?ls. l \<noteq> []" using assms(1,2) ends(1) by auto
  have j: "Join ?ls [CHR 0x0A] \<noteq> []" "last (Join ?ls [CHR 0x0A]) = last (last ?ls)" using last_Join [OF ne] by simp_all
  have "last ?ls \<in> set ?ls" using ne(1) by (rule last_in_set)
  then have "last (last ?ls) \<notin> set ?blank" using assms(2) ends(3) by auto
  moreover have "hd (Join ?ls [CHR 0x0A]) = hd (setting_line (hd kvs))"
    using assms(1,2) ends(1) by (cases kvs) (simp_all add: hd_Join)
  then have "hd (Join ?ls [CHR 0x0A]) \<notin> set ?blank" using assms(1,2) ends(2) [of "hd kvs"] by (cases kvs) auto
  ultimately have "Trim (Join ?ls [CHR 0x0A]) ?blank = Join ?ls [CHR 0x0A]" using j by (intro Trim_id) simp_all
  moreover have "Split (Join ?ls [CHR 0x0A]) [CHR 0x0A] = ?ls"
    using split_on_Join [of ?ls "CHR 0x0A"] ne(1) assms(2) ends(4) by (simp add: Split_eq_split_on)
  ultimately show ?thesis using assms(2,3) parse_lines_settings [OF assms(2)] by (simp add: ParseExtraConfig_def)
qed

text \<open>C31: a configuration file of lines \<^verbatim>\<open>name=value\<close> (a value may hold any characters but a line break, and does not begin or end
  with what is trimmed).  If every line either names no field or a field that the file may set to that value, the settings read are
  the old ones with the named fields, and no others, set to the value of the last line that names them: text as it stands, lists cut
  at the commas, \<^verbatim>\<open>ENCRYPT_ENABLE\<close> to whether the value is 1 or true, \<^verbatim>\<open>ENCRYPT_VER\<close> to the number.  Names that are no field set
  nothing, and no one is told.  The first line that names a field of another type (an integer, the rows of rules, another
  flag) ends in a panic; an \<^verbatim>\<open>ENCRYPT_VER\<close> that is no number ends without settings.\<close>

theorem ParseExtraConfig_lines:
  assumes "kvs \<noteq> []" and "\<forall>kv \<in> set kvs. plain_setting kv"
    and "fs_file (host_fs H) (config_path f) = Ok (Join (map setting_line kvs) [CHR 0x0A])"
  shows "((\<forall>kv \<in> set kvs. accepted_line H c kv) \<longrightarrow>
          (\<exists>c'. ParseExtraConfig H f c = Ok c' \<and> fields_of c' = after_lines H kvs (fields_of c)))
       \<and> (\<forall>kvs1 n v kvs2. kvs = kvs1 @ (n, v) # kvs2 \<and> (\<forall>kv \<in> set kvs1. accepted_line H c kv) \<and> \<not> accepted_line H c (n, v) \<longrightarrow>
          (if n = ''ENCRYPT_VER'' then \<forall>c'. ParseExtraConfig H f c \<noteq> Ok c' else \<exists>m. ParseExtraConfig H f c = Panic m))"
proof (intro conjI allI impI)
  note r = ParseExtraConfig_set_fields [OF assms, of c]
  show "\<exists>c'. ParseExtraConfig H f c = Ok c' \<and> fields_of c' = after_lines H kvs (fields_of c)"
    if "\<forall>kv \<in> set kvs. accepted_line H c kv"
    using set_fields_accepted [OF that, of "[]"] r by auto
  fix kvs1 n v kvs2
  assume "kvs = kvs1 @ (n, v) # kvs2 \<and> (\<forall>kv \<in> set kvs1. accepted_line H c kv) \<and> \<not> accepted_line H c (n, v)"
  then have k: "kvs = kvs1 @ (n, v) # kvs2" "\<forall>kv \<in> set kvs1. accepted_line H c kv" "\<not> accepted_line H c (n, v)" by blast+
  obtain c1 where c1: "ParseExtraConfig H f c = set_fields H ((n, v) # kvs2) c1" "\<not> accepted_line H c1 (n, v)"
    using set_fields_accepted [OF k(2), of "(n, v) # kvs2"] r k by auto
  then obtain x where x: "map_of (fields_of c1) n = Some x" "line_value H n x v = None" by (auto simp: accepted_line_def)
  show "if n = ''ENCRYPT_VER'' then \<forall>c'. ParseExtraConfig H f c \<noteq> Ok c' else \<exists>m. ParseExtraConfig H f c = Panic m"
    using set_field_known [OF x(1), of H v] x(2) c1(1) by (cases "set_field H n v c1") (auto split: if_splits)
qed

definition demo_hosts :: "rat toml" where
  "demo_hosts = TTree [''PROD''] [(''PROD'', TStr ''10.1.2.57:2181'')]"

definition demo_secret :: "rat toml" where
  "demo_secret =
     TTree [''Ver'', ''Zookeeper'', ''Encrypt'', ''Etcd'']
       [(''Ver'', TStr ''0.10.3''),
        (''Zookeeper'', TTree [''root'', ''host''] [(''root'', TStr ''/jumeiconf''), (''host'', demo_hosts)]),
        (''Encrypt'', TTree [''Ver'', ''PROD''] [(''Ver'', TOther 1), (''PROD'', TTree [''key'', ''iv''] [(''key'', TStr ''example-encrypt-key''), (''iv'', TStr ''11111111'')])]),
        (''Etcd'', TTree [''CONNECTION_TIMEOUT'', ''DIAL_KEEP_ALIVE_TIME'', ''DIAL_KEEP_ALIVE_TIMEOUT'', ''HEARTBEAT_KEY'',
                          ''REQUEST_TIMEOUT'', ''MIN_RETRY_INTERVAL'', ''RETRY_INTERVAL_RANGE'', ''AUTO_SYNC_INTERVAL'']
           [(''CONNECTION_TIMEOUT'', TInt 5), (''DIAL_KEEP_ALIVE_TIME'', TInt 10), (''DIAL_KEEP_ALIVE_TIMEOUT'', TInt 3),
            (''HEARTBEAT_KEY'', TStr ''beat''), (''REQUEST_TIMEOUT'', TInt 5), (''MIN_RETRY_INTERVAL'', TInt 1),
            (''RETRY_INTERVAL_RANGE'', TInt 9), (''AUTO_SYNC_INTERVAL'', TInt 60)])]"

definition demo_settings :: "(string \<times> string) list" where
  "demo_settings = [(''ENV'', ''PROD''), (''CONFIG_DIR'', ''/a,/b''), (''DAEMON_USER'', ''www''), (''ENCRYPT_ENABLE'', ''TRUE'')]"

definition demo_host :: "(string \<Rightarrow> string) \<Rightarrow> rat host" where
  "demo_host vars =
     \<lparr>args0 = ''/usr/bin/dc'', getenv = vars, id_cmd = (\<lambda>_. (''uid=48(www) gid=501(staff) groups=501(staff)'', None)), own_ids = (0, 0),
      mkdir_all = (\<lambda>_. None),
      host_fs = \<lparr>fs_dir = (\<lambda>_. Err (ErrText ''none'')),
                 fs_file = (\<lambda>p. if p = ''/etc/DoveClient.conf'' then Ok (Join (map setting_line demo_settings) [CHR 0x0A])
                                else Err (ErrText ''none''))\<rparr>,
      interfaces = Ok [], unix_now = 0, md5_of = (\<lambda>_. []), http_get = (\<lambda>_. Err (ErrText ''refused'')),
      parse_float = (\<lambda>_. Ok 1), toml_load = (\<lambda>t. Ok (if t = [] then demo_secret else demo_hosts)), toml_text = (\<lambda>_. ''hosts''), toml_float = Some,
      host_tables = \<lparr>c_p = (\<lambda>_. 1), c_s0 = (\<lambda>_. 2), c_s1 = (\<lambda>_. 3), c_s2 = (\<lambda>_. 4), c_s3 = (\<lambda>_. 5)\<rparr>,
      spare = 0, SecretSettings = []\<rparr>"

theorem ParseExtraConfig_lines_witness:
  "\<exists>c'. ParseExtraConfig (demo_host (\<lambda>_. [])) [] zero_config = Ok c'
     \<and> map_of (fields_of c') ''CONFIG_DIR'' = Some (VList [''/a'', ''/b'']) \<and> map_of (fields_of c') ''DEVMODE'' = Some (VBool False)"
proof -
  have s: "demo_settings \<noteq> []" "\<forall>kv \<in> set demo_settings. plain_setting kv" by code_simp+
  have "fs_file (host_fs (demo_host (\<lambda>_. []))) (config_path []) = Ok (Join (map setting_line demo_settings) [CHR 0x0A])"
    by (simp add: demo_host_def config_path_def)
  note r = ParseExtraConfig_lines [OF s this, of zero_config, THEN conjunct1]
  have "\<forall>kv \<in> set demo_settings. accepted_line (demo_host (\<lambda>_. [])) zero_config kv"
    by (simp add: demo_settings_def accepted_line_def line_value_def fields_of_def)
  with r obtain c' where c': "ParseExtraConfig (demo_host (\<lambda>_. [])) [] zero_config = Ok c'"
      "fields_of c' = after_lines (demo_host (\<lambda>_. [])) demo_settings (fields_of zero_config)" by blast
  then have "map_of (fields_of c') ''CONFIG_DIR'' = Some (VList [''/a'', ''/b''])" "map_of (fields_of c') ''DEVMODE'' = Some (VBool False)"
    by (simp_all add: after_lines_def demo_settings_def fields_of_def line_value_def zero_config_def)
  with c'(1) show ?thesis by blast
qed

section \<open>The user of the daemon\<close>

lemma fields_from_visible: "list_all visible x \<Longrightarrow> fields_from acc (x @ y) = fields_from (acc @ x) y"
proof (induction x arbitrary: acc)
  case (Cons c x)
  then have "fields_from acc ((c # x) @ y) = fields_from (acc @ [c]) (x @ y)"
    by (subst fields_from.simps) (simp add: space_len_visible)
  with Cons show ?case by simp
qed simp

lemma fields_from_blank: "acc \<noteq> [] \<Longrightarrow> fields_from acc (CHR '' '' # y) = acc # fields_from [] y"
  by (subst fields_from.simps) (simp add: space_len_def ascii_space_def)

lemma fields_from_word: "list_all visible x \<Longrightarrow> x \<noteq> [] \<Longrightarrow> fields_from [] (x @ CHR '' '' # y) = x # fields_from [] y"
  by (simp add: fields_from_visible fields_from_blank)

definition id_text :: "nat \<Rightarrow> string \<Rightarrow> nat \<Rightarrow> string \<Rightarrow> string \<Rightarrow> string" where
  "id_text uid user gid grp others =
     ''uid='' @ nat_digits uid @ ''('' @ user @ '')'' @ '' '' @ ''gid='' @ nat_digits gid @ ''('' @ grp @ '')'' @ '' '' @ others"

lemma digit_visible: "is_digit c \<Longrightarrow> visible c"
  by (simp add: is_digit_def visible_def ascii_space_def Let_def)

lemma digits_visible: "list_all visible (nat_digits n)"
  using nat_digits_digits [of n] by (auto simp: list_all_iff digit_visible)

lemma Fields_id_text:
  assumes "list_all visible user" "list_all visible grp"
  shows "\<exists>fs. Fields (id_text uid user gid grp others)
    = (''uid='' @ nat_digits uid @ ''('' @ user @ '')'') # (''gid='' @ nat_digits gid @ ''('' @ grp @ '')'') # fs"
proof -
  let ?a = "''uid='' @ nat_digits uid @ ''('' @ user @ '')''" and ?b = "''gid='' @ nat_digits gid @ ''('' @ grp @ '')''"
  have v: "list_all visible ?a" "list_all visible ?b"
    using assms digits_visible [of uid] digits_visible [of gid] by (simp_all add: visible_def ascii_space_def)
  have "Fields (?a @ CHR '' '' # ?b @ CHR '' '' # others) = ?a # ?b # fields_from [] others"
    unfolding Fields_def by (subst fields_from_word [OF v(1)], simp, subst fields_from_word [OF v(2)], simp_all)
  then show ?thesis by (simp add: id_text_def)
qed

lemma Index_paren: "Index (''gid='' @ nat_digits n @ CHR ''('' # x) ''('' = Some (4 + length (nat_digits n))"
  "Index (''uid='' @ nat_digits n @ CHR ''('' # x) ''('' = Some (4 + length (nat_digits n))"
proof -
  have "CHR ''('' \<notin> set d \<Longrightarrow> Index (d @ CHR ''('' # x) ''('' = Some (length d)" for d by (induction d) auto
  moreover have "CHR ''('' \<notin> set (nat_digits n)" using nat_digits_digits [of n] by (auto simp: list_all_iff is_digit_def)
  ultimately have "Index (nat_digits n @ CHR ''('' # x) ''('' = Some (length (nat_digits n))" by blast
  then show "Index (''gid='' @ nat_digits n @ CHR ''('' # x) ''('' = Some (4 + length (nat_digits n))"
    "Index (''uid='' @ nat_digits n @ CHR ''('' # x) ''('' = Some (4 + length (nat_digits n))" by simp_all
qed

lemma digits_val_append: "digits_val (a @ b) = digits_val a * 10 ^ length b + digits_val b"
  by (induction b rule: rev_induct) (auto simp: digits_val_def algebra_simps)

lemma Atoi_digits: "list_all is_digit ds \<Longrightarrow> ds \<noteq> [] \<Longrightarrow> digits_val ds < 2 ^ 63 \<Longrightarrow> Atoi ds = Ok (int (digits_val ds))"
  using not_digit_sign by (cases ds) (auto simp: Atoi_def)

lemma Atoi_prefix:
  assumes "k \<noteq> 0" "g < 2 ^ 63"
  shows "Atoi (take k (nat_digits g)) = Ok (int (digits_val (take k (nat_digits g))))"
proof (rule Atoi_digits)
  show "list_all is_digit (take k (nat_digits g))" using nat_digits_digits [of g] by (auto simp: list_all_iff dest: in_set_takeD)
  show "take k (nat_digits g) \<noteq> []" using assms(1) by simp
  have "digits_val (take k (nat_digits g)) * 10 ^ length (drop k (nat_digits g)) \<le> g"
    using digits_val_append [of "take k (nat_digits g)" "drop k (nat_digits g)"] digits_val_nat_digits [of g] by simp
  then have "digits_val (take k (nat_digits g)) \<le> g"
    by (metis le_trans mult.right_neutral mult_le_mono2 one_le_power[of 10 "length (drop k (nat_digits g))"] one_le_numeral)
  with assms(2) show "digits_val (take k (nat_digits g)) < 2 ^ 63" by simp
qed

lemma atoi_value_paren:
  assumes "CHR ''('' \<in> set s"
  shows "atoi_value s = 0"
proof -
  define ds where "ds = (if s \<noteq> [] \<and> (hd s = CHR ''-'' \<or> hd s = CHR ''+'') then tl s else s)"
  have "CHR ''('' \<in> set ds" using assms by (cases s) (auto simp: ds_def)
  moreover have "\<not> is_digit CHR ''(''" by (simp add: is_digit_def)
  ultimately have "\<not> list_all is_digit ds" by (auto simp: list_all_iff)
  then show ?thesis by (simp add: atoi_value_def Atoi_def Let_def flip: ds_def)
qed

lemma LookupOsUidGid_text:
  assumes "id_cmd H name = (id_text uid user gid grp others, None)" and "list_all visible user" "list_all visible grp"
    and "gid < 2 ^ 63" and "length (nat_digits uid) \<le> length (nat_digits gid) + length grp + 2"
  shows "LookupOsUidGid H name =
    Ok (if length (nat_digits uid) \<le> length (nat_digits gid) then int (digits_val (take (length (nat_digits uid)) (nat_digits gid))) else 0, int gid)"
proof -
  let ?u = "nat_digits uid" and ?g = "nat_digits gid" and ?z = "spare H"
  let ?f0 = "''uid='' @ ?u @ ''('' @ user @ '')''" and ?f1 = "''gid='' @ ?g @ ''('' @ grp @ '')''"
  obtain fs where f: "Fields (id_text uid user gid grp others) = ?f0 # ?f1 # fs" using Fields_id_text [OF assms(2,3)] by blast
  have cut: "byte_slice ?z ?f1 4 (Some (4 + k)) = Ok (take k (?g @ ''('' @ grp @ '')''))"
    if "k \<le> length ?g + length grp + 2" for k
  proof -
    have "take k ((?g @ ''('' @ grp @ '')'') @ replicate ?z NUL) = take k (?g @ ''('' @ grp @ '')'')"
      using that by (subst take_append) simp
    with that show ?thesis by (simp add: byte_slice_def eval_nat_numeral del: take_append)
  qed
  have g: "Atoi (take (length ?g) (?g @ ''('' @ grp @ '')'')) = Ok (int gid)"
    using Atoi_prefix [of "length ?g" gid] assms(4) by (simp add: digits_val_nat_digits)
  have u: "atoi_value (take (length ?u) (?g @ ''('' @ grp @ '')'')) =
      (if length ?u \<le> length ?g then int (digits_val (take (length ?u) ?g)) else 0)"
  proof (cases "length ?u \<le> length ?g")
    case True
    then show ?thesis using Atoi_prefix [of "length ?u" gid] assms(4) by (simp add: atoi_value_def)
  next
    case False
    then have "CHR ''('' \<in> set (take (length ?u) (?g @ ''('' @ grp @ '')''))" by (cases "length ?u - length ?g") auto
    with False show ?thesis by (simp add: atoi_value_paren del: take_append)
  qed
  have index: "Index ?f0 ''('' = Some (4 + length ?u)" "Index ?f1 ''('' = Some (4 + length ?g)"
    using Index_paren by simp_all
  have "LookupOsUidGid H name = (case Atoi (take (length ?g) (?g @ ''('' @ grp @ '')'')) of
      Ok i \<Rightarrow> Ok (atoi_value (take (length ?u) (?g @ ''('' @ grp @ '')'')), i)
    | Err e \<Rightarrow> Err (ErrText (''Failed to get gid for['' @ name @ '']: '' @ err_text e)) | Panic m \<Rightarrow> Panic m)"
    unfolding LookupOsUidGid_def assms(1) f
    by (simp only: prod.case option.case f list.case index cut [OF assms(5)] cut [OF le_add1 [THEN le_trans, OF le_add1]] res_bind_simps)
  then show ?thesis unfolding g u by simp
qed

text \<open>The user id that \<^verbatim>\<open>LookupOsUidGid\<close> finds is cut from the group id: of the user id that the command \<^verbatim>\<open>id\<close>
  prints only the number of digits matters.  When it has others digits than the group id the daemon gets the user id 0, without an
  error.  The group id is right.\<close>

theorem LookupOsUidGid_takes_gid:
  assumes "id_cmd H name = (id_text uid user gid grp others, None)" and "list_all visible user" "list_all visible grp"
    and "gid < 2 ^ 63" and "length (nat_digits uid) \<le> length (nat_digits gid) + length grp + 2"
  shows "LookupOsUidGid H name =
    Ok (if length (nat_digits uid) \<le> length (nat_digits gid) then int (digits_val (take (length (nat_digits uid)) (nat_digits gid))) else 0, int gid)"
  using assms by (rule LookupOsUidGid_text)

lemma demo_id: "''uid=48(www) gid=501(staff) groups=501(staff)'' = id_text 48 ''www'' 501 ''staff'' ''groups=501(staff)''"
  by code_simp

lemma demo_id_facts:
  "id_cmd (demo_host vars) ''www'' = (id_text 48 ''www'' 501 ''staff'' ''groups=501(staff)'', None)"
  "list_all visible ''www''" "list_all visible ''staff''" "(501::nat) < 2 ^ 63" "nat_digits 48 = ''48''" "nat_digits 501 = ''501''"
  subgoal by (simp add: demo_host_def demo_id)
  subgoal by code_simp
  subgoal by code_simp
  subgoal by simp
  subgoal by code_simp
  subgoal by code_simp
  done

theorem LookupOsUidGid_takes_gid_witness: "LookupOsUidGid (demo_host (\<lambda>_. [])) ''www'' = Ok (50, 501)"
  using LookupOsUidGid_takes_gid [OF demo_id_facts(1-4)] demo_id_facts(5,6) by (simp add: digits_val_def digit_val_def)

lemma demo_lookup: "LookupOsUidGid (demo_host vars) ''www'' = Ok (50, 501)"
  using LookupOsUidGid_text [OF demo_id_facts(1-4)] demo_id_facts(5,6) by (simp add: digits_val_def digit_val_def)

section \<open>The result of a setup\<close>

lemma wrap_err_Ok: "wrap_err a b r = Ok x \<longleftrightarrow> r = Ok x"
  by (cases r) (simp_all add: wrap_err_def)

lemma Setup_steps:
  assumes "Setup H f c0 = Ok (c, zk)"
  obtains secret c1 c2 ver i c5 c7 c8 where
    "ParseExtraConfig H f c0 = Ok c1" "setup_rule H c1 = Ok c2"
    "setup_ids H (c2\<lparr>ClientVer := ver, DEVMODE := Index (ENV c2) ''DEV'' = Some 0\<rparr>) = Ok c5"
    "setup_keys H secret i (setup_paths H (data_root c5)) = Ok c7"
    "env_overrides H config_fields c7 = Ok c8" "setup_etcd secret (setup_debug H c8) = Ok c"
  using assms by (auto simp: Setup_def res_bind_eq_Ok wrap_err_Ok Let_def)

lemma setup_frames:
  "setup_rule H c = Ok c' \<Longrightarrow> DATA_DIR c' = DATA_DIR c \<and> ENV c' = ENV c \<and> RunAsBi c' = RunAsBi c"
  "setup_ids H c = Ok c' \<Longrightarrow> DATA_DIR c' = DATA_DIR c \<and> ENV c' = ENV c \<and> RunAsBi c' = RunAsBi c"
  "setup_etcd secret c = Ok c' \<Longrightarrow> DATA_DIR c' = DATA_DIR c \<and> DATA_ROOT c' = DATA_ROOT c \<and> ENV c' = ENV c \<and> PidFile c' = PidFile c
     \<and> ENCRYPT_IV c' = ENCRYPT_IV c \<and> ENCRYPT_KEY c' = ENCRYPT_KEY c"
  by (auto simp: setup_rule_def setup_ids_def setup_etcd_def res_bind_eq_Ok split: if_splits)

lemma setup_debug_frame:
  "DATA_DIR (setup_debug H c) = DATA_DIR c" "DATA_ROOT (setup_debug H c) = DATA_ROOT c" "ENV (setup_debug H c) = ENV c"
  "PidFile (setup_debug H c) = PidFile c" "ENCRYPT_IV (setup_debug H c) = ENCRYPT_IV c" "ENCRYPT_KEY (setup_debug H c) = ENCRYPT_KEY c"
  by (simp_all add: setup_debug_def split: option.split)

lemma setup_keys_Ok:
  assumes "setup_keys H secret i c = Ok c'"
  shows "length (ENCRYPT_IV c') = ENC_IV_SIZE \<and> 1 \<le> length (ENCRYPT_KEY c')
    \<and> DATA_DIR c' = DATA_DIR c \<and> DATA_ROOT c' = DATA_ROOT c \<and> ENV c' = ENV c \<and> PidFile c' = PidFile c"
proof -
  let ?same = "\<lambda>x. DATA_DIR x = DATA_DIR c \<and> DATA_ROOT x = DATA_ROOT c \<and> ENV x = ENV c \<and> PidFile x = PidFile c"
  from assms obtain k v where k: "pick_keys secret i c = Ok k" and v: "pick_version H secret k = Ok v" and r: "check_keys v = Ok c'"
    by (auto simp: setup_keys_def res_bind_eq_Ok)
  have "?same k" using k by (auto simp: pick_keys_def res_bind_eq_Ok split: option.splits)
  then have "?same v" using v by (auto simp: pick_version_def res_bind_eq_Ok split: if_splits)
  moreover have "v = c' \<and> length (ENCRYPT_IV v) = ENC_IV_SIZE \<and> \<not> length (ENCRYPT_KEY v) < 1"
    using r unfolding check_keys_def by (metis res.distinct(1) res.inject(1))
  ultimately show ?thesis by (auto simp: Suc_le_eq)
qed

lemma setup_paths_frame:
  "DATA_ROOT (setup_paths H c) = DATA_ROOT c" "ENV (setup_paths H c) = ENV c"
  "DATA_DIR (setup_paths H c) = DATA_ROOT c @ ''/'' @ ENV c @ ''/''"
  "PidFile (setup_paths H c) = DATA_ROOT c @ (if RunAsBi c then ''bi.pid'' else ''pid'')"
  by (simp_all add: setup_paths_def GetBiPidFile_def Let_def)

lemma data_root_frame:
  "DATA_ROOT (data_root c) = TrimRight (DATA_DIR c) ''/'' @ ''/''" "ENV (data_root c) = ENV c" "RunAsBi (data_root c) = RunAsBi c"
  by (simp_all add: data_root_def)

lemma env_overrides_none:
  "\<forall>f \<in> set fs. getenv H (''DOVE_'' @ fst f) = [] \<Longrightarrow> env_overrides H fs c = Ok c"
  by (induction fs) (auto simp: env_override_def split: prod.split)

text \<open>C32: what a setup checks and what it leaves open, without variables of its own in the environment.  A setup that succeeds has an
  initialization vector of the size that the cipher needs and a key that is not empty; it does not check the upper bound of the
  cipher.  Encryption with these settings works exactly if the key has at most 56 bytes: with a longer one the setup succeeds and
  every encryption and decryption fails.  The database of an environment is below a root that depends only on the configured
  directory; the default root that the code names is never used: without a configured directory the root is the root of the file
  system.\<close>

theorem Setup_checked:
  assumes "Setup H f c0 = Ok (c, zk)" and "ParseExtraConfig H f c0 = Ok c1"
    and "\<forall>name \<in> fst ` set config_fields. getenv H (''DOVE_'' @ name) = []"
  shows "length (ENCRYPT_IV c) = ENC_IV_SIZE \<and> 1 \<le> length (ENCRYPT_KEY c)
    \<and> (cfg E = c \<longrightarrow> (keys_ok E \<longleftrightarrow> length (ENCRYPT_KEY c) \<le> 56))
    \<and> (cfg E = c \<and> 56 < length (ENCRYPT_KEY c) \<longrightarrow>
        (\<forall>t p. (\<exists>e. Encrypt t (GetEncryptor E) p = Err e) \<and> (\<exists>e. Decrypt t (GetEncryptor E) p = Err e)))
    \<and> DATA_ROOT c = TrimRight (DATA_DIR c1) ''/'' @ ''/''
    \<and> DATA_DIR c = DATA_ROOT c @ ''/'' @ ENV c1 @ ''/''
    \<and> PidFile c = DATA_ROOT c @ (if RunAsBi c1 then ''bi.pid'' else ''pid'')"
proof -
  from assms(1) obtain secret c2 ver i c5 c7 c8 where
    s: "setup_rule H c1 = Ok c2" "setup_ids H (c2\<lparr>ClientVer := ver, DEVMODE := Index (ENV c2) ''DEV'' = Some 0\<rparr>) = Ok c5"
    "setup_keys H secret i (setup_paths H (data_root c5)) = Ok c7"
    "env_overrides H config_fields c7 = Ok c8" "setup_etcd secret (setup_debug H c8) = Ok c"
    using assms(2) by (elim Setup_steps) simp
  have "c8 = c7" using s(4) env_overrides_none [of config_fields H c7] assms(3) by auto
  note facts = setup_frames(1) [OF s(1)] setup_frames(2) [OF s(2)] setup_keys_Ok [OF s(3)] setup_frames(3) [OF s(5)]
    setup_debug_frame [of H c8] setup_paths_frame [of H "data_root c5"] data_root_frame [of c5] \<open>c8 = c7\<close>
  have k: "length (ENCRYPT_IV c) = ENC_IV_SIZE" "1 \<le> length (ENCRYPT_KEY c)" using facts by simp_all
  have d: "DATA_ROOT c = TrimRight (DATA_DIR c1) ''/'' @ ''/''" "DATA_DIR c = DATA_ROOT c @ ''/'' @ ENV c1 @ ''/''"
    "PidFile c = DATA_ROOT c @ (if RunAsBi c1 then ''bi.pid'' else ''pid'')" using facts by simp_all
  have long: "\<exists>e. Encrypt t (GetEncryptor E) p = Err e" "\<exists>e. Decrypt t (GetEncryptor E) p = Err e"
    if "cfg E = c" "56 < length (ENCRYPT_KEY c)" for t p
    using that by (simp_all add: Encrypt_def Decrypt_def NewCipher_def GetEncryptor_def)
  show ?thesis using k d long by (simp add: keys_ok_def wf_encryptor_def GetEncryptor_def)
qed

lemma demo_ParseExtra:
  "ParseExtraConfig (demo_host vars) [] zero_config
     = Ok (zero_config\<lparr>ENV := ''PROD'', CONFIG_DIR := [''/a'', ''/b''], DAEMON_USER := ''www'', ENCRYPT_ENABLE := True\<rparr>)"
  by code_simp

lemma demo_secret_gets:
  "get_string demo_secret ''Ver'' = Ok ''0.10.3''"
  "Get demo_secret ''Zookeeper.host.PROD'' \<noteq> None"
  "Get demo_secret ''Encrypt.PROD'' \<noteq> None"
  "get_string demo_secret ''Encrypt.PROD.iv'' = Ok ''11111111''"
  "get_string demo_secret ''Encrypt.PROD.key'' = Ok ''example-encrypt-key''"
  "Get demo_secret ''Encrypt.Ver'' = Some (TOther 1)"
  "get_string demo_secret ''Zookeeper.root'' = Ok ''/jumeiconf''"
  by code_simp+

lemma demo_setup_etcd: "\<exists>c'. setup_etcd demo_secret c = Ok c'"
proof -
  have "get_int demo_secret ''Etcd.CONNECTION_TIMEOUT'' = Ok 5" "get_int demo_secret ''Etcd.DIAL_KEEP_ALIVE_TIME'' = Ok 10"
    "get_int demo_secret ''Etcd.DIAL_KEEP_ALIVE_TIMEOUT'' = Ok 3" "get_string demo_secret ''Etcd.HEARTBEAT_KEY'' = Ok ''beat''"
    "get_int demo_secret ''Etcd.REQUEST_TIMEOUT'' = Ok 5" "get_int demo_secret ''Etcd.MIN_RETRY_INTERVAL'' = Ok 1"
    "get_int demo_secret ''Etcd.RETRY_INTERVAL_RANGE'' = Ok 9" "get_int demo_secret ''Etcd.AUTO_SYNC_INTERVAL'' = Ok 60"
    by code_simp+
  then show ?thesis by (simp add: setup_etcd_def)
qed

lemma env_info_packed:
  assumes "DOVE_SERVER c = []" "Get secret (''Zookeeper.host.'' @ ENV c) \<noteq> None" "Get secret (''Encrypt.'' @ ENV c) \<noteq> None"
  shows "env_info H secret c = Ok None"
  using assms by (auto simp: env_info_def initZkConfigByServer_def)

lemma setup_keys_packed:
  assumes "get_string secret (''Encrypt.'' @ ENV c @ ''.iv'') = Ok iv" "get_string secret (''Encrypt.'' @ ENV c @ ''.key'') = Ok key"
    "get_float H secret ''Encrypt.Ver'' = Ok v" "length iv = ENC_IV_SIZE" "key \<noteq> []"
  shows "\<exists>c'. setup_keys H secret None c = Ok c'"
  using assms by (simp add: setup_keys_def pick_keys_def pick_version_def check_keys_def)

lemma demo_zk: "initZkConfig (demo_host vars) demo_secret c None = Ok \<lparr>zk_hosts = [(''PROD'', [''10.1.2.57:2181''])], zk_root = ''/jumeiconf''\<rparr>"
proof -
  have "Get demo_secret ''Zookeeper.host'' = Some demo_hosts" by code_simp
  moreover have "TomlToMap (toml_load (demo_host vars)) (toml_text (demo_host vars) demo_hosts) = Ok [(''PROD'', GVal (TStr ''10.1.2.57:2181''))]"
    by (simp add: TomlToMap_def demo_host_def demo_hosts_def returned_def Keys_def Get_def subvalues_def)
  ultimately show ?thesis using demo_secret_gets(7)
    by (simp add: initZkConfig_def demo_hosts_def Split_eq_split_on)
qed

lemma demo_Setup:
  assumes "\<And>c. \<exists>c'. env_overrides (demo_host vars) config_fields c = Ok c'"
  shows "\<exists>c zk. Setup (demo_host vars) [] zero_config = Ok (c, zk)"
proof -
  let ?H = "demo_host vars"
  define c1 where "c1 = zero_config\<lparr>ENV := ''PROD'', CONFIG_DIR := [''/a'', ''/b''], DAEMON_USER := ''www'', ENCRYPT_ENABLE := True\<rparr>"
  define c4 where "c4 = c1\<lparr>ClientVer := ''0.10.3'', DEVMODE := Index (ENV c1) ''DEV'' = Some 0\<rparr>"
  define c5 where "c5 = c4\<lparr>DAEMON_UID := 50, DAEMON_GID := 501\<rparr>"
  have env: "ENV c1 = ''PROD''" "DOVE_SERVER c1 = []" "DAEMON_USER c1 = ''www''" "POST_UPDATE_SCRIPTS_RULE c1 = []"
    by (simp_all add: c1_def zero_config_def)
  have secret: "ParseSecretSettings ?H = Ok demo_secret" by (simp add: ParseSecretSettings_def demo_host_def DecodeSetting_def)
  have extra: "ParseExtraConfig ?H [] zero_config = Ok c1" using demo_ParseExtra by (simp add: c1_def)
  have rule: "setup_rule ?H c1 = Ok c1" using env by (simp add: setup_rule_def)
  have info: "env_info ?H demo_secret (c1\<lparr>ClientVer := ''0.10.3''\<rparr>) = Ok None"
    using demo_secret_gets(2,3) env by (intro env_info_packed) simp_all
  note demo_lookup
  then have ids: "setup_ids ?H c4 = Ok c5" using env by (simp add: setup_ids_def c4_def c5_def)
  have dirs: "make_dir ?H what d = Ok ()" for what d by (simp add: make_dir_def demo_host_def)
  have "ENV (setup_paths ?H (data_root c5)) = ''PROD''"
    using env by (simp add: setup_paths_frame data_root_frame c5_def c4_def)
  moreover have "get_float ?H demo_secret ''Encrypt.Ver'' = Ok 1" using demo_secret_gets(6) by (simp add: get_float_def demo_host_def)
  ultimately have "\<exists>c7. setup_keys ?H demo_secret None (setup_paths ?H (data_root c5)) = Ok c7"
    using demo_secret_gets(4,5) by (intro setup_keys_packed [where iv = "''11111111''" and key = "''example-encrypt-key''" and v = 1]) (simp_all add: ENC_IV_SIZE_def)
  then obtain c7 where keys: "setup_keys ?H demo_secret None (setup_paths ?H (data_root c5)) = Ok c7" by blast
  obtain c8 where over: "env_overrides ?H config_fields c7 = Ok c8" using assms by blast
  obtain c where "setup_etcd demo_secret (setup_debug ?H c8) = Ok c" using demo_setup_etcd by blast
  then show ?thesis
    using secret extra rule demo_secret_gets(1) info ids dirs keys over demo_zk
    by (simp add: Setup_def wrap_err_def Let_def c4_def)
qed

theorem Setup_checked_witness:
  "\<exists>c zk. Setup (demo_host (\<lambda>_. [])) [] zero_config = Ok (c, zk) \<and> length (ENCRYPT_IV c) = 8
     \<and> DATA_ROOT c = ''/'' \<and> DATA_DIR c = ''//PROD/''"
proof -
  obtain c zk where s: "Setup (demo_host (\<lambda>_. [])) [] zero_config = Ok (c, zk)"
    using demo_Setup [of "\<lambda>_. []"] env_overrides_none [of config_fields "demo_host (\<lambda>_. [])"] by (auto simp: demo_host_def)
  let ?c1 = "zero_config\<lparr>ENV := ''PROD'', CONFIG_DIR := [''/a'', ''/b''], DAEMON_USER := ''www'', ENCRYPT_ENABLE := True\<rparr>"
  have p: "ParseExtraConfig (demo_host (\<lambda>_. [])) [] zero_config = Ok ?c1" by (rule demo_ParseExtra)
  have "length (ENCRYPT_IV c) = ENC_IV_SIZE \<and> DATA_ROOT c = TrimRight (DATA_DIR ?c1) ''/'' @ ''/''
      \<and> DATA_DIR c = DATA_ROOT c @ ''/'' @ ENV ?c1 @ ''/''"
    using Setup_checked [OF s p, where E = "undefined :: (unit, unit, unit) env"] by (simp add: demo_host_def)
  then show ?thesis using s by (simp add: ENC_IV_SIZE_def zero_config_def TrimRight_def)
qed

section \<open>Variables of the environment\<close>

lemma env_overrides_typed:
  assumes "env_overrides H fs c = Ok c'" and "(n, t) \<in> set fs" and "map_of config_fields n = Some t"
    and "getenv H (''DOVE_'' @ n) \<noteq> []"
  shows "(\<exists>f. t = FString f) \<or> (\<exists>f. t = FStrings f) \<or> t = FStringss"
  using assms
proof (induction fs arbitrary: c)
  case (Cons f fs)
  then obtain c1 where c1: "env_override H f c = Ok c1" "env_overrides H fs c1 = Ok c'" by (auto simp: res_bind_eq_Ok)
  show ?case
  proof (cases "f = (n, t)")
    case True
    with c1(1) Cons.prems(3,4) show ?thesis by (cases t) (simp_all add: env_override_def SetConfig_def)
  next
    case False
    with Cons.IH [OF c1(2)] Cons.prems(2-4) show ?thesis by auto
  qed
qed simp

definition keeps_IV :: "field_type \<Rightarrow> bool" where
  "keeps_IV t \<longleftrightarrow>
     (case t of
        FString g \<Rightarrow> (\<forall>v c. ENCRYPT_IV (g v c) = ENCRYPT_IV c)
      | FStrings g \<Rightarrow> (\<forall>v c. ENCRYPT_IV (g v c) = ENCRYPT_IV c)
      | _ \<Rightarrow> True)"

lemma fields_keep_IV: "list_all (\<lambda>(n, t). n = ''ENCRYPT_IV'' \<or> keeps_IV t) config_fields"
  by (simp add: config_fields_def keeps_IV_def)

lemma distinct_fields: "distinct (map fst config_fields)"
  by code_simp

lemma override_keeps_IV:
  assumes "env_override H (n, t) c = Ok c'" and "(n, t) \<in> set config_fields" and "n \<noteq> ''ENCRYPT_IV''"
  shows "ENCRYPT_IV c' = ENCRYPT_IV c"
proof -
  have "map_of config_fields n = Some t" using distinct_fields assms(2) by simp
  moreover have "keeps_IV t" using fields_keep_IV assms(2,3) by (auto simp: list_all_iff)
  ultimately show ?thesis using assms(1)
    by (cases t) (auto simp: env_override_def SetConfig_def keeps_IV_def Let_def split: if_splits)
qed

lemma overrides_keep_IV:
  "env_overrides H fs c = Ok c' \<Longrightarrow> set fs \<subseteq> set config_fields \<Longrightarrow> ''ENCRYPT_IV'' \<notin> fst ` set fs \<Longrightarrow> ENCRYPT_IV c' = ENCRYPT_IV c"
proof (induction fs arbitrary: c)
  case (Cons f fs)
  obtain n t where f: "f = (n, t)" by fastforce
  from Cons.prems(1) obtain c1 where "env_override H f c = Ok c1" "env_overrides H fs c1 = Ok c'" by (auto simp: res_bind_eq_Ok)
  with Cons override_keeps_IV [of H n t c c1] f show ?case by auto
qed simp

lemma overrides_IV:
  assumes "env_overrides H fs c = Ok c'" and "set fs \<subseteq> set config_fields" and "distinct (map fst fs)"
    and "''ENCRYPT_IV'' \<in> fst ` set fs" and "getenv H ''DOVE_ENCRYPT_IV'' \<noteq> []"
  shows "ENCRYPT_IV c' = getenv H ''DOVE_ENCRYPT_IV''"
  using assms
proof (induction fs arbitrary: c)
  case (Cons f fs)
  from Cons.prems(1) obtain c1 where c1: "env_override H f c = Ok c1" "env_overrides H fs c1 = Ok c'" by (auto simp: res_bind_eq_Ok)
  show ?case
  proof (cases "fst f = ''ENCRYPT_IV''")
    case True
    then obtain t where t: "f = (''ENCRYPT_IV'', t)" by (cases f) simp
    have "map_of config_fields ''ENCRYPT_IV'' = Some (FString (\<lambda>v. ENCRYPT_IV_update (\<lambda>_. v)))" by (simp add: config_fields_def)
    moreover have "map_of config_fields ''ENCRYPT_IV'' = Some t" using distinct_fields Cons.prems(2) t by simp
    ultimately have "ENCRYPT_IV c1 = getenv H ''DOVE_ENCRYPT_IV''"
      using c1(1) Cons.prems(5) t by (auto simp: env_override_def SetConfig_def Let_def)
    moreover have "ENCRYPT_IV c' = ENCRYPT_IV c1" using overrides_keep_IV [OF c1(2)] Cons.prems(2,3) True by auto
    ultimately show ?thesis by simp
  next
    case False
    with Cons.IH [OF c1(2)] Cons.prems(2-5) show ?thesis by auto
  qed
qed simp

text \<open>The variables of the environment are applied after the checks.  A setup that succeeds has no variable for a field that is
  not a string or a list of strings (such a variable makes it panic, the boolean and the numeric settings cannot be set
  that way); and a variable for the initialization vector is taken as it is, whatever its length.\<close>

theorem Setup_variables:
  fixes H :: "'o host"
  assumes "Setup H f c0 = Ok (c, zk)"
  shows "(\<forall>(n, t) \<in> set config_fields. getenv H (''DOVE_'' @ n) \<noteq> [] \<longrightarrow>
            (\<exists>g. t = FString g) \<or> (\<exists>g. t = FStrings g) \<or> t = FStringss)
    \<and> (getenv H ''DOVE_ENCRYPT_IV'' \<noteq> [] \<longrightarrow> ENCRYPT_IV c = getenv H ''DOVE_ENCRYPT_IV'')"
proof -
  from assms obtain secret :: "'o toml" and c7 c8 where o: "env_overrides H config_fields c7 = Ok c8" and e: "setup_etcd secret (setup_debug H c8) = Ok c"
    by (elim Setup_steps) (rule that, assumption+)
  have "(\<exists>g. t = FString g) \<or> (\<exists>g. t = FStrings g) \<or> t = FStringss"
    if "(n, t) \<in> set config_fields" "getenv H (''DOVE_'' @ n) \<noteq> []" for n t
    using env_overrides_typed [OF o that(1) _ that(2)] distinct_fields that(1) by simp
  moreover have "getenv H ''DOVE_ENCRYPT_IV'' \<noteq> [] \<longrightarrow> ENCRYPT_IV c8 = getenv H ''DOVE_ENCRYPT_IV''"
    using overrides_IV [OF o _ distinct_fields] by (simp add: config_fields_def)
  moreover have "ENCRYPT_IV c = ENCRYPT_IV c8" using setup_frames(3) [OF e] setup_debug_frame(5) [of H c8] by simp
  ultimately show ?thesis by auto
qed

definition demo_vars :: "string \<Rightarrow> string" where
  "demo_vars k = (if k = ''DOVE_ENCRYPT_IV'' then ''x'' else [])"

theorem Setup_variables_witness:
  "\<exists>c zk. Setup (demo_host demo_vars) [] zero_config = Ok (c, zk) \<and> ENCRYPT_IV c = ''x''"
proof -
  have "env_overrides (demo_host demo_vars) config_fields c = Ok (c\<lparr>ENCRYPT_IV := ''x''\<rparr>)" for c
    by (simp add: config_fields_def env_override_def demo_host_def demo_vars_def SetConfig_def)
  then obtain c zk where s: "Setup (demo_host demo_vars) [] zero_config = Ok (c, zk)" using demo_Setup by blast
  then have "ENCRYPT_IV c = ''x''" using Setup_variables [OF s] by (simp add: demo_host_def demo_vars_def)
  with s show ?thesis by blast
qed

end
