(* ===== verification/LocalWatcher.thy ===== *)
theory LocalWatcher
  imports ConfigSchema DebugConfig GoPath
begin

text \<open>
  \<^verbatim>\<open>configwatcher/local_watcher.go\<close>: the directories with schema and debug files are watched with inotify; a
  directory that cannot be watched waits in \<^verbatim>\<open>failedDirs\<close> for the next round of retries.

  A round holds the lock of the list, so between rounds the list is a plain list; during a round it is a window of
  the array over which the loop ranges.
\<close>

definition INTERVAL_RESTART_LOCAL_FILE_WATCHER :: nat where
  "INTERVAL_RESTART_LOCAL_FILE_WATCHER = 2"

definition appendFaildDirs :: "string \<Rightarrow> string list \<Rightarrow> string list" where
  "appendFaildDirs fDir failedDirs = (if InArrayString failedDirs fDir = False then failedDirs @ [fDir] else failedDirs)"

section \<open>A round of retries\<close>

text \<open>
  \<open>can_add d\<close>: the directory exists and the watcher accepts it.  The loop ranges over the window the list had at the start,
  the index refers to the window the list has now.  The result is the array, the window and the directories added.
\<close>

definition retry_one :: "(string \<Rightarrow> bool) \<Rightarrow> nat \<Rightarrow> string list \<times> slice \<times> string list \<Rightarrow> string list \<times> slice \<times> string list" where
  "retry_one can_add n st =
     (case st of (arr, failedDirs, added) \<Rightarrow>
        let fDir = arr ! n in
        if can_add fDir then
          (case DelInArrayString arr failedDirs n of (arr', failedDirs') \<Rightarrow> (arr', failedDirs', added @ [fDir]))
        else st)"

definition retryAddFaildDirs :: "(string \<Rightarrow> bool) \<Rightarrow> string list \<Rightarrow> string list \<times> string list" where
  "retryAddFaildDirs can_add failedDirs =
     (case fold (retry_one can_add) [0..<length failedDirs] (failedDirs, (0, length failedDirs), []) of
        (arr, s, added) \<Rightarrow> (slice_list arr s, added))"

text \<open>The updates that a round starts: the schema files of the directories added.\<close>

definition retry_updates :: "(bytes \<Rightarrow> string) \<Rightarrow> fs \<Rightarrow> string list \<Rightarrow> string list" where
  "retry_updates md5 f added = concat (map (\<lambda>d. map sf_Path (GetSchemaFilesByDir md5 f d)) added)"

section \<open>Events\<close>

text \<open>The operation of an event is a set of bits; the code compares it with single bits.\<close>

type_synonym fs_op = "32 word"

definition op_Create :: fs_op where "op_Create = 1"
definition op_Write :: fs_op where "op_Write = 2"
definition op_Rename :: fs_op where "op_Rename = 8"

datatype watch_action =
    RemoveWatch string
  | UpdateByRoot string bool
  | UpdateBySchemafile string

definition is_template :: "string \<Rightarrow> bool" where
  "is_template name \<longleftrightarrow> HasSuffix name ''.php'' \<or> HasSuffix name ''.toml''"

abbreviation wrong_slash :: string where
  "wrong_slash \<equiv> [CHR 0x5C, CHR ''/'']"

definition deleted_dirs :: "Config \<Rightarrow> string \<Rightarrow> string list" where
  "deleted_dirs c name =
     map (\<lambda>_. path_Dir name)
       (filter (\<lambda>dir. TrimSuffix dir wrong_slash = TrimSuffix (path_Dir name) wrong_slash) (CONFIG_DIR c))"

text \<open>One event: the actions, and the list of directories to retry.  \<open>exists_now\<close>: the file of the event still exists.\<close>

definition loopWatch_event ::
    "Config \<Rightarrow> (string \<Rightarrow> bool) \<Rightarrow> string \<Rightarrow> fs_op \<Rightarrow> string list \<Rightarrow> watch_action list \<times> string list" where
  "loopWatch_event c exists_now name opn failedDirs =
     (let fDirs = (if \<not> exists_now name \<and> is_template name then deleted_dirs c name else []);
          acts = map RemoveWatch fDirs;
          failed = fold appendFaildDirs fDirs failedDirs
      in if DEVMODE c \<and> path_Base name = debugFilename then
           (acts @ (if opn = op_Create \<or> opn = op_Write \<or> opn = op_Rename then [UpdateByRoot ''*'' True] else []), failed)
         else if IsSchemaFile name then
           (acts @ (if opn = op_Create \<or> opn = op_Write then [UpdateBySchemafile name] else []), failed)
         else (acts, failed))"

text \<open>The start: every configured directory is added or put on the list.\<close>

definition watchDebugOrSchemafiles :: "(string \<Rightarrow> bool) \<Rightarrow> Config \<Rightarrow> string list \<times> string list" where
  "watchDebugOrSchemafiles can_add c =
     (filter can_add (CONFIG_DIR c), fold appendFaildDirs (filter (\<lambda>d. \<not> can_add d) (CONFIG_DIR c)) [])"

section \<open>What a round does\<close>

lemma retry_none:
  "\<forall>n \<in> set ns. \<not> can_add (arr ! n) \<Longrightarrow> fold (retry_one can_add) ns (arr, s, added) = (arr, s, added)"
  by (induction ns) (auto simp: retry_one_def)

text \<open>A round of retries in which one directory can be watched again adds that directory and keeps all others on the list, in their
  order.  (Each directory is on the list once.)\<close>

theorem retry_one_directory:
  assumes "distinct (xs @ d # ys)" and "\<And>x. x \<in> set (xs @ d # ys) \<Longrightarrow> can_add x \<longleftrightarrow> x = d"
  shows "retryAddFaildDirs can_add (xs @ d # ys) = (xs @ ys, [d])"
proof -
  let ?l = "xs @ d # ys" and ?i = "length xs"
  have split: "[0..<length ?l] = [0..<?i] @ [?i] @ [Suc ?i..<length ?l]"
    by (metis append_Cons append_Nil length_Cons length_append less_add_same_cancel1 upt_add_eq_append upt_conv_Cons le_add1 zero_le zero_less_Suc)
  have before_d: "\<forall>n \<in> set [0..<?i]. \<not> can_add (?l ! n)"
  proof
    fix n assume "n \<in> set [0..<?i]"
    then have "?l ! n \<in> set xs" by (simp add: nth_append)
    then show "\<not> can_add (?l ! n)" using assms by auto
  qed
  define arr where "arr = fst (DelInArrayString ?l (0, length ?l) ?i)"
  define s where "s = snd (DelInArrayString ?l (0, length ?l) ?i)"
  have wf: "slice_in ?l (0, length ?l)" by (simp add: slice_in_def)
  have sl: "slice_list arr s = xs @ ys"
    using slice_list_DelInArrayString [OF wf, of ?i] by (simp add: arr_def s_def slice_list_def)
  have "ys \<noteq> [] \<Longrightarrow> drop (length ys - Suc 0) ys = [ys ! (length ys - Suc 0)]"
    by (cases ys rule: rev_cases) (simp_all add: nth_append)
  then have "arr = (if xs = [] then ?l else xs @ ys @ [last ?l])"
    by (auto simp: arr_def DelInArrayString_def Let_def drop_Cons' last_conv_nth nth_append take_Cons')
  then have after_ys: "arr ! n \<in> set ys" if "Suc ?i \<le> n" "n < length ?l" for n
    using that by (cases "n - ?i - length ys") (auto simp: nth_append nth_Cons' last_append)
  have "\<not> can_add y" if "y \<in> set ys" for y using assms that by auto
  then have after_d: "\<forall>n \<in> set [Suc ?i..<length ?l]. \<not> can_add (arr ! n)" using after_ys by auto
  show ?thesis
    unfolding retryAddFaildDirs_def split fold_append
    using retry_none [OF before_d] retry_none [OF after_d] assms(2) [of d] sl
    by (simp add: retry_one_def arr_def s_def case_prod_beta)
qed

theorem retry_one_directory_witness:
  "retryAddFaildDirs (\<lambda>d. d = ''/b'') [''/a'', ''/b'', ''/c''] = ([''/a'', ''/c''], [''/b''])"
  using retry_one_directory [of "[''/a'']" "''/b''" "[''/c'']" "\<lambda>d. d = ''/b''"] by simp

fun retry_rounds :: "(nat \<Rightarrow> string \<Rightarrow> bool) \<Rightarrow> nat \<Rightarrow> string list \<Rightarrow> string list" where
  "retry_rounds can_add 0 failedDirs = []"
| "retry_rounds can_add (Suc k) failedDirs =
     (case retryAddFaildDirs (can_add 0) failedDirs of
        (failed', added) \<Rightarrow> added @ retry_rounds (\<lambda>i. can_add (Suc i)) k failed')"

lemma set_DelInArrayString: "set (fst (DelInArrayString arr s n)) \<subseteq> set arr"
  by (auto simp: DelInArrayString_def Let_def split: if_splits elim!: in_set_takeD in_set_dropD [THEN in_set_takeD]
      intro: in_set_takeD in_set_dropD)

lemma retry_fold_subset:
  assumes "set arr \<subseteq> A" and "set added \<subseteq> B" and "A \<subseteq> B" and "slice_in arr s" and "\<forall>n \<in> set ns. n < length arr"
  shows "case fold (retry_one p) ns (arr, s, added) of (arr', s', added') \<Rightarrow> set (slice_list arr' s') \<subseteq> A \<and> set added' \<subseteq> B"
  using assms
proof (induction ns arbitrary: arr s added)
  case Nil
  then show ?case
    by (auto simp: slice_list_def dest!: in_set_takeD [THEN in_set_dropD])
next
  case (Cons n ns)
  obtain arr1 s1 where d: "DelInArrayString arr s n = (arr1, s1)" by (cases "DelInArrayString arr s n")
  have a1: "set arr1 \<subseteq> A" "slice_in arr1 s1" "length arr1 = length arr" "arr ! n \<in> B"
    using set_DelInArrayString [of arr s n] slice_in_DelInArrayString [OF Cons.prems(4), of n] d Cons.prems by (auto dest: nth_mem)
  show ?case
  proof (cases "p (arr ! n)")
    case True
    then show ?thesis using Cons.IH [of arr1 "added @ [arr ! n]" s1] Cons.prems a1 d by (simp add: retry_one_def)
  next
    case False
    then show ?thesis using Cons.IH [of arr added s] Cons.prems by (simp add: retry_one_def)
  qed
qed

lemma retry_subset:
  "set (fst (retryAddFaildDirs p l)) \<subseteq> set l \<and> set (snd (retryAddFaildDirs p l)) \<subseteq> set l"
  using retry_fold_subset [of l "set l" "[]" "set l" "(0, length l)" "[0..<length l]" p]
  by (auto simp: retryAddFaildDirs_def slice_in_def split: prod.splits)

lemma retry_rounds_subset: "set (retry_rounds p k l) \<subseteq> set l"
proof (induction k arbitrary: p l)
  case (Suc k)
  obtain f a where r: "retryAddFaildDirs (p 0) l = (f, a)" by fastforce
  then show ?case using Suc.IH [of "\<lambda>i. p (Suc i)" f] retry_subset [of "p 0" l] by auto
qed simp

text \<open>While the window starts at the array, what a deletion takes off the list is the directory just added.\<close>

lemma retry_fold_keeps:
  assumes "0 \<notin> set ns" and "slice_in arr s" and "fst s = 0" and "A \<subseteq> set (slice_list arr s) \<union> set added"
  shows "case fold (retry_one p) ns (arr, s, added) of (arr', s', added') \<Rightarrow> A \<subseteq> set (slice_list arr' s') \<union> set added'"
  using assms
proof (induction ns arbitrary: arr s added)
  case (Cons n ns)
  define arr1 where "arr1 = fst (DelInArrayString arr s n)"
  define s1 where "s1 = snd (DelInArrayString arr s n)"
  have n: "n \<noteq> 0" using Cons.prems(1) by (metis list.set_intros(1))
  have ok: "slice_in arr1 s1" "fst s1 = 0"
    using slice_in_DelInArrayString [OF Cons.prems(2), of n] Cons.prems(3) n by (simp_all add: arr1_def s1_def DelInArrayString_def Let_def)
  have keeps: "set (slice_list arr s) \<subseteq> insert (arr ! n) (set (slice_list arr1 s1))"
  proof (cases "n < snd s")
    case True
    then have "n < length (slice_list arr s)" and "slice_list arr s ! n = arr ! n"
      using Cons.prems(2,3) by (simp_all add: slice_list_def slice_in_def)
    then have "slice_list arr s = take n (slice_list arr s) @ arr ! n # drop (Suc n) (slice_list arr s)"
      by (metis id_take_nth_drop)
    moreover have "slice_list arr1 s1 = take n (slice_list arr s) @ drop (Suc n) (slice_list arr s)"
      unfolding arr1_def s1_def by (rule slice_list_DelInArrayString [OF Cons.prems(2) True])
    ultimately show ?thesis by (metis list.set(2) set_append Un_insert_right subset_refl)
  next
    case False
    then show ?thesis by (auto simp: arr1_def s1_def DelInArrayString_def Let_def)
  qed
  have rest: "0 \<notin> set ns" using Cons.prems(1) by simp
  show ?case
  proof (cases "p (arr ! n)")
    case True
    have "A \<subseteq> set (slice_list arr1 s1) \<union> set (added @ [arr ! n])" using Cons.prems(4) keeps by auto
    then show ?thesis using Cons.IH [OF rest ok] True
      by (simp add: retry_one_def arr1_def s1_def case_prod_beta)
  next
    case False
    then show ?thesis using Cons.IH [OF rest Cons.prems(2-4)] by (simp add: retry_one_def)
  qed
qed simp

lemma retry_keeps:
  assumes "\<not> p a"
  shows "set (a # xs) \<subseteq> set (fst (retryAddFaildDirs p (a # xs))) \<union> set (snd (retryAddFaildDirs p (a # xs)))"
proof -
  let ?ns = "[1..<length (a # xs)]" and ?st = "(a # xs, (0, length (a # xs)), [])"
  have idx: "[0..<length (a # xs)] = 0 # ?ns" by (simp add: upt_conv_Cons del: upt_Suc)
  have "retry_one p 0 ?st = ?st" using assms by (simp add: retry_one_def)
  then have r: "retryAddFaildDirs p (a # xs) = (case fold (retry_one p) ?ns ?st of (arr, s, added) \<Rightarrow> (slice_list arr s, added))"
    unfolding retryAddFaildDirs_def idx by simp
  have "case fold (retry_one p) ?ns ?st of (arr', s', added') \<Rightarrow> set (a # xs) \<subseteq> set (slice_list arr' s') \<union> set added'"
    by (rule retry_fold_keeps) (simp_all add: slice_in_def slice_list_def del: upt_Suc)
  then show ?thesis unfolding r by (auto split: prod.splits)
qed

text \<open>Once the first directory has been added the window starts one behind the array, and the next deletion is one off.\<close>

lemma retry_loses:
  assumes "distinct (a # xs @ b # c # ys)" and "p a" and "p b" and "\<forall>x \<in> set xs. \<not> p x" and "\<not> p c \<or> ys \<noteq> []"
  shows "c \<notin> set (fst (retryAddFaildDirs p (a # xs @ b # c # ys))) \<and> c \<notin> set (snd (retryAddFaildDirs p (a # xs @ b # c # ys)))"
proof -
  let ?l = "a # xs @ b # c # ys" and ?j = "Suc (length xs)"
  have idx: "[0..<length ?l] = 0 # [1..<?j] @ ?j # [Suc ?j..<length ?l]"
    using upt_add_eq_append [of 1 ?j "Suc (Suc (length ys))"] by (simp add: upt_rec)
  have "?l ! n \<in> set xs" if "n \<in> set [1..<?j]" for n using that by (auto simp: nth_append nth_Cons')
  then have skip: "\<forall>n \<in> set [1..<?j]. \<not> p (?l ! n)" using assms(4) by blast
  have at_b: "?l ! ?j = b" by (simp add: nth_append)
  define s where "s = (1 :: nat, length xs + 1 + length ys)"
  define arr where "arr = a # xs @ b # ys @ [last (c # ys)]"
  have shift: "drop (length ys) (c # ys) = [last (c # ys)]"
    by (cases ys rule: rev_cases) simp_all
  have del: "DelInArrayString ?l (1, length xs + 2 + length ys) ?j = (arr, s)"
    using shift by (simp add: DelInArrayString_def Let_def arr_def s_def)
  have fold: "fold (retry_one p) [0..<length ?l] (?l, (0, length ?l), []) = fold (retry_one p) [Suc ?j..<length ?l] (arr, s, [a, b])"
    unfolding idx using assms(2,3) retry_none [OF skip] at_b del
    by (simp add: retry_one_def DelInArrayString_def)
  have "c \<notin> set (slice_list arr' s') \<and> c \<notin> set added'"
    if "fold (retry_one p) [Suc ?j..<length ?l] (arr, s, [a, b]) = (arr', s', added')" for arr' s' added'
  proof (cases "ys = []")
    case True
    then show ?thesis using that assms by (auto simp: arr_def s_def retry_one_def slice_list_def nth_append)
  next
    case False
    have sub: "slice_in arr s" "set [a, b] \<subseteq> set arr" "\<forall>n \<in> set [Suc ?j..<length ?l]. n < length arr"
      by (auto simp: arr_def s_def slice_in_def)
    have "c \<notin> set arr" using False assms(1) by (auto simp: arr_def dest: last_in_set)
    then show ?thesis
      using retry_fold_subset [of arr "set arr" "[a, b]" "set arr" s "[Suc ?j..<length ?l]" p] sub that by auto
  qed
  then show ?thesis unfolding retryAddFaildDirs_def fold by (auto split: prod.split)
qed

text \<open>C33: a round of retries with several directories that can be watched again.  While the first of the list cannot be watched, the
  round loses nothing: every directory is added or stays on the list.  When the first can be watched, the list starts one behind the
  array over which the loop ranges, so the index of the next directory that can be watched is one too large and the directory directly
  behind it is taken off the list instead.  That one is not watched by this round and by no later one (unless it is the last of the
  list and can be watched itself); an event for it would have to put it back.\<close>

theorem retry_loses_directory:
  "(\<not> p 0 a \<longrightarrow> set (a # xs) \<subseteq> set (fst (retryAddFaildDirs (p 0) (a # xs))) \<union> set (snd (retryAddFaildDirs (p 0) (a # xs))))
   \<and> (distinct (a # xs @ b # c # ys) \<and> p 0 a \<and> p 0 b \<and> (\<forall>x \<in> set xs. \<not> p 0 x) \<and> (\<not> p 0 c \<or> ys \<noteq> []) \<longrightarrow>
      c \<notin> set (fst (retryAddFaildDirs (p 0) (a # xs @ b # c # ys))) \<and> c \<notin> set (retry_rounds p k (a # xs @ b # c # ys)))"
proof (intro conjI impI)
  assume "\<not> p 0 a"
  then show "set (a # xs) \<subseteq> set (fst (retryAddFaildDirs (p 0) (a # xs))) \<union> set (snd (retryAddFaildDirs (p 0) (a # xs)))"
    by (rule retry_keeps)
next
  let ?l = "a # xs @ b # c # ys"
  assume "distinct ?l \<and> p 0 a \<and> p 0 b \<and> (\<forall>x \<in> set xs. \<not> p 0 x) \<and> (\<not> p 0 c \<or> ys \<noteq> [])"
  then have l: "c \<notin> set (fst (retryAddFaildDirs (p 0) ?l))" "c \<notin> set (snd (retryAddFaildDirs (p 0) ?l))"
    using retry_loses [of a xs b c ys "p 0"] by simp_all
  then show "c \<notin> set (fst (retryAddFaildDirs (p 0) ?l))" by simp
  show "c \<notin> set (retry_rounds p k ?l)"
    using l retry_rounds_subset by (cases k) (auto simp: case_prod_beta)
qed

theorem retry_loses_directory_witness:
  "''/c'' \<notin> set (retry_rounds (\<lambda>i d. d \<notin> {''/c'', ''/x''} \<or> i > 0) 9 [''/a'', ''/x'', ''/b'', ''/c'', ''/d''])
   \<and> {''/x'', ''/a'', ''/b'', ''/c''} \<subseteq> set (fst (retryAddFaildDirs (\<lambda>d. d = ''/a'' \<or> d = ''/b'') [''/x'', ''/a'', ''/b'', ''/c'']))
        \<union> set (snd (retryAddFaildDirs (\<lambda>d. d = ''/a'' \<or> d = ''/b'') [''/x'', ''/a'', ''/b'', ''/c'']))"
  using retry_loses_directory [of "\<lambda>i d. d \<notin> {''/c'', ''/x''} \<or> i > 0" "''/a''" "[''/x'']" "''/b''" "''/c''" "[''/d'']" 9]
    retry_loses_directory [of "\<lambda>_ d. d = ''/a'' \<or> d = ''/b''" "''/x''" "[''/a'', ''/b'', ''/c'']" "[]" "[]" "[]" 0]
  by simp

section \<open>Events\<close>

lemma fold_appendFaildDirs: "set (fold appendFaildDirs ds l) = set ds \<union> set l"
  by (induction ds arbitrary: l) (auto simp: appendFaildDirs_def)

lemma TrimSuffix_eq:
  assumes "last D \<noteq> slash" and "D \<noteq> []"
  shows "TrimSuffix D wrong_slash = D"
    and "TrimSuffix dir wrong_slash = D \<longleftrightarrow> dir = D \<or> dir = D @ wrong_slash"
proof -
  have no: "\<not> suffix wrong_slash D" using assms(1) by (auto simp: suffix_def)
  then show "TrimSuffix D wrong_slash = D" by (simp add: TrimSuffix_def)
  show "TrimSuffix dir wrong_slash = D \<longleftrightarrow> dir = D \<or> dir = D @ wrong_slash"
  proof (cases "suffix wrong_slash dir")
    case True
    then obtain d where d: "dir = d @ wrong_slash" by (auto elim: suffixE)
    then show ?thesis using True no by (auto simp: TrimSuffix_def)
  next
    case False
    then have "dir \<noteq> D @ wrong_slash" by (metis suffix_def)
    then show ?thesis using False by (simp add: TrimSuffix_def)
  qed
qed

text \<open>When a template in the directory \<open>D\<close> has been deleted, \<open>D\<close> is watched anew exactly if it was waiting for that already, or
  if it is configured just so, or with a backslash and a slash behind it.  A directory that is configured with a slash at its
  end, which \<^verbatim>\<open>TrimSuffix\<close> is meant to cut off, is not watched again after it was deleted and created.\<close>

theorem deleted_directory_retried:
  assumes "path_Clean D = D" and "D \<noteq> ''/''" and "slash \<notin> set f" and "is_template (D @ slash # f)"
    and "\<not> exists_now (D @ slash # f)"
  shows "D \<in> set (snd (loopWatch_event c exists_now (D @ slash # f) opn failedDirs))
    \<longleftrightarrow> D \<in> set failedDirs \<or> D \<in> set (CONFIG_DIR c) \<or> D @ wrong_slash \<in> set (CONFIG_DIR c)"
proof -
  have D: "D \<noteq> []" "last D \<noteq> slash" using path_Clean_last [of D] assms(1,2) by simp_all
  have dir: "path_Dir (D @ slash # f) = D" using path_Dir_file [OF assms(3) D(1) assms(1)] .
  have "D \<in> set (deleted_dirs c (D @ slash # f)) \<longleftrightarrow> (\<exists>dir \<in> set (CONFIG_DIR c). TrimSuffix dir wrong_slash = D)"
    unfolding deleted_dirs_def dir TrimSuffix_eq(1) [OF D(2,1)] by (simp add: image_iff Bex_def)
  also have "\<dots> \<longleftrightarrow> D \<in> set (CONFIG_DIR c) \<or> D @ wrong_slash \<in> set (CONFIG_DIR c)"
    unfolding TrimSuffix_eq(2) [OF D(2,1)] by (rule iffI; elim bexE disjE) (simp_all, blast+)
  finally have del: "D \<in> set (deleted_dirs c (D @ slash # f)) \<longleftrightarrow> D \<in> set (CONFIG_DIR c) \<or> D @ wrong_slash \<in> set (CONFIG_DIR c)" .
  have "snd (loopWatch_event c exists_now (D @ slash # f) opn failedDirs)
      = fold appendFaildDirs (deleted_dirs c (D @ slash # f)) failedDirs"
    using assms(4,5) by (simp add: loopWatch_event_def Let_def)
  then show ?thesis unfolding fold_appendFaildDirs Un_iff del by (simp add: fold_appendFaildDirs del disj_ac)
qed

theorem deleted_directory_retried_witness:
  "''/a'' \<in> set (snd (loopWatch_event (zero_config\<lparr>CONFIG_DIR := [''/a'']\<rparr>) (\<lambda>_. False) ''/a/x.php'' 4 []))
   \<and> ''/a'' \<notin> set (snd (loopWatch_event (zero_config\<lparr>CONFIG_DIR := [''/a/'']\<rparr>) (\<lambda>_. False) ''/a/x.php'' 4 []))"
proof -
  have "path_Clean ''/a'' = ''/a''" "is_template (''/a'' @ slash # ''x.php'')" by code_simp+
  then show ?thesis
    using deleted_directory_retried [of "''/a''" "''x.php''" "\<lambda>_. False"] by simp
qed

text \<open>What the other events start.  A created or written schema file is updated, a created, written or renamed debug
  file updates everything in development mode, and an event with several operations at once starts nothing.\<close>

theorem loopWatch_starts:
  assumes "exists_now (D @ slash # f)" and "slash \<notin> set f" and "f \<noteq> []"
  shows "fst (loopWatch_event c exists_now (D @ slash # f) opn failedDirs) =
    (if DEVMODE c \<and> f = debugFilename then
       (if opn \<in> {op_Create, op_Write, op_Rename} then [UpdateByRoot ''*'' True] else [])
     else if (suffix ''.schema.php'' f \<or> suffix ''.schema.toml'' f) \<and> opn \<in> {op_Create, op_Write}
     then [UpdateBySchemafile (D @ slash # f)] else [])"
proof -
  have "path_Base (D @ slash # f) = f" using path_Base_file [OF assms(2,3)] .
  moreover have "suffix s (D @ slash # f) \<longleftrightarrow> suffix s f" if "slash \<notin> set s" for s
  proof
    assume "suffix s (D @ slash # f)"
    then obtain zs where "D @ slash # f = zs @ s" by (auto elim: suffixE)
    then obtain us where "(D = zs @ us \<and> us @ slash # f = s) \<or> (D @ us = zs \<and> slash # f = us @ s)"
      by (auto simp: append_eq_append_conv2)
    with that show "suffix s f" by (cases us) (auto simp: suffix_def)
  next
    assume "suffix s f"
    then show "suffix s (D @ slash # f)" using suffix_append [of s D "slash # f"] by (simp add: suffix_Cons)
  qed
  then have "IsSchemaFile (D @ slash # f) \<longleftrightarrow> suffix ''.schema.php'' f \<or> suffix ''.schema.toml'' f"
    by (simp add: IsSchemaFile_def SCHEMAFILE_SUFFIX_def TOML_SUFFIX_def HasSuffix_def)
  ultimately show ?thesis using assms(1) by (simp add: loopWatch_event_def Let_def)
qed

theorem loopWatch_starts_witness:
  "fst (loopWatch_event zero_config (\<lambda>_. True) ''/a/x.schema.php'' 2 []) = [UpdateBySchemafile ''/a/x.schema.php'']"
  using loopWatch_starts [of "\<lambda>_. True" "''/a''" "''x.schema.php''" zero_config 2 "[]"]
  by (simp add: zero_config_def op_Write_def suffix_def)

end
