(* ===== verification/Cli.thy ===== *)
theory Cli
  imports GoStrings
begin

text \<open>
  The command line (\<^verbatim>\<open>main.go\<close>: the flags of \<^verbatim>\<open>main\<close>; \<^verbatim>\<open>doveclient.go\<close>: the arguments that
  \<^verbatim>\<open>StartDaemonInstance\<close> hands to the instance it starts in the background).  \<open>parseArgs\<close> is
  \<^verbatim>\<open>FlagSet.Parse\<close> for the flags that \<^verbatim>\<open>main\<close> declares; an error of it ends the program with
  status 2 (\<^verbatim>\<open>flag.ExitOnError\<close>).
\<close>

record flags =
  configFile :: string
  showHelp :: bool
  debug :: bool
  logSingleFile :: bool
  runBi :: bool
  runAsBi :: bool
  runAsDaemon :: bool
  runAsDaemonL :: bool
  showVersion :: bool

definition no_flags :: flags where
  "no_flags = \<lparr>configFile = [], showHelp = False, debug = False, logSingleFile = False, runBi = False,
     runAsBi = False, runAsDaemon = False, runAsDaemonL = False, showVersion = False\<rparr>"

text \<open>The boolean flags and the variables that they set.\<close>

definition bool_flags :: "string list" where
  "bool_flags = [''h'', ''help'', ''debug'', ''ls'', ''bi'', ''rbi'', ''d'', ''detach'', ''V'']"

definition set_flag :: "string \<Rightarrow> bool \<Rightarrow> flags \<Rightarrow> flags" where
  "set_flag name b f =
     (if name = ''h'' \<or> name = ''help'' then f\<lparr>showHelp := b\<rparr>
      else if name = ''debug'' then f\<lparr>debug := b\<rparr>
      else if name = ''ls'' then f\<lparr>logSingleFile := b\<rparr>
      else if name = ''bi'' then f\<lparr>runBi := b\<rparr>
      else if name = ''rbi'' then f\<lparr>runAsBi := b\<rparr>
      else if name = ''d'' then f\<lparr>runAsDaemon := b\<rparr>
      else if name = ''detach'' then f\<lparr>runAsDaemonL := b\<rparr>
      else if name = ''V'' then f\<lparr>showVersion := b\<rparr>
      else f)"

text \<open>\<^verbatim>\<open>strconv.ParseBool\<close>.\<close>

definition ParseBool :: "string \<Rightarrow> bool option" where
  "ParseBool s =
     (if s \<in> set [''1'', ''t'', ''T'', ''true'', ''TRUE'', ''True''] then Some True
      else if s \<in> set [''0'', ''f'', ''F'', ''false'', ''FALSE'', ''False''] then Some False
      else None)"

text \<open>What \<^verbatim>\<open>FlagSet.parseOne\<close> makes of an argument.\<close>

datatype flag_arg = Positional | Terminator | BadSyntax | FlagArg string "string option"

definition flag_name :: "string \<Rightarrow> flag_arg" where
  "flag_name name =
     (if name = [] \<or> hd name = CHR ''-'' \<or> hd name = CHR ''='' then BadSyntax
      else FlagArg (takeWhile (\<lambda>c. c \<noteq> CHR ''='') name)
             (case dropWhile (\<lambda>c. c \<noteq> CHR ''='') name of [] \<Rightarrow> None | _ # v \<Rightarrow> Some v))"

definition classify :: "string \<Rightarrow> flag_arg" where
  "classify s =
     (if length s < 2 \<or> hd s \<noteq> CHR ''-'' then Positional
      else if s ! 1 = CHR ''-'' then (if length s = 2 then Terminator else flag_name (drop 2 s))
      else flag_name (drop 1 s))"

fun parseArgs :: "string list \<Rightarrow> flags \<Rightarrow> (flags \<times> string list) res" where
  "parseArgs [] f = Ok (f, [])"
| "parseArgs (s # args) f =
     (case classify s of
        Positional \<Rightarrow> Ok (f, s # args)
      | Terminator \<Rightarrow> Ok (f, args)
      | BadSyntax \<Rightarrow> Err (ErrText (''bad flag syntax: '' @ s))
      | FlagArg name val \<Rightarrow>
          (if name = ''c'' then
             (case val of
                Some v \<Rightarrow> parseArgs args (f\<lparr>configFile := v\<rparr>)
              | None \<Rightarrow> (case args of
                  [] \<Rightarrow> Err (ErrText ''flag needs an argument: -c'')
                | v # rest \<Rightarrow> parseArgs rest (f\<lparr>configFile := v\<rparr>)))
           else if name \<notin> set bool_flags then Err (ErrText (''flag provided but not defined: -'' @ name))
           else (case val of
                None \<Rightarrow> parseArgs args (set_flag name True f)
              | Some v \<Rightarrow> (case ParseBool v of
                  None \<Rightarrow> Err (ErrText (''invalid boolean value for -'' @ name))
                | Some b \<Rightarrow> parseArgs args (set_flag name b f)))))"

text \<open>The first part of \<^verbatim>\<open>main\<close>: it ends the program, or goes on with the flags and a command.\<close>

datatype cli = Exit int | Proceed flags string

definition main_parse :: "string list \<Rightarrow> cli" where
  "main_parse args =
     (case parseArgs args no_flags of
        Ok (f, cmds) \<Rightarrow>
          (if showVersion f then Exit 0
           else if showHelp f then Exit 0
           else if length cmds > 1 then Exit 1
           else (let cmd = (if length cmds = 1 then cmds ! 0 else [])
                 in Proceed (if runAsDaemonL f \<or> cmd = ''start'' then f\<lparr>runAsDaemon := True\<rparr> else f) cmd))
      | _ \<Rightarrow> Exit 2)"

section \<open>The arguments of the background instance\<close>

definition daemon_words :: "string list" where
  "daemon_words = [''-d'', ''--d'', ''-d=true'', ''-detach'', ''--detach'', ''-detach=true'', ''restart'', ''start'', ''-bi'', ''--bi'']"

definition orginArgs :: "string list \<Rightarrow> string list" where
  "orginArgs args = filter (\<lambda>a. a \<notin> set daemon_words) args"

text \<open>The text given to \<^verbatim>\<open>bash -c\<close>.\<close>

definition daemon_command :: "string \<Rightarrow> string \<Rightarrow> string list \<Rightarrow> string" where
  "daemon_command user bin args = Join ((''sudo -u '' @ user @ '' '' @ bin) # orginArgs args) '' ''"

definition daemon_flag :: "string \<Rightarrow> bool" where
  "daemon_flag a \<longleftrightarrow> (case classify a of FlagArg name _ \<Rightarrow> name \<in> {''d'', ''detach'', ''bi''} | _ \<Rightarrow> False)"

text \<open>
  The spellings of the flags that the filter knows, and no argument of \<^verbatim>\<open>-c\<close> among the words that it drops.
\<close>

definition background_words :: "string list" where
  "background_words = [''start'', ''restart'', ''-d'', ''--d'', ''-d=true'', ''-detach'', ''--detach'', ''-detach=true'', ''-bi'', ''--bi'']"

fun spelled :: "string list \<Rightarrow> bool" where
  "spelled [] = True"
| "spelled (a # args) \<longleftrightarrow> (daemon_flag a \<longrightarrow> a \<in> set background_words)
     \<and> (a \<in> {''-c'', ''--c''} \<longrightarrow> args \<noteq> [] \<longrightarrow> hd args \<notin> set background_words) \<and> spelled args"

lemma background_words_known: "set background_words = set daemon_words"
  by (simp only: background_words_def daemon_words_def list.set insert_commute)

definition undaemon :: "flags \<Rightarrow> flags" where
  "undaemon f = f\<lparr>runBi := False, runAsDaemon := False, runAsDaemonL := False\<rparr>"

lemma classify_words:
  "classify ''-d'' = FlagArg ''d'' None" "classify ''--d'' = FlagArg ''d'' None" "classify ''-d=true'' = FlagArg ''d'' (Some ''true'')"
  "classify ''-detach'' = FlagArg ''detach'' None" "classify ''--detach'' = FlagArg ''detach'' None"
  "classify ''-detach=true'' = FlagArg ''detach'' (Some ''true'')" "classify ''restart'' = Positional" "classify ''start'' = Positional"
  "classify ''-bi'' = FlagArg ''bi'' None" "classify ''--bi'' = FlagArg ''bi'' None"
  by (simp_all add: classify_def flag_name_def)

text \<open>A word that the filter drops is a command, or sets one of the three flags.\<close>

definition drops :: "flag_arg \<Rightarrow> bool" where
  "drops a = (case a of Positional \<Rightarrow> True | FlagArg name v \<Rightarrow> name \<in> {''d'', ''detach'', ''bi''} \<and> (v = None \<or> v = Some ''true'') | _ \<Rightarrow> False)"

lemma classify_daemon_word: "a \<in> set daemon_words \<Longrightarrow> drops (classify a)"
proof -
  have "list_all (\<lambda>a. drops (classify a)) daemon_words"
    by (simp only: daemon_words_def list_all_iff list.set ball_simps classify_words) (simp add: drops_def)
  then show "a \<in> set daemon_words \<Longrightarrow> drops (classify a)" by (simp only: list_all_iff)
qed

lemma undaemon_set_flag:
  "name \<in> {''d'', ''detach'', ''bi''} \<Longrightarrow> undaemon (set_flag name b f) = undaemon f"
  "name \<notin> {''d'', ''detach'', ''bi''} \<Longrightarrow> undaemon (set_flag name b f) = set_flag name b (undaemon f)"
  by (elim insertE emptyE; simp add: set_flag_def undaemon_def) (simp add: set_flag_def undaemon_def)

lemma flag_name_bare: "flag_name n = FlagArg name None \<Longrightarrow> n = name"
proof -
  assume "flag_name n = FlagArg name None"
  then have "takeWhile (\<lambda>c. c \<noteq> CHR ''='') n = name" "dropWhile (\<lambda>c. c \<noteq> CHR ''='') n = []"
    by (simp_all add: flag_name_def split: if_splits list.splits)
  then show "n = name" by (metis append_Nil2 takeWhile_dropWhile_id)
qed

lemma classify_bare_c: "classify s = FlagArg ''c'' None \<Longrightarrow> s \<in> {''-c'', ''--c''}"
proof -
  assume c: "classify s = FlagArg ''c'' None"
  then obtain a b t where s: "s = a # b # t" "a = CHR ''-''"
    by (cases s; cases "tl s") (simp_all add: classify_def split: if_splits)
  from c have "drop 2 s = ''c'' \<and> b = CHR ''-'' \<or> drop 1 s = ''c''"
    using flag_name_bare by (simp add: s classify_def split: if_splits) blast+
  with s show ?thesis by auto
qed

lemma orginArgs_simps [simp]:
  "orginArgs [] = []"
  "a \<in> set daemon_words \<Longrightarrow> orginArgs (a # args) = orginArgs args"
  "a \<notin> set daemon_words \<Longrightarrow> orginArgs (a # args) = a # orginArgs args"
  by (simp_all add: orginArgs_def)

lemma undaemon_configFile [simp]: "undaemon (f\<lparr>configFile := v\<rparr>) = (undaemon f)\<lparr>configFile := v\<rparr>"
  by (simp add: undaemon_def)

lemma parse_orginArgs:
  "parseArgs args f = Ok (f', rest) \<Longrightarrow> length rest \<le> 1 \<Longrightarrow> spelled args
   \<Longrightarrow> parseArgs (orginArgs args) (undaemon f) = Ok (undaemon f', orginArgs rest)"
proof (induction args arbitrary: f rule: measure_induct_rule [where f = length])
  case (less as)
  show ?case
  proof (cases as)
    case Nil
    with less.prems show ?thesis by simp
  next
    case (Cons s args)
    have IH: "parseArgs args g = Ok (f', rest) \<Longrightarrow> parseArgs (orginArgs args) (undaemon g) = Ok (undaemon f', orginArgs rest)" for g
      using less.IH [of args g] less.prems Cons by simp
    show ?thesis
    proof (cases "classify s")
      case Positional
      with less.prems Cons have "f' = f" "args = []" "rest = [s]" by auto
      with Positional Cons show ?thesis by (cases "s \<in> set daemon_words") simp_all
    next
      case Terminator
      then have "s \<notin> set daemon_words" using classify_daemon_word [of s] by (auto simp: drops_def)
      with Terminator less.prems Cons show ?thesis by simp
    next
      case BadSyntax
      with less.prems Cons show ?thesis by simp
    next
      case (FlagArg name val)
      note p = less.prems(1) [unfolded Cons parseArgs.simps FlagArg flag_arg.case]
      show ?thesis
      proof (cases "s \<in> set daemon_words")
        case True
        then have n: "name \<in> {''d'', ''detach'', ''bi''}" "val = None \<or> val = Some ''true''"
          using classify_daemon_word [OF True] FlagArg by (simp_all add: drops_def)
        have "name \<noteq> ''c''" "name \<in> set bool_flags" using n(1) by (elim insertE emptyE; simp add: bool_flags_def)+
        moreover have "ParseBool ''true'' = Some True" by (simp add: ParseBool_def)
        ultimately have "parseArgs args (set_flag name True f) = Ok (f', rest)" using p n(2) by auto
        then show ?thesis using IH undaemon_set_flag(1) [OF n(1)] Cons True by fastforce
      next
        case False
        with less.prems(3) Cons FlagArg have n: "name \<notin> {''d'', ''detach'', ''bi''}" by (simp add: daemon_flag_def background_words_known)
        show ?thesis
        proof (cases "name = ''c'' \<and> val = None")
          case True
          then obtain v args' where a: "args = v # args'" using p by (cases args) simp_all
          then have "v \<notin> set daemon_words" using less.prems(3) Cons classify_bare_c FlagArg True by (auto simp: background_words_known)
          with less.IH [of args' "f\<lparr>configFile := v\<rparr>"] less.prems a p Cons FlagArg True False show ?thesis by simp
        next
          case c: False
          then show ?thesis using p Cons FlagArg False
            by (cases "name = ''c''"; cases val)
              (auto dest!: IH simp: undaemon_set_flag(2) [OF n] split: if_splits option.splits)
        qed
      qed
    qed
  qed
qed

lemma main_parse_orginArgs:
  assumes m: "main_parse args = Proceed f cmd" and sp: "spelled args"
  shows "main_parse (orginArgs args) = Proceed (undaemon f) (if cmd \<in> set background_words then [] else cmd)"
proof -
  have "\<exists>g cmds. parseArgs args no_flags = Ok (g, cmds)"
    using m by (auto simp: main_parse_def split: res.splits)
  then obtain g cmds where p: "parseArgs args no_flags = Ok (g, cmds)" by blast
  with m have len: "length cmds \<le> 1" and q: "\<not> showVersion g" "\<not> showHelp g"
    and cmd: "cmd = (if length cmds = 1 then cmds ! 0 else [])"
    and f: "f = (if runAsDaemonL g \<or> cmd = ''start'' then g\<lparr>runAsDaemon := True\<rparr> else g)"
    by (auto simp: main_parse_def Let_def split: if_splits)
  have uf: "undaemon f = undaemon g" using f by (simp add: undaemon_def)
  have "undaemon no_flags = no_flags" by (simp add: undaemon_def no_flags_def)
  then have c: "parseArgs (orginArgs args) no_flags = Ok (undaemon g, orginArgs cmds)"
    using parse_orginArgs [OF p len sp] by simp
  have st: "''start'' \<in> set daemon_words" by (simp add: daemon_words_def)
  have u: "\<not> showVersion (undaemon g)" "\<not> showHelp (undaemon g)" "\<not> runAsDaemonL (undaemon g)"
    using q by (simp_all add: undaemon_def)
  from len consider "cmds = []" | a where "cmds = [a]" by (cases cmds) auto
  then show "main_parse (orginArgs args) = Proceed (undaemon f) (if cmd \<in> set background_words then [] else cmd)"
  proof cases
    case 1
    then show ?thesis using c cmd u uf by (simp add: main_parse_def background_words_known)
  next
    case (2 a)
    then show ?thesis using c cmd u uf st
      by (cases "a \<in> set daemon_words") (auto simp: main_parse_def background_words_known)
  qed
qed

section \<open>What the shell makes of the arguments\<close>

text \<open>
  The arguments reach the background instance through \<^verbatim>\<open>bash -c\<close> and \<^verbatim>\<open>sudo -u\<close>.  \<open>bash\<close> gives the words of the command that a text
  stands for.  Its documented behaviour on a text without quotes, expansions and operators: it is cut at the blanks, and empty
  words do not exist.
\<close>

definition word_char :: "char \<Rightarrow> bool" where
  "word_char c \<longleftrightarrow>
     (let n = of_char c :: nat in (48 \<le> n \<and> n \<le> 57) \<or> (65 \<le> n \<and> n \<le> 90) \<or> (97 \<le> n \<and> n \<le> 122) \<or> c \<in> set ''_-./:=,+@'')"

definition blank_words :: "string \<Rightarrow> string list" where
  "blank_words s = filter (\<lambda>w. w \<noteq> []) (split_on (CHR '' '') s)"

definition bash_ok :: "(string \<Rightarrow> string list) \<Rightarrow> bool" where
  "bash_ok bash \<longleftrightarrow> (\<forall>s. HasPrefix s ''sudo '' \<and> (\<forall>c \<in> set s. word_char c \<or> c = CHR '' '') \<longrightarrow> bash s = blank_words s)"

text \<open>
  The instance gets what follows \<^verbatim>\<open>sudo -u user bin\<close>, where \<^verbatim>\<open>bin\<close> is a \<open>command_word\<close>: \<^verbatim>\<open>sudo\<close> takes a word that begins with a dash for
  an option of its own and one with an equals sign for a variable.
\<close>

definition child_args :: "(string \<Rightarrow> string list) \<Rightarrow> string \<Rightarrow> string \<Rightarrow> string list \<Rightarrow> string list" where
  "child_args bash user bin args = drop 4 (bash (daemon_command user bin args))"

definition shell_text :: "string \<Rightarrow> bool" where
  "shell_text a \<longleftrightarrow> (\<forall>c \<in> set a. word_char c \<or> c = CHR '' '')"

definition plain_word :: "string \<Rightarrow> bool" where
  "plain_word a \<longleftrightarrow> a \<noteq> [] \<and> (\<forall>c \<in> set a. word_char c)"

definition command_word :: "string \<Rightarrow> bool" where
  "command_word bin \<longleftrightarrow> plain_word bin \<and> hd bin \<noteq> CHR ''-'' \<and> CHR ''='' \<notin> set bin"

lemma blank_words_append: "blank_words (a @ CHR '' '' # b) = blank_words a @ blank_words b"
proof -
  have "split_on (CHR '' '') (a @ CHR '' '' # b) = split_on (CHR '' '') a @ split_on (CHR '' '') b"
    by (induction a) (auto simp: hd_append)
  then show ?thesis by (simp add: blank_words_def)
qed

lemma blank_words_Join: "blank_words (Join ws '' '') = concat (map blank_words ws)"
  by (induction ws "'' ''" rule: Join.induct) (simp_all add: blank_words_append, simp add: blank_words_def)

lemma plain_word_text: "plain_word a \<Longrightarrow> shell_text a" "plain_word a \<Longrightarrow> blank_words a = [a]"
proof -
  have blank: "\<not> word_char (CHR '' '')" by (simp add: word_char_def)
  assume "plain_word a"
  with blank show "shell_text a" "blank_words a = [a]"
    by (auto simp: plain_word_def shell_text_def blank_words_def split_on_absent)
qed

lemma child_args_words:
  assumes "bash_ok bash" and "plain_word user" and "plain_word bin" and "\<forall>a \<in> set args. shell_text a"
  shows "child_args bash user bin args = concat (map blank_words (orginArgs args))"
proof -
  let ?head = "''sudo -u '' @ user @ '' '' @ bin"
  have "shell_text ?head" using plain_word_text(1) [OF assms(2)] plain_word_text(1) [OF assms(3)]
    by (auto simp: shell_text_def word_char_def)
  then have "\<forall>c \<in> set (daemon_command user bin args). word_char c \<or> c = CHR '' ''"
    using assms(4) set_Join [of "?head # orginArgs args" "'' ''"]
    by (fastforce simp: daemon_command_def shell_text_def orginArgs_def)
  moreover have "HasPrefix (daemon_command user bin args) ''sudo ''"
    by (cases "orginArgs args") (simp_all add: daemon_command_def HasPrefix_def)
  ultimately have "bash (daemon_command user bin args) = blank_words (daemon_command user bin args)"
    using assms(1) by (simp add: bash_ok_def)
  also have "\<dots> = blank_words ?head @ concat (map blank_words (orginArgs args))"
    by (simp only: daemon_command_def blank_words_Join list.map concat.simps)
  also have "blank_words ?head = [''sudo'', ''-u'', user, bin]"
    using blank_words_append [of "''sudo''" "''-u '' @ user @ '' '' @ bin"] blank_words_append [of "''-u''" "user @ '' '' @ bin"]
      blank_words_append [of user bin] plain_word_text(2) [OF assms(2)] plain_word_text(2) [OF assms(3)]
    by (simp add: blank_words_def)
  finally show ?thesis by (simp add: child_args_def)
qed

lemma orginArgs_plain: "\<forall>a \<in> set args. plain_word a \<Longrightarrow> concat (map blank_words (orginArgs args)) = orginArgs args"
  using plain_word_text(2) by (induction args) (auto simp: orginArgs_def)

text \<open>C39: the instance that runs in the background gets the arguments without those that ask for a background instance, as far as
  they come through the shell.  When every argument is a word without blanks and without characters of the shell, it parses them to
  the same settings without the request, so that it does not start a further instance; this holds for the spellings of the flags that
  the filter knows (and when the file named by \<^verbatim>\<open>-c\<close> is not called like one of the dropped words).  \<^verbatim>\<open>-d=1\<close> is another spelling, with
  which every instance starts the next one.  The arguments are not quoted: one with a blank comes apart, so that a
  configuration file whose name has a blank makes the instance read another file, with the rest of the name as its
  command; one that is empty disappears, with which the instance ends at once.\<close>

theorem daemon_child_args:
  assumes "bash_ok bash" and "plain_word user" and "command_word bin"
  shows "(\<forall>args f cmd. main_parse args = Proceed f cmd \<and> spelled args \<and> (\<forall>a \<in> set args. plain_word a) \<longrightarrow>
      main_parse (child_args bash user bin args) = Proceed (undaemon f) (if cmd \<in> set background_words then [] else cmd))
   \<and> main_parse [''-d=1''] = Proceed (no_flags\<lparr>runAsDaemon := True\<rparr>) [] \<and> child_args bash user bin [''-d=1''] = [''-d=1'']
   \<and> (\<forall>a b. plain_word a \<and> plain_word b \<and> classify b = Positional \<longrightarrow>
        main_parse [''-c'', a @ '' '' @ b, ''start''] = Proceed (no_flags\<lparr>configFile := a @ '' '' @ b, runAsDaemon := True\<rparr>) ''start''
        \<and> child_args bash user bin [''-c'', a @ '' '' @ b, ''start''] = [''-c'', a, b]
        \<and> (b \<noteq> ''start'' \<longrightarrow> main_parse [''-c'', a, b] = Proceed (no_flags\<lparr>configFile := a\<rparr>) b))
   \<and> main_parse [''-c'', [], ''start''] = Proceed (no_flags\<lparr>runAsDaemon := True\<rparr>) ''start''
   \<and> main_parse (child_args bash user bin [''-c'', [], ''start'']) = Exit 2"
proof (intro conjI allI impI; (elim conjE)?)
  note words = child_args_words [OF assms(1,2) assms(3) [unfolded command_word_def, THEN conjunct1]] and parse = main_parse_def classify_def flag_name_def bool_flags_def ParseBool_def set_flag_def no_flags_def
  show "main_parse (child_args bash user bin args) = Proceed (undaemon f) (if cmd \<in> set background_words then [] else cmd)"
    if "main_parse args = Proceed f cmd" "spelled args" "\<forall>a \<in> set args. plain_word a" for args f cmd
    using main_parse_orginArgs [OF that(1,2)] words [of args] orginArgs_plain [OF that(3)] that(3) plain_word_text(1) by simp
  show "main_parse [''-d=1''] = Proceed (no_flags\<lparr>runAsDaemon := True\<rparr>) []" by (simp add: parse)
  have org: "orginArgs [''-d=1''] = [''-d=1'']" "orginArgs [''-c'', x, ''start''] = (if x \<in> set daemon_words then [''-c''] else [''-c'', x])" for x
    by (simp_all add: orginArgs_def daemon_words_def)
  have p: "plain_word ''-d=1''" "plain_word ''-c''" "plain_word ''start''" by (simp_all add: plain_word_def word_char_def)
  show "child_args bash user bin [''-d=1''] = [''-d=1'']"
    using words [of "[''-d=1'']"] org(1) plain_word_text [OF p(1)] by simp
  show "main_parse [''-c'', [], ''start''] = Proceed (no_flags\<lparr>runAsDaemon := True\<rparr>) ''start''" by (simp add: parse)
  have "child_args bash user bin [''-c'', [], ''start''] = [''-c'']"
    using words [of "[''-c'', [], ''start'']"] org(2) [of "[]"] plain_word_text [OF p(2)] plain_word_text [OF p(3)]
    by (simp add: shell_text_def blank_words_def)
  then show "main_parse (child_args bash user bin [''-c'', [], ''start'']) = Exit 2" by (simp add: parse)
  fix a b
  assume ab: "plain_word a" "plain_word b" "classify b = Positional"
  have "\<forall>d \<in> set daemon_words. CHR '' '' \<notin> set d" by (simp add: daemon_words_def)
  then have "a @ '' '' @ b \<notin> set daemon_words" by (metis in_set_conv_decomp append_Cons append_Nil)
  moreover have "shell_text (a @ '' '' @ b)" using plain_word_text(1) [OF ab(1)] plain_word_text(1) [OF ab(2)] by (auto simp: shell_text_def)
  ultimately show "child_args bash user bin [''-c'', a @ '' '' @ b, ''start''] = [''-c'', a, b]"
    using words [of "[''-c'', a @ '' '' @ b, ''start'']"] org(2) [of "a @ '' '' @ b"] plain_word_text [OF p(2)] plain_word_text [OF p(3)]
      plain_word_text(2) [OF ab(1)] plain_word_text(2) [OF ab(2)] blank_words_append [of a b] by simp
  have c: "classify ''-c'' = FlagArg ''c'' None" "classify ''start'' = Positional" by (simp_all add: classify_def flag_name_def)
  show "main_parse [''-c'', a @ '' '' @ b, ''start''] = Proceed (no_flags\<lparr>configFile := a @ '' '' @ b, runAsDaemon := True\<rparr>) ''start''"
    by (simp add: main_parse_def c no_flags_def)
  show "main_parse [''-c'', a, b] = Proceed (no_flags\<lparr>configFile := a\<rparr>) b" if "b \<noteq> ''start''"
    using that ab(3) by (simp add: main_parse_def c no_flags_def)
qed

theorem daemon_child_args_witness:
  "main_parse (child_args blank_words ''www'' ''/usr/bin/dc'' [''-c'', ''/etc/dove.conf'', ''-debug'', ''start''])
     = Proceed (no_flags\<lparr>configFile := ''/etc/dove.conf'', debug := True\<rparr>) []
   \<and> main_parse [''-c'', ''/etc/my'', ''dove.conf''] = Proceed (no_flags\<lparr>configFile := ''/etc/my''\<rparr>) ''dove.conf''
   \<and> child_args blank_words ''www'' ''/usr/bin/dc'' [''-c'', ''/etc/my dove.conf'', ''start''] = [''-c'', ''/etc/my'', ''dove.conf'']"
proof -
  have w: "bash_ok blank_words" "plain_word ''www''" "command_word ''/usr/bin/dc''"
    by (simp_all add: bash_ok_def command_word_def plain_word_def word_char_def)
  note r = daemon_child_args [OF w]
  have "main_parse [''-c'', ''/etc/dove.conf'', ''-debug'', ''start'']
      = Proceed (no_flags\<lparr>configFile := ''/etc/dove.conf'', debug := True, runAsDaemon := True\<rparr>) ''start''"
    by (simp add: main_parse_def classify_def flag_name_def bool_flags_def set_flag_def no_flags_def)
  moreover have "spelled [''-c'', ''/etc/dove.conf'', ''-debug'', ''start'']"
    by (simp add: daemon_flag_def classify_def flag_name_def background_words_def)
  moreover have "\<forall>a \<in> set [''-c'', ''/etc/dove.conf'', ''-debug'', ''start'']. plain_word a" by (simp add: plain_word_def word_char_def)
  moreover have "''start'' \<in> set background_words" by (simp add: background_words_def)
  ultimately have "main_parse (child_args blank_words ''www'' ''/usr/bin/dc'' [''-c'', ''/etc/dove.conf'', ''-debug'', ''start''])
      = Proceed (undaemon (no_flags\<lparr>configFile := ''/etc/dove.conf'', debug := True, runAsDaemon := True\<rparr>)) []"
    using r [THEN conjunct1, rule_format, OF conjI, OF _ conjI] by presburger
  moreover have "plain_word ''/etc/my''" "plain_word ''dove.conf''" "classify ''dove.conf'' = Positional" "''dove.conf'' \<noteq> ''start''"
    by (simp_all add: plain_word_def word_char_def classify_def)
  then have "child_args blank_words ''www'' ''/usr/bin/dc'' [''-c'', ''/etc/my'' @ '' '' @ ''dove.conf'', ''start''] = [''-c'', ''/etc/my'', ''dove.conf'']"
    "main_parse [''-c'', ''/etc/my'', ''dove.conf''] = Proceed (no_flags\<lparr>configFile := ''/etc/my''\<rparr>) ''dove.conf''"
    using r [THEN conjunct2, THEN conjunct2, THEN conjunct2, THEN conjunct1, rule_format, of "''/etc/my''" "''dove.conf''"] by blast+
  ultimately show ?thesis by (simp add: undaemon_def no_flags_def)
qed

end
