(* ===== verification/ProcControl.thy ===== *)
theory ProcControl
  imports Cli ConfigTypes
begin

text \<open>
  Processes, signals and the pid file (\<^verbatim>\<open>proc/proc_control.go\<close>, \<^verbatim>\<open>doveclient.go\<close>), on a machine with a process
  table.  A process that has ended stays in the table as a zombie until its parent waits for it or ends.
  \<^verbatim>\<open>kill\<close> reaches a process that is in the table, zombie or not, if the caller is root or has the same
  user; \<^verbatim>\<open>os.FindProcess\<close> always succeeds on Unix.
\<close>

datatype signal = SIG0 | SIGQUIT | SIGTERM | SIGINT | SIGALRM | SIGUSR1 | SIGUSR2 | SIGHUP | SIGKILL | SIGOTHER nat

record process =
  p_uid :: int
  p_group :: int
  p_parent :: int
  zombie :: bool

record machine =
  m_files :: "(string, bytes) gomap"
  m_procs :: "(int, process) gomap"
  m_signals :: "(int \<times> signal) list"
  m_writable :: "string \<Rightarrow> bool"

section \<open>Operating system\<close>

definition ReadFile :: "string \<Rightarrow> machine \<Rightarrow> bytes res" where
  "ReadFile name M =
     (case mget (m_files M) name of
        None \<Rightarrow> Err (ErrText (''open '' @ name @ '': no such file or directory''))
      | Some content \<Rightarrow> Ok content)"

definition WriteFile :: "string \<Rightarrow> bytes \<Rightarrow> machine \<Rightarrow> goerr option \<times> machine" where
  "WriteFile name content M =
     (if m_writable M name then (None, M\<lparr>m_files := mset (m_files M) name content\<rparr>)
      else (Some (ErrText (''open '' @ name @ '': permission denied'')), M))"

definition Remove :: "string \<Rightarrow> machine \<Rightarrow> machine" where
  "Remove name M = M\<lparr>m_files := mdel (m_files M) name\<rparr>"

definition FindProcess :: "int \<Rightarrow> int res" where
  "FindProcess pid = Ok pid"

definition kill_targets :: "int \<Rightarrow> machine \<Rightarrow> (int \<times> process) list" where
  "kill_targets pid M = filter (\<lambda>(q, p). if pid > 0 then q = pid else p_group p = - pid) (m_procs M)"

definition may_signal :: "int \<Rightarrow> process \<Rightarrow> bool" where
  "may_signal uid p \<longleftrightarrow> uid = 0 \<or> uid = p_uid p"

text \<open>\<^verbatim>\<open>Process.Signal\<close>, called by a process of the user \<open>uid\<close>.\<close>

definition Signal :: "int \<Rightarrow> int \<Rightarrow> signal \<Rightarrow> machine \<Rightarrow> goerr option \<times> machine" where
  "Signal uid pid sig M =
     (if pid = -1 then (Some (ErrText ''os: process already released''), M)
      else if pid = 0 then (Some (ErrText ''os: process not initialized''), M)
      else if kill_targets pid M = [] then (Some (ErrText ''os: process already finished''), M)
      else (let reached = filter (\<lambda>(q, p). may_signal uid p) (kill_targets pid M)
            in if reached = [] then (Some (ErrText ''operation not permitted''), M)
               else (None, if sig = SIG0 then M
                           else M\<lparr>m_signals := m_signals M @ map (\<lambda>(q, p). (q, sig)) reached\<rparr>)))"

section \<open>The pid file\<close>

definition SavePid :: "Config \<Rightarrow> int \<Rightarrow> machine \<Rightarrow> goerr option \<times> machine" where
  "SavePid c self M = WriteFile (PidFile c) (Itoa self) M"

definition RemovePid :: "Config \<Rightarrow> machine \<Rightarrow> machine" where
  "RemovePid c M = Remove (PidFile c) M"

definition GetPid :: "Config \<Rightarrow> machine \<Rightarrow> int res" where
  "GetPid c M = res_bind (ReadFile (PidFile c) M) (\<lambda>pidB. Atoi (TrimSpace pidB))"

definition Status :: "Config \<Rightarrow> int \<Rightarrow> machine \<Rightarrow> string \<times> goerr option" where
  "Status c uid M =
     (case GetPid c M of
        Err e \<Rightarrow> (''failed'', Some (ErrText (''Failed to get pid, not running?('' @ err_text e @ '')'')))
      | Panic m \<Rightarrow> (''failed'', None)
      | Ok pid \<Rightarrow>
          (case FindProcess pid of
             Err e \<Rightarrow> (''failed'', Some (ErrText (''Failed to lookup client process: '' @ err_text e)))
           | Panic m \<Rightarrow> (''failed'', None)
           | Ok p \<Rightarrow>
               (case fst (Signal uid p SIG0 M) of
                  Some e \<Rightarrow> (''stopped'', None)
                | None \<Rightarrow> (''running'', None))))"

definition StopClient :: "Config \<Rightarrow> int \<Rightarrow> int \<Rightarrow> machine \<Rightarrow> machine" where
  "StopClient c self uid M =
     (case (if RunAsBi c then Ok self else GetPid c M) of
        Ok pid \<Rightarrow> (case FindProcess pid of Ok p \<Rightarrow> snd (Signal uid p SIGQUIT M) | _ \<Rightarrow> M)
      | _ \<Rightarrow> M)"

text \<open>
  \<^verbatim>\<open>Restart\<close> asks the running instance to restart, waits for three seconds and looks again;
  \<open>later\<close> is what happens on the machine meanwhile.
\<close>

definition Restart :: "Config \<Rightarrow> int \<Rightarrow> (machine \<Rightarrow> machine) \<Rightarrow> machine \<Rightarrow> bool \<times> machine" where
  "Restart c uid later M =
     (case res_bind (GetPid c M) FindProcess of
        Ok p \<Rightarrow>
          (case Signal uid p SIGUSR2 M of
             (Some e, M1) \<Rightarrow> (False, M1)
           | (None, M1) \<Rightarrow>
               (let M2 = later M1
                in case res_bind (GetPid c M2) FindProcess of
                     Ok p2 \<Rightarrow> (fst (Signal uid p2 SIG0 M2) = None, M2)
                   | _ \<Rightarrow> (False, M2)))
      | _ \<Rightarrow> (False, M))"

lemmas machine_ops = ReadFile_def WriteFile_def Remove_def FindProcess_def

section \<open>Starting an instance in the background\<close>

text \<open>
  What \<^verbatim>\<open>StartDaemonInstance\<close> sees when it looks, every 200 milliseconds for 15 seconds: the machine, and the
  process of the command \<^verbatim>\<open>sudo\<close>, which \<^verbatim>\<open>cmd.Run\<close> starts in another goroutine.
\<close>

datatype runner = NotStarted | Running | Finished

type_synonym look = "machine \<times> runner"

text \<open>\<^verbatim>\<open>cmd.Process.Signal(SIGKILL)\<close>.\<close>

definition kill_runner :: "runner \<Rightarrow> goerr option res" where
  "kill_runner r =
     (case r of
        NotStarted \<Rightarrow> Panic ''invalid memory address or nil pointer dereference''
      | Running \<Rightarrow> Ok None
      | Finished \<Rightarrow> Ok (Some (ErrText ''os: process already finished'')))"

text \<open>The loop, with the variables \<^verbatim>\<open>cProc\<close> and \<^verbatim>\<open>err\<close>; its result is \<^verbatim>\<open>err\<close> and \<^verbatim>\<open>sErr\<close>.\<close>

definition find_client :: "Config \<Rightarrow> machine \<Rightarrow> int option \<Rightarrow> goerr option \<Rightarrow> int option \<times> goerr option" where
  "find_client c M cProc err =
     (case cProc of
        Some p \<Rightarrow> (Some p, err)
      | None \<Rightarrow> (case res_bind (GetPid c M) FindProcess of
           Ok p \<Rightarrow> (Some p, None)
         | Err e \<Rightarrow> (None, Some e)
         | Panic m \<Rightarrow> (None, Some (ErrText m))))"

fun daemon_poll :: "Config \<Rightarrow> int \<Rightarrow> look list \<Rightarrow> int option \<Rightarrow> goerr option \<Rightarrow> (goerr option \<times> goerr option) res" where
  "daemon_poll c uid [] cProc err = Ok (err, None)"
| "daemon_poll c uid ((M, r) # looks) cProc err =
     (case find_client c M cProc err of
        (Some p, None) \<Rightarrow>
          (case fst (Signal uid p SIG0 M) of
             None \<Rightarrow> res_bind (kill_runner r) (\<lambda>sErr. Ok (None, sErr))
           | Some e \<Rightarrow> daemon_poll c uid looks (Some p) (Some e))
      | (cProc', err') \<Rightarrow> daemon_poll c uid looks cProc' err')"

text \<open>\<open>cmdErr\<close> is the error of \<^verbatim>\<open>cmd.Run\<close> as far as it is known when the loop has ended, \<open>out\<close> the output.\<close>

definition StartDaemonInstance :: "Config \<Rightarrow> int \<Rightarrow> look list \<Rightarrow> goerr option \<Rightarrow> string \<Rightarrow> unit res" where
  "StartDaemonInstance c uid looks cmdErr out =
     res_bind (daemon_poll c uid looks None None) (\<lambda>(err, sErr).
       if err \<noteq> None \<or> cmdErr \<noteq> None \<or> sErr \<noteq> None
       then Err (ErrText (''cmd: '' @ out @ '', errors: '' @ Join (map (\<lambda>e. case e of None \<Rightarrow> ''<nil>'' | Some e \<Rightarrow> err_text e) [sErr, cmdErr, err]) '' : ''))
       else Ok ())"

lemma daemon_poll_failed: "daemon_poll c uid looks (Some p) (Some e) = Ok (Some e, None)"
  by (induction looks) (auto simp: find_client_def)

lemma daemon_poll_unreadable:
  "\<forall>(M, r) \<in> set pre. \<exists>e. GetPid c M = Err e
   \<Longrightarrow> \<exists>err'. daemon_poll c uid (pre @ looks) None err = daemon_poll c uid looks None err'"
proof (induction pre arbitrary: err)
  case (Cons l pre)
  obtain M r where l: "l = (M, r)" by (cases l)
  with Cons.prems obtain e where "GetPid c M = Err e" by auto
  then show ?case using Cons l by (auto simp: find_client_def)
qed auto

text \<open>The start in the background waits for a pid file that can be read and then decides once and for all: it succeeds if the
  process that the file names is there, and fails if not.  A pid file that a crashed instance has left
  behind makes it report a failure after 15 seconds although the instance it started runs (\<open>later\<close> is arbitrary).\<close>

theorem StartDaemonInstance_first_pid:
  assumes "\<forall>(M, r) \<in> set earlier. \<exists>e. GetPid c M = Err e" and "GetPid c M = Ok pid"
  shows "StartDaemonInstance c uid (earlier @ (M, Running) # later) None out = Ok () \<longleftrightarrow> fst (Signal uid pid SIG0 M) = None"
proof -
  obtain err where poll: "daemon_poll c uid (earlier @ (M, Running) # later) None None = daemon_poll c uid ((M, Running) # later) None err"
    using daemon_poll_unreadable [OF assms(1)] by blast
  show ?thesis
    using assms(2) by (cases "fst (Signal uid pid SIG0 M)")
      (simp_all add: StartDaemonInstance_def poll find_client_def FindProcess_def kill_runner_def daemon_poll_failed)
qed

theorem StartDaemonInstance_first_pid_witness:
  "\<not> StartDaemonInstance (zero_config\<lparr>PidFile := ''p''\<rparr>) 0
     [(\<lparr>m_files = [(''p'', ''41'')], m_procs = [], m_signals = [], m_writable = (\<lambda>_. True)\<rparr>, Running),
      (\<lparr>m_files = [(''p'', ''42'')], m_procs = [(42, \<lparr>p_uid = 0, p_group = 42, p_parent = 1, zombie = False\<rparr>)],
        m_signals = [], m_writable = (\<lambda>_. True)\<rparr>, Running)] None [] = Ok ()"
proof -
  let ?M = "\<lparr>m_files = [(''p'', ''41'')], m_procs = [], m_signals = [], m_writable = (\<lambda>_. True)\<rparr>"
  let ?c = "zero_config\<lparr>PidFile := ''p''\<rparr>"
  have "TrimSpace ''41'' = ''41''" by (rule TrimSpace_id) (simp add: visible_def ascii_space_def)
  moreover have "Atoi ''41'' = Ok 41" by (simp add: Atoi_def is_digit_def digits_val_def digit_val_def)
  ultimately have "GetPid ?c ?M = Ok 41" by (simp add: GetPid_def ReadFile_def)
  moreover have "fst (Signal 0 41 SIG0 ?M) \<noteq> None" by (simp add: Signal_def kill_targets_def)
  ultimately show ?thesis
    using StartDaemonInstance_first_pid [of "[]" ?c ?M 41 0 _ "[]"] by simp
qed

end
