(* ===== verification/Listener.thy ===== *)
theory Listener
  imports ProcControl Steps
begin

text \<open>
  The listening sockets of the client and its connections (\<^verbatim>\<open>connection/conn_handler.go\<close>, \<^verbatim>\<open>connection/statistics.go\<close>):
  opening the socket of the service or taking over the one of the previous instance, the sockets of
  the profiler and of the console, and the counter of connections, which is kept by a goroutine of its own
  behind a channel with 100 places, as a transition system.
\<close>

datatype listener = NoListener | TCPListener string | UnixListener string

record listeners =
  server :: listener
  pprofListener :: bool
  consoleServer :: bool

text \<open>
  The system calls on sockets: opening a TCP socket at an address, making a listener of the inherited
  descriptor 3, closing, and duplicating the descriptor of a listener.
\<close>

record sockets =
  listen_tcp :: "string \<Rightarrow> goerr option"
  file_listener :: "listener res"
  close_err :: "goerr option"
  listener_file :: "listener \<Rightarrow> int res"

section \<open>The sockets\<close>

definition StartPProf :: "sockets \<Rightarrow> Config \<Rightarrow> listeners \<Rightarrow> listeners" where
  "StartPProf N c L =
     (if PPROF_LISTEN c = [] then L
      else case listen_tcp N (PPROF_LISTEN c) of
             Some e \<Rightarrow> L
           | None \<Rightarrow> L\<lparr>pprofListener := True\<rparr>)"

definition StopPProf :: "sockets \<Rightarrow> listeners \<Rightarrow> listeners" where
  "StopPProf N L =
     (if pprofListener L then (case close_err N of Some e \<Rightarrow> L | None \<Rightarrow> L\<lparr>pprofListener := False\<rparr>) else L)"

definition open_console :: "sockets \<Rightarrow> listeners \<Rightarrow> listeners" where
  "open_console N L =
     (case listen_tcp N ''0.0.0.0:4514'' of Some e \<Rightarrow> L | None \<Rightarrow> L\<lparr>consoleServer := True\<rparr>)"

definition StopConsole :: "sockets \<Rightarrow> listeners \<Rightarrow> listeners" where
  "StopConsole N L =
     (if consoleServer L then (case close_err N of Some e \<Rightarrow> L | None \<Rightarrow> L\<lparr>consoleServer := False\<rparr>) else L)"

definition GetLocalServerFd :: "sockets \<Rightarrow> listeners \<Rightarrow> int res" where
  "GetLocalServerFd N L =
     (case server L of
        TCPListener a \<Rightarrow> listener_file N (server L)
      | UnixListener a \<Rightarrow> listener_file N (server L)
      | NoListener \<Rightarrow> Err (ErrText ''Unknown listener''))"

text \<open>
  \<^verbatim>\<open>net.Listen("unix", addr)\<close> makes the file of the socket, which must not exist; \<^verbatim>\<open>os.Chmod\<close> needs the file.
\<close>

definition listen_unix :: "string \<Rightarrow> machine \<Rightarrow> listener res \<times> machine" where
  "listen_unix addr M =
     (if mget (m_files M) addr \<noteq> None then (Err (ErrText (''listen unix '' @ addr @ '': bind: address already in use'')), M)
      else (case WriteFile addr [] M of (Some e, M1) \<Rightarrow> (Err e, M1) | (None, M1) \<Rightarrow> (Ok (UnixListener addr), M1)))"

definition Chmod :: "string \<Rightarrow> machine \<Rightarrow> goerr option" where
  "Chmod name M =
     (if mget (m_files M) name = None then Some (ErrText (''chmod '' @ name @ '': no such file or directory'')) else None)"

definition listen_addr :: "Config \<Rightarrow> string" where
  "listen_addr c = (if RunAsBi c then ListenAddrTransi c else ListenAddr c)"

text \<open>
  \<^verbatim>\<open>StartLocalServer\<close> up to the loop that accepts connections.  \<open>restart\<close> is the environment variable \<^verbatim>\<open>RESTART\<close>,
  \<open>goos\<close> is \<^verbatim>\<open>runtime.GOOS\<close>.
\<close>

definition open_server :: "sockets \<Rightarrow> string \<Rightarrow> string \<Rightarrow> Config \<Rightarrow> machine \<Rightarrow> listener res \<times> machine" where
  "open_server N goos restart c M =
     (let addr = listen_addr c in
      if restart = ''1'' then (file_listener N, M)
      else if goos = ''windows'' then ((case listen_tcp N addr of Some e \<Rightarrow> Err e | None \<Rightarrow> Ok (TCPListener addr)), M)
      else listen_unix addr (Remove addr M))"

definition StartLocalServer ::
    "sockets \<Rightarrow> string \<Rightarrow> string \<Rightarrow> Config \<Rightarrow> listeners \<Rightarrow> machine \<Rightarrow> unit res \<times> listeners \<times> machine" where
  "StartLocalServer N goos restart c L M =
     (case open_server N goos restart c M of
        (Ok l, M1) \<Rightarrow>
          (let L1 = L\<lparr>server := l\<rparr>
           in case (if goos = ''windows'' then None else Chmod (listen_addr c) M1) of
                Some e \<Rightarrow> (Err (ErrText (''Failed to change unixdomain listen mode: '' @ err_text e)), L1, M1)
              | None \<Rightarrow> (Ok (), if RunAsBi c then L1 else open_console N L1, M1))
      | (Err e, M1) \<Rightarrow> (Err e, L\<lparr>server := NoListener\<rparr>, M1)
      | (Panic m, M1) \<Rightarrow> (Panic m, L\<lparr>server := NoListener\<rparr>, M1))"

section \<open>The number of connections\<close>

definition MAX_CONNECTIONS :: int where
  "MAX_CONNECTIONS = 15000"

definition counter_capacity :: nat where
  "counter_capacity = 100"

text \<open>
  The counter; the message that \<^verbatim>\<open>connCounter\<close> has taken from its channel and not counted yet; the messages in the channel; the
  accepting loop, which waits for a connection, has found the counter small enough for the one it accepted, has handed it to a
  handler and not announced it yet, or has ended; the handlers that serve and those that have yet to announce their end.
\<close>

datatype acceptor = Accepting | Admitted | Announcing | AcceptorEnded

record conn_count =
  current_connctions :: int
  in_hand :: "int option"
  counterCh :: "int list"
  acceptor :: acceptor
  serving :: nat
  ending :: nat

definition no_connections :: conn_count where
  "no_connections = \<lparr>current_connctions = 0, in_hand = None, counterCh = [], acceptor = Accepting, serving = 0, ending = 0\<rparr>"

definition connCounter :: "int \<Rightarrow> int \<Rightarrow> int" where
  "connCounter m n = (if m = 1 then n + 1 else if m = -1 then n - 1 else n)"

inductive count_step :: "conn_count \<Rightarrow> conn_count \<Rightarrow> bool" where
  cs_admit: "acceptor s = Accepting \<Longrightarrow> \<not> current_connctions s > MAX_CONNECTIONS \<Longrightarrow> count_step s (s\<lparr>acceptor := Admitted\<rparr>)"
| cs_refuse: "acceptor s = Accepting \<Longrightarrow> current_connctions s > MAX_CONNECTIONS \<Longrightarrow> count_step s s"
| cs_serve: "acceptor s = Admitted \<Longrightarrow> count_step s (s\<lparr>serving := Suc (serving s), acceptor := Announcing\<rparr>)"
| cs_announce: "acceptor s = Announcing \<Longrightarrow> length (counterCh s) < counter_capacity
    \<Longrightarrow> count_step s (s\<lparr>acceptor := (if stopped then AcceptorEnded else Accepting), counterCh := counterCh s @ [1]\<rparr>)"
| cs_end: "0 < serving s \<Longrightarrow> count_step s (s\<lparr>serving := serving s - 1, ending := Suc (ending s)\<rparr>)"
| cs_leave: "0 < ending s \<Longrightarrow> length (counterCh s) < counter_capacity
    \<Longrightarrow> count_step s (s\<lparr>ending := ending s - 1, counterCh := counterCh s @ [-1]\<rparr>)"
| cs_receive: "in_hand s = None \<Longrightarrow> counterCh s = m # q \<Longrightarrow> count_step s (s\<lparr>in_hand := Some m, counterCh := q\<rparr>)"
| cs_count: "in_hand s = Some m
    \<Longrightarrow> count_step s (s\<lparr>in_hand := None, current_connctions := connCounter m (current_connctions s)\<rparr>)"

abbreviation count_reach :: "conn_count \<Rightarrow> bool" where
  "count_reach s \<equiv> count_step\<^sup>*\<^sup>* no_connections s"

text \<open>The counter and the messages on their way to it together make the number of connections.\<close>

definition on_the_way :: "conn_count \<Rightarrow> int list" where
  "on_the_way s = (case in_hand s of None \<Rightarrow> [] | Some m \<Rightarrow> [m]) @ counterCh s @ (if acceptor s = Announcing then [1] else [])"

definition count_inv :: "conn_count \<Rightarrow> bool" where
  "count_inv s \<longleftrightarrow> set (on_the_way s) \<subseteq> {1, -1} \<and> length (counterCh s) \<le> counter_capacity
     \<and> current_connctions s + sum_list (on_the_way s) = int (serving s + ending s)
     \<and> int (serving s + ending s) \<le> MAX_CONNECTIONS + int counter_capacity + (if acceptor s = Admitted then 1 else 2)"

lemma sum_list_le_length: "set q \<subseteq> {1, -1 :: int} \<Longrightarrow> sum_list q \<le> int (length q)"
  by (induction q) auto

lemma count_inv_step: "count_step s s' \<Longrightarrow> count_inv s \<Longrightarrow> count_inv s'"
proof (induction rule: count_step.induct)
  case (cs_admit s)
  then have "sum_list (on_the_way s) \<le> int (length (on_the_way s))"
    by (intro sum_list_le_length) (simp add: count_inv_def)
  also have "\<dots> \<le> int counter_capacity + 1"
    using cs_admit by (auto simp: count_inv_def on_the_way_def split: option.splits)
  finally show ?case using cs_admit by (simp add: count_inv_def on_the_way_def)
qed (auto simp: count_inv_def on_the_way_def connCounter_def split: option.splits)

interpretation counting: reachable_invariant count_step count_inv "\<lambda>s. s = no_connections"
  by unfold_locales (rule count_inv_step, simp_all add: count_inv_def on_the_way_def no_connections_def MAX_CONNECTIONS_def)

lemma count_inv_reach: "count_reach s \<Longrightarrow> count_inv s"
  by (rule counting.inv_reach) simp_all

text \<open>A run in which \<open>n\<close> connections are counted, and then \<open>k\<close> more are announced while \<^verbatim>\<open>connCounter\<close> does nothing.\<close>

lemmas count_run = r_into_rtranclp rtranclp.rtrancl_into_rtrancl

lemma accept_one:
  assumes "acceptor s = Accepting" and "current_connctions s \<le> MAX_CONNECTIONS"
  shows "count_step\<^sup>*\<^sup>* s (s\<lparr>serving := Suc (serving s), acceptor := Announcing\<rparr>)"
proof -
  let ?a = "s\<lparr>acceptor := Admitted\<rparr>"
  have "count_step s ?a" using assms by (intro cs_admit) auto
  moreover have "count_step ?a (s\<lparr>serving := Suc (serving s), acceptor := Announcing\<rparr>)" using cs_serve [of ?a] by simp
  ultimately show ?thesis by (meson count_run)
qed

lemma announce_one:
  assumes "acceptor s = Accepting" and "current_connctions s \<le> MAX_CONNECTIONS" and "length (counterCh s) < counter_capacity"
  shows "count_step\<^sup>*\<^sup>* s (s\<lparr>serving := Suc (serving s), counterCh := counterCh s @ [1]\<rparr>)"
proof -
  let ?b = "s\<lparr>serving := Suc (serving s), acceptor := Announcing\<rparr>"
  have "count_step ?b (?b\<lparr>acceptor := Accepting, counterCh := counterCh s @ [1]\<rparr>)"
    using cs_announce [of ?b False] assms(3) by simp
  moreover have "?b\<lparr>acceptor := Accepting, counterCh := counterCh s @ [1]\<rparr> = s\<lparr>serving := Suc (serving s), counterCh := counterCh s @ [1]\<rparr>"
    using assms(1) by simp
  ultimately show ?thesis using accept_one [OF assms(1,2)] by (metis rtranclp.rtrancl_into_rtrancl)
qed

definition counted :: "nat \<Rightarrow> conn_count" where
  "counted n = no_connections\<lparr>current_connctions := int n, serving := n\<rparr>"

lemma reach_counted: "int n \<le> MAX_CONNECTIONS + 1 \<Longrightarrow> count_reach (counted n)"
proof (induction n)
  case 0
  then show ?case by (simp add: counted_def no_connections_def)
next
  case (Suc n)
  let ?a = "(counted n)\<lparr>serving := Suc n, counterCh := [1]\<rparr>"
  let ?b = "?a\<lparr>in_hand := Some 1, counterCh := []\<rparr>"
  have "count_step\<^sup>*\<^sup>* (counted n) ?a"
    using announce_one [of "counted n"] Suc.prems by (simp add: counted_def no_connections_def counter_capacity_def)
  moreover have "count_step ?a ?b" using cs_receive [of ?a 1 "[]"] by (simp add: counted_def no_connections_def)
  moreover have "count_step ?b (counted (Suc n))"
    using cs_count [of ?b 1] by (simp add: counted_def no_connections_def connCounter_def add.commute)
  moreover have "count_reach (counted n)" using Suc by simp
  ultimately show ?case by (meson rtranclp.rtrancl_into_rtrancl rtranclp_trans)
qed

lemma announce_many:
  assumes "int n \<le> MAX_CONNECTIONS"
  shows "k \<le> counter_capacity \<Longrightarrow> count_reach ((counted n)\<lparr>in_hand := Some 1, serving := Suc n + k, counterCh := replicate k 1\<rparr>)"
proof (induction k)
  case 0
  let ?a = "(counted n)\<lparr>serving := Suc n, counterCh := [1]\<rparr>"
  have "count_reach (counted n)" using assms by (intro reach_counted) simp
  moreover have "count_step\<^sup>*\<^sup>* (counted n) ?a"
    using announce_one [of "counted n"] assms by (simp add: counted_def no_connections_def counter_capacity_def)
  moreover have "count_step ?a (?a\<lparr>in_hand := Some 1, counterCh := []\<rparr>)"
    using cs_receive [of ?a 1 "[]"] by (simp add: counted_def no_connections_def)
  ultimately have "count_reach (?a\<lparr>in_hand := Some 1, counterCh := []\<rparr>)"
    by (meson rtranclp.rtrancl_into_rtrancl rtranclp_trans)
  then show ?case by (simp add: counted_def no_connections_def)
next
  case (Suc k)
  let ?a = "(counted n)\<lparr>in_hand := Some 1, serving := Suc n + k, counterCh := replicate k 1\<rparr>"
  have "count_step\<^sup>*\<^sup>* ?a (?a\<lparr>serving := Suc (serving ?a), counterCh := counterCh ?a @ [1]\<rparr>)"
    using assms Suc.prems by (intro announce_one) (simp_all add: counted_def no_connections_def)
  then have "count_reach (?a\<lparr>serving := Suc (serving ?a), counterCh := counterCh ?a @ [1]\<rparr>)"
    using Suc by (meson Suc_leD rtranclp_trans)
  then show ?case by (simp add: counted_def no_connections_def replicate_append_same)
qed

lemma most_connections: "\<exists>s. count_reach s \<and> int (serving s) = MAX_CONNECTIONS + 102"
proof -
  let ?a = "(counted 15000)\<lparr>in_hand := Some 1, serving := Suc 15000 + counter_capacity, counterCh := replicate counter_capacity 1\<rparr>"
  have "count_reach ?a" by (rule announce_many) (simp_all add: MAX_CONNECTIONS_def)
  moreover have "count_step\<^sup>*\<^sup>* ?a (?a\<lparr>serving := Suc (serving ?a), acceptor := Announcing\<rparr>)"
    by (intro accept_one) (simp_all add: counted_def no_connections_def MAX_CONNECTIONS_def)
  ultimately have "count_reach (?a\<lparr>serving := Suc (serving ?a), acceptor := Announcing\<rparr>)" by (rule rtranclp_trans)
  moreover have "int (serving (?a\<lparr>serving := Suc (serving ?a), acceptor := Announcing\<rparr>)) = MAX_CONNECTIONS + 102"
    by (simp add: MAX_CONNECTIONS_def counter_capacity_def)
  ultimately show ?thesis by blast
qed

text \<open>C38: once no message is on its way to the counter, the counter is the number of connections that are served.  There are never
  more than 102 above the limit, and that many are reached: 100 for the messages in the channel, one for the message that the
  counting goroutine has taken and not counted yet, and one because the test lets one too many in; 15001 counted
  connections are possible for that reason.  The counter lags behind: it can be 0 while a connection is served, and
  the loop in which \<^verbatim>\<open>StopLocalServer\<close> waits for the connections ends then.\<close>

theorem connections_counted:
  "(\<forall>s. count_reach s \<longrightarrow>
      (on_the_way s = [] \<and> ending s = 0 \<longrightarrow> current_connctions s = int (serving s))
      \<and> int (serving s) \<le> MAX_CONNECTIONS + 102)
   \<and> (\<exists>s. count_reach s \<and> int (serving s) = MAX_CONNECTIONS + 102)
   \<and> (\<exists>s. count_reach s \<and> on_the_way s = [] \<and> int (serving s) = MAX_CONNECTIONS + 1)
   \<and> (\<exists>s. count_reach s \<and> current_connctions s = 0 \<and> 0 < serving s)"
proof (intro conjI allI impI)
  fix s assume "count_reach s"
  then have inv: "count_inv s" by (rule count_inv_reach)
  then show "int (serving s) \<le> MAX_CONNECTIONS + 102" by (simp add: count_inv_def counter_capacity_def split: if_splits)
  assume "on_the_way s = [] \<and> ending s = 0"
  with inv show "current_connctions s = int (serving s)" by (simp add: count_inv_def)
next
  show "\<exists>s. count_reach s \<and> int (serving s) = MAX_CONNECTIONS + 102" by (rule most_connections)
next
  have "count_reach (counted 15001)" by (rule reach_counted) (simp add: MAX_CONNECTIONS_def)
  then show "\<exists>s. count_reach s \<and> on_the_way s = [] \<and> int (serving s) = MAX_CONNECTIONS + 1"
    by (intro exI [of _ "counted 15001"]) (simp add: counted_def on_the_way_def no_connections_def MAX_CONNECTIONS_def)
next
  have "count_reach (no_connections\<lparr>serving := Suc (serving no_connections), acceptor := Announcing\<rparr>)"
    by (rule accept_one) (simp_all add: no_connections_def MAX_CONNECTIONS_def)
  then show "\<exists>s. count_reach s \<and> current_connctions s = 0 \<and> 0 < serving s"
    by (intro exI [of _ "no_connections\<lparr>serving := Suc (serving no_connections), acceptor := Announcing\<rparr>"]) (simp add: no_connections_def)
qed

theorem connections_counted_witness:
  "\<exists>s. count_reach s \<and> serving s = 3 \<and> current_connctions s = int (serving s) \<and> int (serving s) \<le> MAX_CONNECTIONS + 102"
proof -
  have "count_reach (counted 3)" by (rule reach_counted) (simp add: MAX_CONNECTIONS_def)
  with connections_counted [THEN conjunct1, rule_format, of "counted 3"] show ?thesis
    by (intro exI [of _ "counted 3"]) (simp add: counted_def on_the_way_def no_connections_def)
qed

section \<open>Taking over the socket\<close>

text \<open>
  An instance that starts afresh removes the file of an earlier socket and listens at the address if it
  can create the file; one that is started by a restart takes over the descriptor and needs the file.
\<close>

lemma StartLocalServer_fresh:
  assumes "goos \<noteq> ''windows''" and "restart \<noteq> ''1''" and "m_writable M (listen_addr c)"
  shows "\<exists>L' M'. StartLocalServer N goos restart c L M = (Ok (), L', M')
    \<and> server L' = UnixListener (listen_addr c) \<and> mget (m_files M') (listen_addr c) = Some []
    \<and> (\<forall>f. f \<noteq> listen_addr c \<longrightarrow> mget (m_files M') f = mget (m_files M) f)"
  using assms
  by (simp add: StartLocalServer_def open_server_def listen_unix_def Chmod_def WriteFile_def Remove_def open_console_def Let_def
      split: option.splits)

lemma StartLocalServer_restart:
  assumes "goos \<noteq> ''windows''" and "file_listener N = Ok l"
  shows "fst (StartLocalServer N goos ''1'' c L M) = Ok () \<longleftrightarrow> mget (m_files M) (listen_addr c) \<noteq> None"
  using assms by (simp add: StartLocalServer_def open_server_def Chmod_def Let_def)

end
