(* ===== verification/Instance.thy ===== *)
theory Instance
  imports Listener LevelDb
begin

text \<open>
  A running instance of the client and the signals it handles (\<^verbatim>\<open>proc/proc_control.go\<close>: \<^verbatim>\<open>ProcessSysSignal\<close>, \<^verbatim>\<open>Stop\<close>,
  \<^verbatim>\<open>SafeStop\<close>).  \<^verbatim>\<open>StopLocalServer\<close> waits until the connections have ended (\<^verbatim>\<open>StopServer\<close> shows when it does),
  and a second call waits for ever.
\<close>

record 'd inst =
  i_pid :: int
  i_uid :: int
  i_debug :: bool
  i_listeners :: listeners
  i_db :: "'d ldb"
  masterCommCh :: bool
  exited :: bool

text \<open>
  What the instance meets: the sockets, the database engine, whether the connections end when they are asked to,
  the start of a new process, and what happens on the machine in two seconds.
\<close>

record 'd surroundings =
  socks :: sockets
  db_engine :: "'d engine"
  conns_end :: bool
  cmd_Start :: "machine \<Rightarrow> (int \<times> machine) res"
  two_seconds :: "machine \<Rightarrow> machine"

text \<open>The stopping calls tell whether they return.\<close>

definition StopLocalServer :: "'d surroundings \<Rightarrow> 'd inst \<Rightarrow> bool \<times> 'd inst" where
  "StopLocalServer S i = (if masterCommCh i then (False, i) else (conns_end S, i\<lparr>masterCommCh := True\<rparr>))"

definition SafeStop :: "'d surroundings \<Rightarrow> 'd inst \<Rightarrow> bool \<times> 'd inst" where
  "SafeStop S i =
     (case StopLocalServer S i of
        (False, i1) \<Rightarrow> (False, i1)
      | (True, i1) \<Rightarrow> (True, i1\<lparr>i_db := Close (db_engine S) (i_db i1)\<rparr>))"

definition Stop :: "'d surroundings \<Rightarrow> Config \<Rightarrow> 'd inst \<Rightarrow> machine \<Rightarrow> bool \<times> 'd inst \<times> machine" where
  "Stop S c i M =
     (case SafeStop S i of
        (False, i1) \<Rightarrow> (False, i1, M)
      | (True, i1) \<Rightarrow>
          (True, i1, RemovePid c (if RunAsBi c then Remove (ListenAddrTransi c) M else Remove (ListenAddr c) M)))"

text \<open>The restart: the new process gets the listening socket and the variable \<^verbatim>\<open>RESTART=1\<close>.\<close>

definition hand_over :: "'d surroundings \<Rightarrow> 'd inst \<Rightarrow> machine \<Rightarrow> 'd inst \<times> machine" where
  "hand_over S i M =
     (case GetLocalServerFd (socks S) (i_listeners i) of
        Ok rpcFd \<Rightarrow>
          (let i1 = i\<lparr>i_listeners := StopConsole (socks S) (StopPProf (socks S) (i_listeners i))\<rparr>
           in case cmd_Start S M of
                Ok (child, M1) \<Rightarrow>
                  (let M2 = two_seconds S M1
                   in case FindProcess child of
                        Ok p \<Rightarrow>
                          (if fst (Signal (i_uid i) p SIG0 M2) \<noteq> None then (i1, M2)
                           else (case SafeStop S i1 of (returns, i2) \<Rightarrow> (if returns then i2\<lparr>exited := True\<rparr> else i2, M2)))
                      | _ \<Rightarrow> (i1, M2))
              | _ \<Rightarrow> (i1, M))
      | _ \<Rightarrow> (i, M))"

definition ProcessSysSignal :: "'d surroundings \<Rightarrow> Config \<Rightarrow> signal \<Rightarrow> 'd inst \<Rightarrow> machine \<Rightarrow> 'd inst \<times> machine" where
  "ProcessSysSignal S c sig i M =
     (if sig \<in> {SIGQUIT, SIGTERM, SIGINT} then
        (case Stop S c i M of (returns, i1, M1) \<Rightarrow> (if returns then i1\<lparr>exited := True\<rparr> else i1, M1))
      else if sig = SIGALRM \<or> sig = SIGUSR1 then (i, M)
      else if sig = SIGHUP then (i\<lparr>i_debug := \<not> i_debug i\<rparr>, M)
      else if sig = SIGUSR2 then hand_over S i M
      else (i, M))"

lemmas stop_defs = StopLocalServer_def SafeStop_def Stop_def RemovePid_def Remove_def

lemma m_files_Remove [simp]: "mget (m_files (Remove f M)) g = (if g = f then None else mget (m_files M) g)"
  by (simp add: Remove_def)

section \<open>Signals\<close>

lemma kill_targets_in: "0 < pid \<Longrightarrow> mget (m_procs M) pid = Some p \<Longrightarrow> (pid, p) \<in> set (kill_targets pid M)"
  by (auto simp: kill_targets_def dest: map_of_SomeD)

lemma Signal_present:
  assumes "0 < pid" and "mget (m_procs M) pid = Some p" and "may_signal uid p"
  shows "fst (Signal uid pid sig M) = None"
proof -
  have "(pid, p) \<in> set (filter (\<lambda>(q, p). may_signal uid p) (kill_targets pid M))"
    using kill_targets_in [OF assms(1,2)] assms(3) by simp
  then have "kill_targets pid M \<noteq> []" "filter (\<lambda>(q, p). may_signal uid p) (kill_targets pid M) \<noteq> []" by force+
  then show ?thesis using assms(1) by (simp add: Signal_def Let_def)
qed

lemma Signal_absent:
  assumes "0 < pid" and "mget (m_procs M) pid = None"
  shows "fst (Signal uid pid sig M) \<noteq> None"
proof -
  have "kill_targets pid M = []" using assms by (force simp: kill_targets_def map_of_eq_None_iff filter_empty_conv)
  then show ?thesis using assms(1) by (simp add: Signal_def)
qed

text \<open>A pid that was saved is read back.\<close>

lemma visible_digit: "is_digit ch \<Longrightarrow> visible ch"
  by (auto simp: is_digit_def visible_def ascii_space_def Let_def)

lemma GetPid_written:
  assumes "mget (m_files M) (PidFile c) = Some (Itoa pid)" and "0 < pid" and "pid < 2 ^ 63"
  shows "GetPid c M = Ok pid"
proof -
  have "list_all is_digit (Itoa pid)" "Itoa pid \<noteq> []" using assms(2) nat_digits_digits by (simp_all add: Itoa_def)
  then have "TrimSpace (Itoa pid) = Itoa pid"
    by (intro TrimSpace_id) (simp add: visible_digit list_all_iff)
  moreover have "Atoi (Itoa pid) = Ok pid" using assms(2,3) by (intro Atoi_Itoa) auto
  ultimately show ?thesis using assms(1) by (simp add: GetPid_def ReadFile_def)
qed

lemma SavePid_GetPid:
  "SavePid c pid M = (None, M') \<Longrightarrow> 0 < pid \<Longrightarrow> pid < 2 ^ 63 \<Longrightarrow> GetPid c M' = Ok pid"
  by (rule GetPid_written) (auto simp: SavePid_def WriteFile_def split: if_splits)

text \<open>The restart checks whether the new process is alive before the old instance stops.  The check succeeds for every
  process that is in the process table, also for one that has ended: nobody has waited for the
  child, so it is a zombie there.  The old instance then stops and leaves the machine without a service.\<close>

lemma restart_ignores_dead_child:
  assumes "GetLocalServerFd (socks S) (i_listeners i) = Ok fd" and "cmd_Start S M = Ok (child, M1)" and "0 < child"
    and "mget (m_procs (two_seconds S M1)) child = Some p" and "p_uid p = i_uid i"
    and "conns_end S" and "\<not> masterCommCh i"
  shows "exited (fst (ProcessSysSignal S c SIGUSR2 i M)) \<and> snd (ProcessSysSignal S c SIGUSR2 i M) = two_seconds S M1"
proof -
  have "fst (Signal (i_uid i) child SIG0 (two_seconds S M1)) = None"
    using assms(3,4,5) by (intro Signal_present) (auto simp: may_signal_def)
  with assms show ?thesis
    by (simp add: ProcessSysSignal_def hand_over_def FindProcess_def SafeStop_def StopLocalServer_def Let_def)
qed

end
