(* ===== verification/Instances.thy ===== *)
theory Instances
  imports Instance Steps
begin

text \<open>
  Several instances of the client on one machine (\<^verbatim>\<open>main.go\<close>, \<^verbatim>\<open>proc/proc_control.go\<close>) as a transition system: they are
  started, restarted and stopped by commands, and may end by themselves.  The pid file is what they have
  in common.  An instance that \<^verbatim>\<open>main\<close> starts has looked at the pid file but not yet written its own pid; it serves; or it
  has started a successor and goes on serving for two seconds before it checks the successor and stops.  Every signal is handled by a
  goroutine of its own, so an instance that hands over can start further successors.
\<close>

datatype stage = Checked | Serving | Handing "int list"

record site =
  mach :: machine
  stage :: "int \<Rightarrow> stage option"

section \<open>The process table\<close>

definition spawn :: "int \<Rightarrow> int \<Rightarrow> int \<Rightarrow> machine \<Rightarrow> machine" where
  "spawn pid uid parent M =
     M\<lparr>m_procs := mset (m_procs M) pid \<lparr>p_uid = uid, p_group = pid, p_parent = parent, zombie = False\<rparr>\<rparr>"

text \<open>
  The end of a process: it becomes a zombie if its parent, which does not wait for it, is running, and vanishes
  otherwise; its own children get the parent 1, which removes those that are zombies.
\<close>

definition parent_lives :: "int \<Rightarrow> machine \<Rightarrow> bool" where
  "parent_lives pid M =
     (case mget (m_procs M) pid of
        None \<Rightarrow> False
      | Some p \<Rightarrow> p_parent p \<noteq> 1 \<and> (case mget (m_procs M) (p_parent p) of None \<Rightarrow> False | Some q \<Rightarrow> \<not> zombie q))"

definition after_exit :: "int \<Rightarrow> bool \<Rightarrow> int \<Rightarrow> process \<Rightarrow> process option" where
  "after_exit pid keep q p =
     (if q = pid then (if keep then Some (p\<lparr>zombie := True\<rparr>) else None)
      else if p_parent p = pid then (if zombie p then None else Some (p\<lparr>p_parent := 1\<rparr>))
      else Some p)"

definition exit_proc :: "int \<Rightarrow> machine \<Rightarrow> machine" where
  "exit_proc pid M =
     M\<lparr>m_procs := List.map_filter (\<lambda>(q, p). map_option (Pair q) (after_exit pid (parent_lives pid M) q p)) (m_procs M)\<rparr>"

lemma mget_map_filter:
  "wf_map m \<Longrightarrow> mget (List.map_filter (\<lambda>(k, v). map_option (Pair k) (g k v)) m) k = Option.bind (mget m k) (g k)"
proof (induction m)
  case Nil
  then show ?case by (simp add: map_filter_simps)
next
  case (Cons e m)
  obtain a b where e: "e = (a, b)" by (cases e)
  with Cons.prems have "a \<notin> fst ` set m" "wf_map m" by (simp_all add: wf_map_def)
  then show ?case using Cons.IH e by (cases "g a b") (auto simp: map_filter_simps mget_NoneI)
qed

lemma wf_map_filter: "wf_map m \<Longrightarrow> wf_map (List.map_filter (\<lambda>(k, v). map_option (Pair k) (g k v)) m)"
proof (induction m)
  case (Cons e m)
  obtain a b where e: "e = (a, b)" by (cases e)
  have "fst ` set (List.map_filter (\<lambda>(k, v). map_option (Pair k) (g k v)) m) \<subseteq> fst ` set m"
    by (force simp: List.map_filter_def)
  then show ?case using Cons e by (cases "g a b") (auto simp: map_filter_simps wf_map_def)
qed (simp add: map_filter_simps)

lemma exit_proc_procs:
  "wf_map (m_procs M) \<Longrightarrow> mget (m_procs (exit_proc pid M)) q = Option.bind (mget (m_procs M) q) (after_exit pid (parent_lives pid M) q)"
  by (simp add: exit_proc_def mget_map_filter)

lemma exit_proc_wf [simp]: "wf_map (m_procs M) \<Longrightarrow> wf_map (m_procs (exit_proc pid M))"
  by (simp add: exit_proc_def wf_map_filter)

lemma exit_proc_files [simp]: "m_files (exit_proc pid M) = m_files M"
  by (simp add: exit_proc_def)

section \<open>The steps\<close>

text \<open>A pid that the system can give to a new process.\<close>

definition fresh_pid :: "int \<Rightarrow> machine \<Rightarrow> bool" where
  "fresh_pid pid M \<longleftrightarrow> 1 < pid \<and> pid < 2 ^ 22 \<and> mget (m_procs M) pid = None"

text \<open>
  \<^verbatim>\<open>main\<close> compares the status with \<^verbatim>\<open>running\<close>, unless the variable \<^verbatim>\<open>RESTART\<close> is set, and saves the pid.  The files that \<^verbatim>\<open>Stop\<close>
  removes are the socket and the pid file.
\<close>

definition remove_files :: "Config \<Rightarrow> machine \<Rightarrow> machine" where
  "remove_files c M = RemovePid c (if RunAsBi c then Remove (ListenAddrTransi c) M else Remove (ListenAddr c) M)"

inductive inst_step :: "Config \<Rightarrow> int \<Rightarrow> site \<Rightarrow> site \<Rightarrow> bool" for c uid where
  is_start: "fresh_pid p (mach w) \<Longrightarrow> fst (Status c uid (mach w)) \<noteq> ''running''
    \<Longrightarrow> inst_step c uid w \<lparr>mach = spawn p uid 1 (mach w), stage = (stage w)(p \<mapsto> Checked)\<rparr>"
| is_save: "stage w p = Some Checked \<Longrightarrow> SavePid c p (mach w) = (None, M)
    \<Longrightarrow> inst_step c uid w \<lparr>mach = M, stage = (stage w)(p \<mapsto> Serving)\<rparr>"
| is_restart: "stage w p = Some Serving \<Longrightarrow> fresh_pid q (mach w)
    \<Longrightarrow> inst_step c uid w \<lparr>mach = spawn q uid p (mach w), stage = (stage w)(p \<mapsto> Handing [q], q \<mapsto> Checked)\<rparr>"
| is_restart_again: "stage w p = Some (Handing qs) \<Longrightarrow> fresh_pid q (mach w)
    \<Longrightarrow> inst_step c uid w \<lparr>mach = spawn q uid p (mach w), stage = (stage w)(p \<mapsto> Handing (q # qs), q \<mapsto> Checked)\<rparr>"
| is_handover: "stage w p = Some (Handing qs) \<Longrightarrow> q \<in> set qs \<Longrightarrow> fst (Signal uid q SIG0 (mach w)) = None
    \<Longrightarrow> inst_step c uid w \<lparr>mach = exit_proc p (mach w), stage = (stage w)(p := None)\<rparr>"
| is_restart_fails: "stage w p = Some (Handing qs) \<Longrightarrow> q \<in> set qs \<Longrightarrow> fst (Signal uid q SIG0 (mach w)) \<noteq> None
    \<Longrightarrow> inst_step c uid w (w\<lparr>stage := (stage w)(p \<mapsto> (if removeAll q qs = [] then Serving else Handing (removeAll q qs)))\<rparr>)"
| is_quit: "stage w p = Some st \<Longrightarrow> st \<noteq> Checked
    \<Longrightarrow> inst_step c uid w \<lparr>mach = exit_proc p (remove_files c (mach w)), stage = (stage w)(p := None)\<rparr>"
| is_crash: "stage w p = Some st
    \<Longrightarrow> inst_step c uid w \<lparr>mach = exit_proc p (mach w), stage = (stage w)(p := None)\<rparr>"

inductive_cases inst_stepE: "inst_step c uid w w'"

text \<open>A machine on which no instance runs.\<close>

definition no_instance :: "site \<Rightarrow> bool" where
  "no_instance w \<longleftrightarrow> stage w = Map.empty \<and> wf_map (m_procs (mach w))"

section \<open>Processes of instances\<close>

text \<open>
  An instance is a process that has not ended; a successor of an instance stays in the process table as
  long as the instance, its parent, is there.
\<close>

definition base_inv :: "int \<Rightarrow> site \<Rightarrow> bool" where
  "base_inv uid w \<longleftrightarrow> wf_map (m_procs (mach w))
     \<and> (\<forall>q st. stage w q = Some st \<longrightarrow> 1 < q \<and> q < 2 ^ 22
          \<and> (\<exists>pr. mget (m_procs (mach w)) q = Some pr \<and> \<not> zombie pr \<and> p_uid pr = uid))
     \<and> (\<forall>p qs. stage w p = Some (Handing qs) \<longrightarrow> (\<forall>q \<in> set qs. 1 < q
          \<and> (\<exists>pr. mget (m_procs (mach w)) q = Some pr \<and> p_parent pr = p \<and> p_uid pr = uid)))"

lemma base_invD:
  assumes "base_inv uid w"
  shows "wf_map (m_procs (mach w))"
    and "stage w q = Some st \<Longrightarrow> 1 < q \<and> q < 2 ^ 22 \<and> (\<exists>pr. mget (m_procs (mach w)) q = Some pr \<and> \<not> zombie pr \<and> p_uid pr = uid)"
    and "stage w p = Some (Handing qs) \<Longrightarrow> q \<in> set qs \<Longrightarrow> 1 < q \<and> (\<exists>pr. mget (m_procs (mach w)) q = Some pr \<and> p_parent pr = p \<and> p_uid pr = uid)"
  using assms unfolding base_inv_def by blast+

lemma fresh_no_stage: "base_inv uid w \<Longrightarrow> fresh_pid p (mach w) \<Longrightarrow> stage w p = None"
  using base_invD(2) [of uid w p] by (cases "stage w p") (auto simp: fresh_pid_def)

lemma fresh_no_child: "base_inv uid w \<Longrightarrow> fresh_pid p (mach w) \<Longrightarrow> stage w r = Some (Handing qs) \<Longrightarrow> p \<notin> set qs"
  using base_invD(3) [of uid w r qs p] by (auto simp: fresh_pid_def)

lemma base_inv_exit:
  assumes inv: "base_inv uid w" and procs: "m_procs M = m_procs (mach w)" and "stage w p = Some st"
  shows "base_inv uid \<lparr>mach = exit_proc p M, stage = (stage w)(p := None)\<rparr>"
proof -
  have wf: "wf_map (m_procs M)" using base_invD(1) [OF inv] procs by simp
  have live: "1 < q \<and> q < 2 ^ 22 \<and> (\<exists>pr. mget (m_procs (exit_proc p M)) q = Some pr \<and> \<not> zombie pr \<and> p_uid pr = uid)"
    if "stage w q = Some t" "q \<noteq> p" for q t
    using base_invD(2) [OF inv that(1)] that(2) by (auto simp: exit_proc_procs [OF wf] procs after_exit_def)
  have child: "1 < q \<and> (\<exists>pr. mget (m_procs (exit_proc p M)) q = Some pr \<and> p_parent pr = r \<and> p_uid pr = uid)"
    if h: "stage w r = Some (Handing qs)" "r \<noteq> p" "q \<in> set qs" for r qs q
  proof -
    obtain pr where pr: "1 < q" "mget (m_procs M) q = Some pr" "p_parent pr = r" "p_uid pr = uid"
      using base_invD(3) [OF inv h(1,3)] procs by auto
    have "parent_lives p M" if "q = p"
      using base_invD(2) [OF inv h(1)] pr that procs by (auto simp: parent_lives_def)
    then show ?thesis using pr h(2) by (auto simp: exit_proc_procs [OF wf] after_exit_def)
  qed
  show ?thesis using wf live child by (auto simp: base_inv_def split: if_splits)
qed

lemma base_inv_spawn:
  assumes inv: "base_inv uid w" and fresh: "fresh_pid q (mach w)"
    and stages: "\<And>r st. stage' r = Some st \<Longrightarrow> r \<noteq> q \<Longrightarrow> \<exists>t. stage w r = Some t"
    and hands: "\<And>r ss s. stage' r = Some (Handing ss) \<Longrightarrow> s \<in> set ss
      \<Longrightarrow> (\<exists>ts. stage w r = Some (Handing ts) \<and> s \<in> set ts) \<or> s = q \<and> r = parent"
  shows "base_inv uid \<lparr>mach = spawn q uid parent (mach w), stage = stage'\<rparr>"
proof -
  let ?new = "\<lparr>p_uid = uid, p_group = q, p_parent = parent, zombie = False\<rparr>"
  have procs: "mget (m_procs (spawn q uid parent (mach w))) r = (if r = q then Some ?new else mget (m_procs (mach w)) r)" for r
    by (simp add: spawn_def)
  have pid: "1 < q" "q < 2 ^ 22" using fresh by (simp_all add: fresh_pid_def)
  have "1 < r \<and> r < 2 ^ 22 \<and> (\<exists>pr. mget (m_procs (spawn q uid parent (mach w))) r = Some pr \<and> \<not> zombie pr \<and> p_uid pr = uid)"
    if "stage' r = Some st" for r st
    using that stages [of r] base_invD(2) [OF inv, of r] pid by (cases "r = q") (auto simp: procs)
  moreover have "1 < s \<and> (\<exists>pr. mget (m_procs (spawn q uid parent (mach w))) s = Some pr \<and> p_parent pr = r \<and> p_uid pr = uid)"
    if "stage' r = Some (Handing ss)" "s \<in> set ss" for r ss s
    using hands [OF that] base_invD(3) [OF inv, of r _ s] fresh_no_child [OF inv fresh, of r] pid by (fastforce simp: procs)
  moreover have "wf_map (m_procs (spawn q uid parent (mach w)))" using base_invD(1) [OF inv] by (simp add: spawn_def)
  ultimately show ?thesis by (simp add: base_inv_def)
qed

lemma remove_files_procs [simp]: "m_procs (remove_files c M) = m_procs M"
  by (simp add: remove_files_def RemovePid_def Remove_def)

lemma SavePid_procs: "SavePid c p M = (e, M') \<Longrightarrow> m_procs M' = m_procs M"
  by (auto simp: SavePid_def WriteFile_def split: if_splits)

lemma base_inv_step: "inst_step c uid w w' \<Longrightarrow> base_inv uid w \<Longrightarrow> base_inv uid w'"
proof (induction rule: inst_step.induct)
  case (is_start p w)
  then show ?case by (intro base_inv_spawn) (auto split: if_splits)
next
  case (is_save w p M)
  then have "m_procs M = m_procs (mach w)" by (simp add: SavePid_procs)
  then show ?case using is_save base_invD [OF is_save(3)] by (auto simp: base_inv_def split: if_splits)
next
  case (is_restart w p q)
  then show ?case by (intro base_inv_spawn) (auto split: if_splits)
next
  case (is_restart_again w p qs q)
  then show ?case by (intro base_inv_spawn) (auto split: if_splits)
next
  case (is_restart_fails w p qs q)
  note inv = base_invD [OF is_restart_fails(4)]
  have "1 < r \<and> (\<exists>pr. mget (m_procs (mach w)) r = Some pr \<and> p_parent pr = p \<and> p_uid pr = uid)" if "r \<in> set (removeAll q qs)" for r
    using inv(3) [OF is_restart_fails(1), of r] that by simp
  then show ?case using inv is_restart_fails(1) by (auto simp: base_inv_def split: if_splits)
qed (auto intro: base_inv_exit)

interpretation on_site: reachable_invariant "inst_step c uid" "base_inv uid" no_instance for c uid
  by unfold_locales (rule base_inv_step, simp_all add: no_instance_def base_inv_def)

lemma base_inv_reach: "(inst_step c uid)\<^sup>*\<^sup>* w0 w \<Longrightarrow> no_instance w0 \<Longrightarrow> base_inv uid w"
  by (rule on_site.inv_reach)

lemma successor_signalled:
  "base_inv uid w \<Longrightarrow> stage w p = Some (Handing qs) \<Longrightarrow> q \<in> set qs \<Longrightarrow> fst (Signal uid q SIG0 (mach w)) = None"
  using base_invD(3) [of uid w p qs q] by (auto intro!: Signal_present simp: may_signal_def)

section \<open>One instance\<close>

text \<open>
  Orderly use: no instance is started between the check and the saving of another one, the pid file is
  removed only by the instance that it names, and an instance that hands over gets a further signal to restart only while the pid
  file names it (the commands \<^verbatim>\<open>stop\<close> and \<^verbatim>\<open>restart\<close> send their signals there).
\<close>

definition orderly :: "Config \<Rightarrow> int \<Rightarrow> site \<Rightarrow> site \<Rightarrow> bool" where
  "orderly c uid w w' \<longleftrightarrow> inst_step c uid w w'
     \<and> ((\<exists>q. stage w q = Some Checked) \<longrightarrow> (\<forall>p. stage w' p = Some Checked \<longrightarrow> stage w p = Some Checked))
     \<and> (\<forall>q. GetPid c (mach w) = Ok q \<and> mget (m_files (mach w')) (PidFile c) = None \<longrightarrow> stage w' q = None)
     \<and> (\<forall>p qs qs'. stage w p = Some (Handing qs) \<and> stage w' p = Some (Handing qs') \<and> length qs < length qs' \<longrightarrow> GetPid c (mach w) = Ok p)"






lemma spawn_files [simp]: "m_files (spawn p uid q M) = m_files M"
  by (simp add: spawn_def)






text \<open>A start from scratch.\<close>

definition idle_machine :: machine where
  "idle_machine = \<lparr>m_files = [], m_procs = [], m_signals = [], m_writable = (\<lambda>_. True)\<rparr>"

definition pid_config :: Config where
  "pid_config = zero_config\<lparr>PidFile := ''p''\<rparr>"

definition started :: "int \<Rightarrow> site" where
  "started p = \<lparr>mach = snd (SavePid pid_config p (spawn p 7 1 idle_machine)), stage = [p \<mapsto> Serving]\<rparr>"

lemma reach_started:
  assumes "1 < p" and "p < 2 ^ 22"
  shows "(orderly pid_config 7)\<^sup>*\<^sup>* \<lparr>mach = idle_machine, stage = Map.empty\<rparr> (started p)"
proof -
  let ?w0 = "\<lparr>mach = idle_machine, stage = Map.empty\<rparr>"
  let ?w1 = "\<lparr>mach = spawn p 7 1 idle_machine, stage = [p \<mapsto> Checked]\<rparr>"
  have st: "fst (Status pid_config 7 idle_machine) \<noteq> ''running''"
    by (simp add: Status_def GetPid_def ReadFile_def idle_machine_def)
  have "inst_step pid_config 7 ?w0 ?w1"
    using is_start [of p ?w0 pid_config 7] assms st by (simp add: fresh_pid_def idle_machine_def)
  then have "orderly pid_config 7 ?w0 ?w1"
    by (simp add: orderly_def GetPid_def ReadFile_def idle_machine_def)
  moreover have "inst_step pid_config 7 ?w1 (started p)"
    using is_save [of ?w1 p pid_config "mach (started p)" 7]
    by (simp add: SavePid_def WriteFile_def spawn_def idle_machine_def started_def)
  then have "orderly pid_config 7 ?w1 (started p)"
    by (simp add: orderly_def GetPid_def ReadFile_def idle_machine_def spawn_def started_def split: if_splits)
  ultimately show ?thesis by (meson r_into_rtranclp rtranclp.rtrancl_into_rtrancl)
qed

lemma started_reach:
  assumes "1 < p" and "p < 2 ^ 22"
  shows "(inst_step pid_config 7)\<^sup>*\<^sup>* \<lparr>mach = idle_machine, stage = Map.empty\<rparr> (started p)"
  by (rule rtranclp_mono [THEN predicate2D, OF _ reach_started [OF assms]]) (auto simp: orderly_def)




text \<open>C24: the restart checks whether its successor is alive before the old instance stops.  The check never fails, whatever happened to the
  successor: it is a child of the old instance, which does not wait for it, so it is still in the process
  table after its end, and a signal to it succeeds.  A successor that ends at once leaves the machine without a service, from every
  state in which one instance serves.\<close>

theorem restart_check_never_fails:
  assumes "no_instance w0" and "(inst_step c uid)\<^sup>*\<^sup>* w0 w"
  shows "(\<forall>p qs q. stage w p = Some (Handing qs) \<and> q \<in> set qs \<longrightarrow> fst (Signal uid q SIG0 (mach w)) = None)
    \<and> (\<forall>p q. stage w = [p \<mapsto> Serving] \<and> fresh_pid q (mach w) \<longrightarrow>
        (\<exists>w1 w2 w3. inst_step c uid w w1 \<and> stage w1 p = Some (Handing [q]) \<and> inst_step c uid w1 w2
           \<and> inst_step c uid w2 w3 \<and> stage w3 = Map.empty \<and> m_files (mach w3) = m_files (mach w)))"
proof (intro conjI allI impI)
  have inv: "base_inv uid w" using base_inv_reach assms by blast
  show "fst (Signal uid q SIG0 (mach w)) = None" if "stage w p = Some (Handing qs) \<and> q \<in> set qs" for p qs q
    using successor_signalled [OF inv] that by blast
  fix p q
  assume s: "stage w = [p \<mapsto> Serving] \<and> fresh_pid q (mach w)"
  then have "q \<noteq> p" using fresh_no_stage [OF inv, of q] by auto
  let ?w1 = "\<lparr>mach = spawn q uid p (mach w), stage = [p \<mapsto> Handing [q], q \<mapsto> Checked]\<rparr>"
  let ?w2 = "\<lparr>mach = exit_proc q (mach ?w1), stage = [p \<mapsto> Handing [q]]\<rparr>"
  let ?w3 = "\<lparr>mach = exit_proc p (mach ?w2), stage = Map.empty\<rparr>"
  have 1: "inst_step c uid w ?w1" using is_restart [of w p q c uid] s by simp
  have "(stage ?w1)(q := None) = [p \<mapsto> Handing [q]]" using \<open>q \<noteq> p\<close> by (auto simp: fun_eq_iff)
  then have 2: "inst_step c uid ?w1 ?w2" using is_crash [of ?w1 q Checked c uid] by simp
  have "base_inv uid ?w2" using base_inv_step [OF 2 base_inv_step [OF 1 inv]] .
  then have "fst (Signal uid q SIG0 (mach ?w2)) = None" using successor_signalled [of uid ?w2 p "[q]" q] by simp
  then have 3: "inst_step c uid ?w2 ?w3" using is_handover [of ?w2 p "[q]" q uid c] by simp
  have "stage ?w1 p = Some (Handing [q])" using \<open>q \<noteq> p\<close> by simp
  with 1 2 3 show "\<exists>w1 w2 w3. inst_step c uid w w1 \<and> stage w1 p = Some (Handing [q]) \<and> inst_step c uid w1 w2
           \<and> inst_step c uid w2 w3 \<and> stage w3 = Map.empty \<and> m_files (mach w3) = m_files (mach w)"
    by (intro exI [of _ ?w1] exI [of _ ?w2] exI [of _ ?w3]) simp
qed

theorem restart_check_never_fails_witness:
  "\<exists>w1 w2 w3. inst_step pid_config 7 (started 5) w1 \<and> stage w1 5 = Some (Handing [6]) \<and> inst_step pid_config 7 w1 w2
     \<and> inst_step pid_config 7 w2 w3 \<and> stage w3 = Map.empty \<and> m_files (mach w3) = m_files (mach (started 5))"
proof -
  have "(inst_step pid_config 7)\<^sup>*\<^sup>* \<lparr>mach = idle_machine, stage = Map.empty\<rparr> (started 5)" by (rule started_reach) simp_all
  moreover have "no_instance \<lparr>mach = idle_machine, stage = Map.empty\<rparr>" by (simp add: no_instance_def idle_machine_def)
  ultimately have all: "\<forall>p q. stage (started 5) = [p \<mapsto> Serving] \<and> fresh_pid q (mach (started 5)) \<longrightarrow>
        (\<exists>w1 w2 w3. inst_step pid_config 7 (started 5) w1 \<and> stage w1 p = Some (Handing [q]) \<and> inst_step pid_config 7 w1 w2
           \<and> inst_step pid_config 7 w2 w3 \<and> stage w3 = Map.empty \<and> m_files (mach w3) = m_files (mach (started 5)))"
    using restart_check_never_fails by blast
  have "stage (started 5) = [5 \<mapsto> Serving]" by (simp add: started_def)
  moreover have "fresh_pid 6 (mach (started 5))"
    by (simp add: fresh_pid_def started_def SavePid_def WriteFile_def spawn_def idle_machine_def)
  ultimately show ?thesis by (intro all [rule_format] conjI)
qed

end
