(* ===== verification/Fcgi.thy ===== *)
theory Fcgi
  imports Binary GoStrings
begin

text \<open>
  \<^verbatim>\<open>callbacks/fcgiclient/fcgiclient.go\<close>: the FastCGI client that clears the cache of the PHP server.  A
  record is a header of 8 bytes, its content, and padding up to a multiple of 8; parameters are pairs of
  strings with their lengths in front, written through a buffer.  What has been written to the connection
  is \<open>fc_out\<close>; \<open>werr i\<close> is the error of its \<open>i\<close>-th write.  Reading takes from the bytes that
  the server sends before it closes.
\<close>

unbundle bit_operations_syntax

definition FCGI_BEGIN_REQUEST :: byte where "FCGI_BEGIN_REQUEST = 1"
definition FCGI_END_REQUEST :: byte where "FCGI_END_REQUEST = 3"
definition FCGI_PARAMS :: byte where "FCGI_PARAMS = 4"
definition FCGI_STDIN :: byte where "FCGI_STDIN = 5"
definition FCGI_RESPONDER :: byte where "FCGI_RESPONDER = 1"
definition maxWrite :: nat where "maxWrite = 6553500"

section \<open>Records\<close>

record header =
  h_Version :: byte
  h_Type :: byte
  h_Id :: u16
  ContentLength :: u16
  PaddingLength :: byte
  h_Reserved :: byte

text \<open>The field \<^verbatim>\<open>Reserved\<close> keeps what it was: zero.\<close>

definition header_init :: "byte \<Rightarrow> u16 \<Rightarrow> nat \<Rightarrow> header" where
  "header_init recType reqId contentLength =
     \<lparr>h_Version = 1, h_Type = recType, h_Id = reqId, ContentLength = of_nat contentLength,
      PaddingLength = of_int ((- int contentLength) AND 7), h_Reserved = 0\<rparr>"

definition header_bytes :: "header \<Rightarrow> byte list" where
  "header_bytes h =
     [h_Version h, h_Type h] @ PutUint16 (h_Id h) @ PutUint16 (ContentLength h) @ [PaddingLength h, h_Reserved h]"

record fcgi =
  fc_out :: "byte list"
  fc_writes :: nat

definition record_bytes :: "byte \<Rightarrow> u16 \<Rightarrow> byte list \<Rightarrow> byte list" where
  "record_bytes recType reqId content =
     (let h = header_init recType reqId (length content)
      in header_bytes h @ content @ replicate (unat (PaddingLength h)) 0)"

definition writeRecord ::
    "(nat \<Rightarrow> goerr option) \<Rightarrow> byte \<Rightarrow> u16 \<Rightarrow> byte list \<Rightarrow> fcgi \<Rightarrow> goerr option \<times> fcgi" where
  "writeRecord werr recType reqId content c =
     (case werr (fc_writes c) of
        Some e \<Rightarrow> (Some e, c\<lparr>fc_writes := Suc (fc_writes c)\<rparr>)
      | None \<Rightarrow> (None, c\<lparr>fc_out := fc_out c @ record_bytes recType reqId content, fc_writes := Suc (fc_writes c)\<rparr>))"

definition writeBeginRequest ::
    "(nat \<Rightarrow> goerr option) \<Rightarrow> u16 \<Rightarrow> u16 \<Rightarrow> byte \<Rightarrow> fcgi \<Rightarrow> goerr option \<times> fcgi" where
  "writeBeginRequest werr reqId role flags c =
     writeRecord werr FCGI_BEGIN_REQUEST reqId [ucast (drop_bit 8 role), ucast role, flags, 0, 0, 0, 0, 0] c"

definition writeEndRequest ::
    "(nat \<Rightarrow> goerr option) \<Rightarrow> u16 \<Rightarrow> int \<Rightarrow> byte \<Rightarrow> fcgi \<Rightarrow> goerr option \<times> fcgi" where
  "writeEndRequest werr reqId appStatus protocolStatus c =
     writeRecord werr FCGI_END_REQUEST reqId (PutUint32 (of_int appStatus) @ [protocolStatus, 0, 0, 0]) c"

definition rec_EOF :: goerr where "rec_EOF = ErrText ''EOF''"
definition rec_ErrUnexpectedEOF :: goerr where "rec_ErrUnexpectedEOF = ErrText ''unexpected EOF''"

text \<open>\<^verbatim>\<open>io.ReadFull\<close>\<close>

definition ReadFull :: "nat \<Rightarrow> byte list \<Rightarrow> (byte list \<times> byte list) res" where
  "ReadFull n inp =
     (if n \<le> length inp then Ok (take n inp, drop n inp)
      else if inp = [] then Err rec_EOF else Err rec_ErrUnexpectedEOF)"

text \<open>\<^verbatim>\<open>record.read\<close> and \<^verbatim>\<open>record.content\<close>.\<close>

definition read_record :: "byte list \<Rightarrow> ((header \<times> byte list) \<times> byte list) res" where
  "read_record inp =
     res_bind (ReadFull 8 inp) (\<lambda>(hb, rest).
       let h = \<lparr>h_Version = hb ! 0, h_Type = hb ! 1, h_Id = Uint16 (hb ! 2) (hb ! 3),
                ContentLength = Uint16 (hb ! 4) (hb ! 5), PaddingLength = hb ! 6, h_Reserved = hb ! 7\<rparr>
       in if h_Version h \<noteq> 1 then Err (ErrText ''fcgi: invalid header version'')
          else res_bind (ReadFull (unat (ContentLength h) + unat (PaddingLength h)) rest) (\<lambda>(buf, rest').
                 Ok ((h, take (unat (ContentLength h)) buf), rest')))"

section \<open>Names and values\<close>

definition encodeSize :: "u32 \<Rightarrow> byte list" where
  "encodeSize sz = (if sz > 127 then PutUint32 (sz OR push_bit 31 1) else [ucast sz])"

definition readSize :: "byte list \<Rightarrow> u32 \<times> nat" where
  "readSize s =
     (if length s = 0 then (0, 0)
      else let sz = (ucast (s ! 0) :: u32) in
           if sz AND push_bit 7 1 \<noteq> 0
           then (if length s < 4 then (0, 0)
                 else (Uint32 (s ! 0) (s ! 1) (s ! 2) (s ! 3) AND NOT (push_bit 31 1), 4))
           else (sz, 1))"

definition readString :: "byte list \<Rightarrow> u32 \<Rightarrow> byte list" where
  "readString s sz = (if sz > of_nat (length s) then [] else take (unat sz) s)"

text \<open>
  \<^verbatim>\<open>streamWriter.Write\<close>: records of at most \<open>maxWrite\<close> bytes.
\<close>

function stream_write ::
    "(nat \<Rightarrow> goerr option) \<Rightarrow> byte \<Rightarrow> u16 \<Rightarrow> byte list \<Rightarrow> fcgi \<Rightarrow> goerr option \<times> fcgi" where
  "stream_write werr recType reqId p c =
     (if p = [] then (None, c)
      else case writeRecord werr recType reqId (take maxWrite p) c of
             (Some e, c') \<Rightarrow> (Some e, c')
           | (None, c') \<Rightarrow> stream_write werr recType reqId (drop maxWrite p) c')"
  by pat_completeness auto
termination
  by (relation "measure (\<lambda>(werr, t, i, p, c). length p)") (auto simp: maxWrite_def)

declare stream_write.simps [simp del]

text \<open>
  The buffered writer: what a write hands on to the stream, and what stays in the buffer.  A write of
  bytes that do not fit goes past an empty buffer; a write of a string always goes through it.
\<close>

definition bufio_write :: "nat \<Rightarrow> byte list \<Rightarrow> byte list \<Rightarrow> byte list list \<times> byte list" where
  "bufio_write bsize buf p =
     (if length p \<le> bsize - length buf then ([], buf @ p)
      else if buf = [] then ([p], [])
      else let k = bsize - length buf; q = drop k p in
           if length q \<le> bsize then ([buf @ take k p], q) else ([buf @ take k p, q], []))"

function bufio_string :: "nat \<Rightarrow> byte list \<Rightarrow> byte list \<Rightarrow> byte list list \<times> byte list" where
  "bufio_string bsize buf s =
     (if bsize = 0 \<or> length s \<le> bsize - length buf then ([], buf @ s)
      else let k = bsize - length buf in
           case bufio_string bsize [] (drop k s) of (es, buf') \<Rightarrow> ((buf @ take k s) # es, buf'))"
  by pat_completeness auto
termination
  by (relation "measure (\<lambda>(bsize, buf, s). 2 * length s + length buf)") auto

declare bufio_string.simps [simp del]

fun emit ::
    "(nat \<Rightarrow> goerr option) \<Rightarrow> byte \<Rightarrow> u16 \<Rightarrow> byte list list \<Rightarrow> fcgi \<Rightarrow> goerr option \<times> fcgi" where
  "emit werr recType reqId [] c = (None, c)"
| "emit werr recType reqId (p # ps) c =
     (case stream_write werr recType reqId p c of
        (Some e, c') \<Rightarrow> (Some e, c')
      | (None, c') \<Rightarrow> emit werr recType reqId ps c')"

text \<open>
  \<^verbatim>\<open>writePairs\<close>, with the pairs in the order of the iteration over the map.  The error of closing is not
  looked at; an empty record ends the stream.
\<close>

definition size_bytes :: "byte list \<times> byte list \<Rightarrow> byte list" where
  "size_bytes kv = encodeSize (of_nat (length (fst kv))) @ encodeSize (of_nat (length (snd kv)))"

fun write_pairs_buf ::
    "(nat \<Rightarrow> goerr option) \<Rightarrow> byte \<Rightarrow> u16 \<Rightarrow> (byte list \<times> byte list) list \<Rightarrow> byte list \<Rightarrow> fcgi
     \<Rightarrow> (byte list + goerr) \<times> fcgi" where
  "write_pairs_buf werr recType reqId [] buf c = (Inl buf, c)"
| "write_pairs_buf werr recType reqId ((k, v) # pairs) buf c =
     (let (es1, buf1) = bufio_write maxWrite buf (size_bytes (k, v));
          (es2, buf2) = bufio_string maxWrite buf1 k;
          (es3, buf3) = bufio_string maxWrite buf2 v
      in case emit werr recType reqId (es1 @ es2 @ es3) c of
           (Some e, c') \<Rightarrow> (Inr e, c')
         | (None, c') \<Rightarrow> write_pairs_buf werr recType reqId pairs buf3 c')"

definition writePairs ::
    "(nat \<Rightarrow> goerr option) \<Rightarrow> byte \<Rightarrow> u16 \<Rightarrow> (byte list \<times> byte list) list \<Rightarrow> fcgi \<Rightarrow> goerr option \<times> fcgi" where
  "writePairs werr recType reqId pairs c =
     (case write_pairs_buf werr recType reqId pairs [] c of
        (Inr e, c') \<Rightarrow> (Some e, c')
      | (Inl buf, c') \<Rightarrow>
          (None, snd (writeRecord werr recType reqId [] (snd (stream_write werr recType reqId buf c')))))"

section \<open>The client\<close>

datatype fcgi_arg = ArgInt int | ArgString string | ArgOther

definition New :: "(string \<Rightarrow> string \<Rightarrow> 'c res) \<Rightarrow> string \<Rightarrow> fcgi_arg list \<Rightarrow> 'c res" where
  "New dial h args =
     (case args of
        [a] \<Rightarrow>
          (case a of
             ArgInt port \<Rightarrow> dial ''tcp'' (h @ '':'' @ Itoa port)
           | ArgString addr \<Rightarrow> dial ''unix'' addr
           | ArgOther \<Rightarrow> Err (ErrText ''fcgi: we only accept int (port) or string (socket) params.''))
      | _ \<Rightarrow> Err (ErrText ''fcgi: not enough params''))"

text \<open>What is written for a request, and the answer: the content of the first record.\<close>

definition write_request ::
    "(nat \<Rightarrow> goerr option) \<Rightarrow> (byte list \<times> byte list) list \<Rightarrow> byte list \<Rightarrow> fcgi \<Rightarrow> goerr option \<times> fcgi" where
  "write_request werr env_pairs reqStr c =
     (case writeBeginRequest werr 1 (ucast FCGI_RESPONDER) 0 c of
        (Some e, c1) \<Rightarrow> (Some e, c1)
      | (None, c1) \<Rightarrow>
          (case writePairs werr FCGI_PARAMS 1 env_pairs c1 of
             (Some e, c2) \<Rightarrow> (Some e, c2)
           | (None, c2) \<Rightarrow>
               if length reqStr > 0 then writeRecord werr FCGI_STDIN 1 reqStr c2 else (None, c2)))"

definition fcgi_Request ::
    "(nat \<Rightarrow> goerr option) \<Rightarrow> (byte list \<times> byte list) list \<Rightarrow> byte list \<Rightarrow> byte list \<Rightarrow> fcgi \<Rightarrow> byte list res \<times> fcgi" where
  "fcgi_Request werr env_pairs reqStr inp c =
     (case write_request werr env_pairs reqStr c of
        (Some e, c') \<Rightarrow> (Err e, c')
      | (None, c') \<Rightarrow> (res_bind (read_record inp) (\<lambda>((h, content), rest). Ok content), c'))"

section \<open>Reading back what is written\<close>

lemma unat_u16: "n < 65536 \<Longrightarrow> unat (of_nat n :: u16) = n"
  by (simp add: unsigned_of_nat take_bit_nat_eq_self)

lemma unat_u32: "n < 2 ^ 32 \<Longrightarrow> unat (of_nat n :: u32) = n"
  by (simp add: unsigned_of_nat take_bit_nat_eq_self)

lemma read_record_bytes:
  assumes "length content < 65536"
  shows "read_record (record_bytes t i content @ rest) = Ok ((header_init t i (length content), content), rest)"
  using unat_u16 [OF assms]
  by (simp add: read_record_def record_bytes_def header_bytes_def header_init_def ReadFull_def PutUint16_def Let_def)

fun read_records :: "nat \<Rightarrow> byte list \<Rightarrow> (byte \<times> u16 \<times> byte list) list res" where
  "read_records n [] = Ok []"
| "read_records 0 inp = Err rec_EOF"
| "read_records (Suc n) inp =
     res_bind (read_record inp) (\<lambda>((h, content), rest).
       res_bind (read_records n rest) (\<lambda>rs. Ok ((h_Type h, h_Id h, content) # rs)))"

lemma record_bytes_neq_Nil: "record_bytes t i c \<noteq> []"
  by (simp add: record_bytes_def header_bytes_def Let_def)

lemma read_records_bytes:
  assumes "\<forall>(t, i, c) \<in> set rs. length c < 65536" and "length rs \<le> n"
  shows "read_records n (concat (map (\<lambda>(t, i, c). record_bytes t i c) rs)) = Ok rs"
  using assms
proof (induction rs arbitrary: n)
  case (Cons r rs)
  obtain t i c where r: "r = (t, i, c)" by (cases r)
  obtain m where n: "n = Suc m" using Cons.prems(2) by (cases n) auto
  have "read_record (record_bytes t i c @ concat (map (\<lambda>(t, i, c). record_bytes t i c) rs))
      = Ok ((header_init t i (length c), c), concat (map (\<lambda>(t, i, c). record_bytes t i c) rs))"
    using Cons.prems(1) r by (intro read_record_bytes) simp
  moreover have "read_records m (concat (map (\<lambda>(t, i, c). record_bytes t i c) rs)) = Ok rs"
    using Cons.prems n by (intro Cons.IH) auto
  moreover obtain x xs where x: "record_bytes t i c @ concat (map (\<lambda>(t, i, c). record_bytes t i c) rs) = x # xs"
    using record_bytes_neq_Nil [of t i c] by (cases "record_bytes t i c") auto
  ultimately show ?case by (simp add: r n header_init_def)
qed simp

section \<open>Reading back the pairs\<close>

definition pair_bytes :: "byte list \<times> byte list \<Rightarrow> byte list" where
  "pair_bytes kv = size_bytes kv @ fst kv @ snd kv"

text \<open>How the other side reads the pairs, with the functions of the client for it.\<close>

fun decode_pairs :: "nat \<Rightarrow> byte list \<Rightarrow> (byte list \<times> byte list) list" where
  "decode_pairs 0 s = []"
| "decode_pairs (Suc f) s =
     (if s = [] then []
      else let (kl, n) = readSize s; (vl, m) = readSize (drop n s); t = drop (n + m) s
           in (readString t kl, readString (drop (unat kl) t) vl) # decode_pairs f (drop (unat kl + unat vl) t))"

lemma not_bit_small: "unat w < 2 ^ k \<Longrightarrow> \<not> bit (w :: u32) k"
proof
  assume "unat w < 2 ^ k" "bit w k"
  then have "bit (unat w) k" by (simp add: bit_unsigned_iff)
  with \<open>unat w < 2 ^ k\<close> show False by (simp add: bit_iff_odd)
qed

lemma readSize_encodeSize:
  assumes "unat sz < 2 ^ 31"
  shows "readSize (encodeSize sz @ rest) = (sz, length (encodeSize sz))"
proof (cases "sz > 127")
  case True
  have top: "\<not> bit sz 31" using assms by (rule not_bit_small)
  define mark :: u32 where "mark = push_bit 31 1"
  have mark: "bit mark n \<longleftrightarrow> n = 31" for n
    unfolding mark_def by (subst bit_push_bit_iff) (auto simp: bit_1_iff)
  let ?w = "sz OR mark"
  have "bit ?w 31" by (simp add: bit_simps mark)
  then have "bit ((ucast (ucast (drop_bit 24 ?w) :: byte) :: u32) AND push_bit 7 1) 7"
    by (simp add: bit_simps)
  then have nz: "(ucast (ucast (drop_bit 24 ?w) :: byte) :: u32) AND push_bit 7 1 \<noteq> 0" by (metis bit_0_eq bot_apply bot_bool_def)
  have "?w AND NOT mark = sz"
    by (rule bit_word_eqI) (auto simp: bit_simps top mark)
  then show ?thesis
    using True nz unfolding encodeSize_def readSize_def mark_def [symmetric] by (simp add: PutUint32_def Let_def del: drop_bit_or)
next
  case False
  then have "sz \<le> 127" by simp
  then have small: "unat sz \<le> 127" by (simp add: word_le_nat_alt)
  have "unat (ucast (ucast sz :: byte) :: u32) = unat sz"
    using small by (simp add: unsigned_ucast_eq unsigned_take_bit_eq take_bit_nat_eq_self)
  then have id: "(ucast (ucast sz :: byte) :: u32) = sz" by (simp add: word_unat_eq_iff)
  have "\<not> bit sz 7" using small by (intro not_bit_small) simp
  define mark :: u32 where "mark = push_bit 7 1"
  have "bit mark n \<longleftrightarrow> n = 7" for n
    unfolding mark_def by (subst bit_push_bit_iff) (auto simp: bit_1_iff)
  with \<open>\<not> bit sz 7\<close> have "sz AND mark = 0" by (intro bit_word_eqI) (auto simp: bit_simps)
  then have "sz AND push_bit 7 1 = 0" by (simp only: mark_def)
  with False id show ?thesis by (simp add: encodeSize_def readSize_def Let_def)
qed

lemma readSize_length:
  "n < 2 ^ 31 \<Longrightarrow> readSize (encodeSize (of_nat n) @ rest) = (of_nat n, length (encodeSize (of_nat n)))"
  using unat_u32 [of n] by (intro readSize_encodeSize) simp

lemma encodeSize_neq_Nil: "encodeSize sz \<noteq> []"
  by (simp add: encodeSize_def PutUint32_def)

lemma readString_take: "n < 2 ^ 31 \<Longrightarrow> n \<le> length s \<Longrightarrow> length s < 2 ^ 31 \<Longrightarrow> readString s (of_nat n) = take n s"
  using unat_u32 [of n] unat_u32 [of "length s"] by (simp add: readString_def word_less_nat_alt)

lemma decode_pairs_bytes:
  assumes "length (concat (map pair_bytes kvs)) < 2 ^ 31" and "length kvs < f"
  shows "decode_pairs f (concat (map pair_bytes kvs)) = kvs"
  using assms
proof (induction kvs arbitrary: f)
  case Nil
  then show ?case by (cases f) simp_all
next
  case (Cons kv kvs)
  obtain k v where kv: "kv = (k, v)" by (cases kv)
  obtain g where f: "f = Suc g" using Cons.prems(2) by (cases f) auto
  let ?r = "concat (map pair_bytes kvs)"
  let ?ek = "encodeSize (of_nat (length k))" and ?ev = "encodeSize (of_nat (length v))"
  have len: "length k + (length v + length ?r) < 2 ^ 31" "length ?r < 2 ^ 31"
    using Cons.prems(1) by (auto simp: kv pair_bytes_def [of "(k, v)"])
  have k: "readSize (?ek @ ?ev @ k @ v @ ?r) = (of_nat (length k), length ?ek)"
    using len by (intro readSize_length) simp
  have v: "readSize (?ev @ k @ v @ ?r) = (of_nat (length v), length ?ev)"
    using len by (intro readSize_length) simp
  have u: "unat (of_nat (length k) :: u32) = length k" "unat (of_nat (length v) :: u32) = length v"
    using len unat_u32 [of "length k"] unat_u32 [of "length v"] by auto
  have "readString (k @ v @ ?r) (of_nat (length k)) = k" "readString (v @ ?r) (of_nat (length v)) = v"
    using len readString_take [of "length k" "k @ v @ ?r"] readString_take [of "length v" "v @ ?r"] by simp_all
  moreover have "decode_pairs g ?r = kvs" using Cons.prems(2) f len(2) by (intro Cons.IH) simp_all
  moreover have "concat (map pair_bytes (kv # kvs)) = ?ek @ ?ev @ k @ v @ ?r"
    by (simp add: kv pair_bytes_def [of "(k, v)"] size_bytes_def)
  ultimately show ?case
    using k v u encodeSize_neq_Nil unfolding f by (simp add: kv)
qed

section \<open>A request\<close>

lemma bufio_fits:
  "length buf + length p \<le> n \<Longrightarrow> bufio_write n buf p = ([], buf @ p)"
  "length buf + length p \<le> n \<Longrightarrow> bufio_string n buf p = ([], buf @ p)"
  by (auto simp: bufio_write_def bufio_string.simps [of n])

lemma write_pairs_buf_fits:
  "length buf + length (concat (map pair_bytes kvs)) \<le> maxWrite
   \<Longrightarrow> write_pairs_buf werr t i kvs buf c = (Inl (buf @ concat (map pair_bytes kvs)), c)"
  by (induction werr t i kvs buf c rule: write_pairs_buf.induct)
    (simp_all add: bufio_fits pair_bytes_def)

lemma stream_write_fits:
  assumes "length p \<le> maxWrite"
  shows "stream_write (\<lambda>_. None) t i p c =
    (None, if p = [] then c else c\<lparr>fc_out := fc_out c @ record_bytes t i p, fc_writes := Suc (fc_writes c)\<rparr>)"
  using assms by (simp add: stream_write.simps [of _ t i p] stream_write.simps [of _ t i "[]"] writeRecord_def)

definition request_records :: "(byte list \<times> byte list) list \<Rightarrow> byte list \<Rightarrow> (byte \<times> u16 \<times> byte list) list" where
  "request_records kvs reqStr =
     [(FCGI_BEGIN_REQUEST, 1, [0, 1, 0, 0, 0, 0, 0, 0])]
     @ (if kvs = [] then [] else [(FCGI_PARAMS, 1, concat (map pair_bytes kvs))])
     @ [(FCGI_PARAMS, 1, [])]
     @ (if reqStr = [] then [] else [(FCGI_STDIN, 1, reqStr)])"

lemma pair_bytes_neq_Nil: "concat (map pair_bytes kvs) = [] \<longleftrightarrow> kvs = []"
  using encodeSize_neq_Nil by (cases kvs) (auto simp: pair_bytes_def size_bytes_def)

lemma write_request_records:
  assumes "length (concat (map pair_bytes kvs)) \<le> maxWrite"
  shows "\<exists>n. write_request (\<lambda>_. None) kvs reqStr \<lparr>fc_out = [], fc_writes = 0\<rparr> =
    (None, \<lparr>fc_out = concat (map (\<lambda>(t, i, c). record_bytes t i c) (request_records kvs reqStr)), fc_writes = n\<rparr>)"
  using assms pair_bytes_neq_Nil [of kvs]
  by (auto simp: write_request_def writeBeginRequest_def writePairs_def write_pairs_buf_fits stream_write_fits
      writeRecord_def request_records_def FCGI_RESPONDER_def)

text \<open>C14: a request with at most 65535 bytes of parameters and of input is written as a sequence of records
  that a server reads back one by one: the start, the parameters, their end, and the input; the
  parameters decode to the pairs they were made from.\<close>

theorem fcgi_request_decodes:
  assumes "length (concat (map pair_bytes kvs)) < 65536" and "length reqStr < 65536"
  shows "\<exists>c. write_request (\<lambda>_. None) kvs reqStr \<lparr>fc_out = [], fc_writes = 0\<rparr> = (None, c)
    \<and> read_records 4 (fc_out c) = Ok (request_records kvs reqStr)
    \<and> decode_pairs (Suc (length kvs)) (concat (map pair_bytes kvs)) = kvs"
proof -
  obtain n where w: "write_request (\<lambda>_. None) kvs reqStr \<lparr>fc_out = [], fc_writes = 0\<rparr> =
    (None, \<lparr>fc_out = concat (map (\<lambda>(t, i, c). record_bytes t i c) (request_records kvs reqStr)), fc_writes = n\<rparr>)"
    using write_request_records [of kvs reqStr] assms(1) by (auto simp: maxWrite_def)
  have "read_records 4 (concat (map (\<lambda>(t, i, c). record_bytes t i c) (request_records kvs reqStr)))
      = Ok (request_records kvs reqStr)"
    using assms by (intro read_records_bytes) (auto simp: request_records_def)
  moreover have "decode_pairs (Suc (length kvs)) (concat (map pair_bytes kvs)) = kvs"
    using assms(1) by (intro decode_pairs_bytes) simp_all
  ultimately show ?thesis using w by auto
qed

theorem fcgi_request_decodes_witness:
  "\<exists>c. write_request (\<lambda>_. None) [([65], [66, 67])] [] \<lparr>fc_out = [], fc_writes = 0\<rparr> = (None, c)
    \<and> read_records 4 (fc_out c) = Ok [(1, 1, [0, 1, 0, 0, 0, 0, 0, 0]), (4, 1, [1, 2, 65, 66, 67]), (4, 1, [])]"
proof -
  have b: "concat (map pair_bytes [([65], [66, 67])]) = [1, 2, 65, 66, 67]"
    by (simp add: pair_bytes_def size_bytes_def encodeSize_def)
  then show ?thesis
    using fcgi_request_decodes [of "[([65], [66, 67])]" "[]"]
    by (auto simp: request_records_def FCGI_BEGIN_REQUEST_def FCGI_PARAMS_def)
qed

section \<open>Contents that are too long\<close>

text \<open>A record with more than 65535 bytes, which the limit of the client allows, is written with its
  length reduced modulo 65536: a reader takes only the first bytes for its content, and the others for
  what follows.\<close>

theorem long_record_truncated:
  assumes "65536 \<le> length content" and "length content \<le> maxWrite" 
    and "stream_write (\<lambda>_. None) t i content \<lparr>fc_out = [], fc_writes = 0\<rparr> = (None, c)"
  shows "\<exists>h rest. read_record (fc_out c) = Ok ((h, take (length content mod 65536) content), rest)
    \<and> length content mod 65536 < length content"
proof -
  have "c = \<lparr>fc_out = record_bytes t i content, fc_writes = 1\<rparr>"
    using assms stream_write_fits [OF assms(2), of t i "\<lparr>fc_out = [], fc_writes = 0\<rparr>"] by auto
  moreover have l: "unat (of_nat (length content) :: u16) = length content mod 65536"
    by (simp add: unsigned_of_nat take_bit_eq_mod)
  moreover have lt: "length content mod 65536 < length content" using assms(1)
    by (meson less_le_trans mod_less_divisor zero_less_numeral)
  ultimately show ?thesis
    by (simp add: read_record_def record_bytes_def header_bytes_def header_init_def ReadFull_def PutUint16_def Let_def)
qed

theorem long_record_truncated_witness:
  "\<exists>c h rest. stream_write (\<lambda>_. None) 5 1 (replicate 65540 7) \<lparr>fc_out = [], fc_writes = 0\<rparr> = (None, c)
    \<and> read_record (fc_out c) = Ok ((h, replicate 4 7), rest)"
proof -
  let ?c = "replicate 65540 (7 :: byte)"
  obtain c where c: "stream_write (\<lambda>_. None) 5 1 ?c \<lparr>fc_out = [], fc_writes = 0\<rparr> = (None, c)"
    using stream_write_fits [of ?c] by (simp add: maxWrite_def)
  from long_record_truncated [OF _ _ this] show ?thesis using c by (simp add: maxWrite_def)
qed

end
