(* ===== verification/CallbackRun.thy ===== *)
theory CallbackRun
  imports Callbacks Fcgi
begin

text \<open>
  The two built-in callbacks (\<^verbatim>\<open>callbacks/callback.go\<close>): clearing the cache of PHP through a FastCGI request for
  a script that the client has written, and telling the PHP server to reload.  Dialling, the
  errors of writing and what the other side sends are parameters.
\<close>

record callback_host =
  apcClearScriptFile :: string
  fpmHost :: FcgiHost

definition no_fpm :: FcgiHost where
  "no_fpm = \<lparr>fh_Net = [], fh_Addr = [], fh_Port = 0\<rparr>"

section \<open>Clearing the cache\<close>

definition apc_script :: bytes where
  "apc_script = ''<?php'' @ [CHR 0x0A] @ ''error_reporting(E_ERROR);echo json_encode(function_exists('apc_clear_cache') ? apc_clear_cache() : True);''"

text \<open>\<^verbatim>\<open>initClearApc\<close>; the files that were written come back with the result.\<close>

definition init_error :: "goerr \<Rightarrow> goerr" where
  "init_error e = ErrText (''Cannot initialize callback 'ClearApc': '' @ err_text e)"

definition initClearApc ::
    "(string \<Rightarrow> goerr option) \<Rightarrow> FcgiHost res \<Rightarrow> Config \<Rightarrow> callback_host \<Rightarrow> unit res \<times> callback_host \<times> (string \<times> bytes) list" where
  "initClearApc write_err fpm c s =
     (if \<not> list_ex (\<lambda>cb. cb = ''ClearApc'') (POST_UPDATE_CALLBACKS c) then (Ok (), s, [])
      else let file = DATA_DIR c @ ''apc_clear.php''; s1 = s\<lparr>apcClearScriptFile := file\<rparr>
           in case write_err file of
                Some e \<Rightarrow> (Err (init_error e), s1, [])
              | None \<Rightarrow>
                  (case fpm of
                     Ok h \<Rightarrow> (Ok (), s1\<lparr>fpmHost := h\<rparr>, [(file, apc_script)])
                   | Err e \<Rightarrow> (Err (init_error e), s1\<lparr>fpmHost := no_fpm\<rparr>, [(file, apc_script)])
                   | Panic m \<Rightarrow> (Panic m, s1, [(file, apc_script)])))"

definition InitCallbacks ::
    "(string \<Rightarrow> goerr option) \<Rightarrow> bool \<Rightarrow> string \<times> goerr option \<Rightarrow> Config \<Rightarrow> callback_host \<Rightarrow> unit res \<times> callback_host \<times> (string \<times> bytes) list" where
  "InitCallbacks write_err linux netstat c s = initClearApc write_err (GetFpmHost linux netstat) c s"

text \<open>
  The parameters of the request.  A connection to the FastCGI server is the error of each write and the bytes the server sends;
  \<open>visit\<close> is the order in which the map of parameters is visited.
\<close>

definition bytes_of :: "string \<Rightarrow> byte list" where
  "bytes_of = map byte_of"

definition apc_env :: "string \<Rightarrow> (string \<times> string) list" where
  "apc_env script =
     [(''REQUEST_METHOD'', ''GET''), (''SCRIPT_FILENAME'', script), (''REMOTE_ADDR'', ''127.0.0.1''), (''SERVER_PROTOCOL'', ''HTTP/1.1'')]"

type_synonym fcgi_conn = "(nat \<Rightarrow> goerr option) \<times> byte list"

definition open_fpm :: "(string \<Rightarrow> string \<Rightarrow> fcgi_conn res) \<Rightarrow> FcgiHost \<Rightarrow> fcgi_conn res" where
  "open_fpm dial h =
     (if fh_Net h = ''tcp'' then New dial (fh_Addr h) [ArgInt (fh_Port h)]
      else if fh_Net h = ''unix'' then New dial ''unix'' [ArgString (fh_Addr h)]
      else Panic ''invalid memory address or nil pointer dereference'')"

text \<open>\<^verbatim>\<open>CbClearApc.Run\<close>: the result, and what was sent.\<close>

definition ClearApc_Run ::
    "(string \<Rightarrow> string \<Rightarrow> fcgi_conn res) \<Rightarrow> ((string \<times> string) list \<Rightarrow> (string \<times> string) list) \<Rightarrow> callback_host
     \<Rightarrow> bytes res \<times> byte list" where
  "ClearApc_Run dial visit s =
     (if fh_Addr (fpmHost s) = [] then (Err (ErrText ''Could not get Fpm Addr!''), [])
      else case open_fpm dial (fpmHost s) of
             Err e \<Rightarrow> (Err (ErrText (''Could not connect to fastcgi: '' @ err_text e @ ''.'')), [])
           | Panic m \<Rightarrow> (Panic m, [])
           | Ok (werr, inp) \<Rightarrow>
               (case fcgi_Request werr (map (map_prod bytes_of bytes_of) (visit (apc_env (apcClearScriptFile s)))) [] inp
                       \<lparr>fc_out = [], fc_writes = 0\<rparr> of
                  (Ok resultRaw, c) \<Rightarrow> (Ok (strip_header (map char_of_byte resultRaw)), fc_out c)
                | (Err e, c) \<Rightarrow> (Err (ErrText (''Fastcgi request: '' @ err_text e @ ''.'')), fc_out c)
                | (Panic m, c) \<Rightarrow> (Panic m, fc_out c)))"

section \<open>Reloading the PHP server\<close>

definition reply_size :: nat where
  "reply_size = 500"

text \<open>
  A connection to the PHP server: the error of sending the command, and the packets it sends before the connection is closed or the
  deadline passes.  A read takes from the first packet what fits into the rest of the buffer.
\<close>

function read_reply :: "bytes \<Rightarrow> bytes list \<Rightarrow> bytes" where
  "read_reply got packets =
     (if length got \<ge> reply_size then got
      else case packets of
             [] \<Rightarrow> got
           | p # ps \<Rightarrow>
               (let k = reply_size - length got
                in read_reply (got @ take k p) (if length p > k then drop k p # ps else ps)))"
  by pat_completeness auto
termination
  by (relation "measure (\<lambda>(got, packets). length (concat packets) + length packets)") auto

declare read_reply.simps [simp del]

text \<open>\<^verbatim>\<open>CbReloadPHPServer.Run\<close>.\<close>

definition ReloadPHPServer_Run :: "(string \<Rightarrow> string \<Rightarrow> (goerr option \<times> bytes list) res) \<Rightarrow> bytes res" where
  "ReloadPHPServer_Run dial =
     (case dial ''tcp'' ''127.0.0.1:10101'' of
        Err e \<Rightarrow> Err (ErrText (''Failed to connect to phpserver : '' @ err_text e))
      | Panic m \<Rightarrow> Panic m
      | Ok (Some e, packets) \<Rightarrow> Err (ErrText (''Failed to execute 'reload' command on phpserver: '' @ err_text e))
      | Ok (None, packets) \<Rightarrow>
          (let got = read_reply [] packets
           in Ok (TrimRight (got @ replicate (reply_size - length got) (CHR 0x00)) [CHR 0x00])))"

text \<open>The callbacks as \<^verbatim>\<open>invokeCallbacks\<close> runs them; a panic in one of them is not recovered there.\<close>

definition run_builtin ::
    "(string \<Rightarrow> string \<Rightarrow> fcgi_conn res) \<Rightarrow> (string \<Rightarrow> string \<Rightarrow> (goerr option \<times> bytes list) res)
     \<Rightarrow> ((string \<times> string) list \<Rightarrow> (string \<times> string) list) \<Rightarrow> callback_host \<Rightarrow> string \<Rightarrow> bytes res" where
  "run_builtin dial_fpm dial_php visit s name =
     (if name = ''ClearApc'' then fst (ClearApc_Run dial_fpm visit s) else ReloadPHPServer_Run dial_php)"

section \<open>What they do\<close>

lemma read_reply_take: "length got \<le> reply_size \<Longrightarrow> read_reply got packets = take reply_size (got @ concat packets)"
proof (induction got packets rule: read_reply.induct)
  case (1 got packets)
  show ?case
  proof (cases "length got \<ge> reply_size")
    case True
    then show ?thesis using 1 by (simp add: read_reply.simps [of got])
  next
    case False
    show ?thesis
    proof (cases packets)
      case Nil
      then show ?thesis using False by (simp add: read_reply.simps [of got])
    next
      case (Cons p ps)
      let ?k = "reply_size - length got"
      have "read_reply got packets = read_reply (got @ take ?k p) (if length p > ?k then drop ?k p # ps else ps)"
        using False Cons by (subst read_reply.simps) (simp add: Let_def)
      also have "\<dots> = take reply_size ((got @ take ?k p) @ concat (if length p > ?k then drop ?k p # ps else ps))"
        using False Cons by (intro 1) auto
      also have "\<dots> = take reply_size (got @ concat packets)" using Cons by (simp add: min_def)
      finally show ?thesis .
    qed
  qed
qed

text \<open>
  The reload succeeds whatever the server answers, also when it answers nothing: the result is the first 500 bytes of
  the answer without the zero bytes at its end, and an error of reading is dropped.
\<close>

lemma ReloadPHPServer_result:
  assumes "dial ''tcp'' ''127.0.0.1:10101'' = Ok (None, packets)"
  shows "ReloadPHPServer_Run dial = Ok (TrimRight (take reply_size (concat packets)) [CHR 0x00])"
proof -
  have "set (replicate n (CHR 0x00)) \<subseteq> set [CHR 0x00]" for n by (auto simp: set_replicate_conv_if)
  then show ?thesis using assms by (simp add: ReloadPHPServer_Run_def read_reply_take TrimRight_append_cut Let_def)
qed

text \<open>
  The request for the script is read back by the server as the records of a request with the four parameters, in some order, and the
  result is the content of its answer without the header.
\<close>

lemma ClearApc_request:
  assumes "fh_Addr (fpmHost s) \<noteq> []"
    and "open_fpm dial (fpmHost s) = Ok (\<lambda>_. None, record_bytes t i content @ rest)" and "length content < 65536"
    and "kvs = map (map_prod bytes_of bytes_of) (visit (apc_env (apcClearScriptFile s)))"
    and "length (concat (map pair_bytes kvs)) < 65536"
  shows "\<exists>sent. ClearApc_Run dial visit s = (Ok (strip_header (map char_of_byte content)), sent)
    \<and> read_records 4 sent = Ok (request_records kvs [])
    \<and> decode_pairs (Suc (length kvs)) (concat (map pair_bytes kvs)) = kvs"
proof -
  obtain n where w: "write_request (\<lambda>_. None) kvs [] \<lparr>fc_out = [], fc_writes = 0\<rparr> =
    (None, \<lparr>fc_out = concat (map (\<lambda>(t, i, c). record_bytes t i c) (request_records kvs [])), fc_writes = n\<rparr>)"
    using write_request_records [of kvs "[]"] assms(5) by (auto simp: maxWrite_def)
  have "read_records 4 (concat (map (\<lambda>(t, i, c). record_bytes t i c) (request_records kvs []))) = Ok (request_records kvs [])"
    using assms(5) by (intro read_records_bytes) (auto simp: request_records_def)
  moreover have "decode_pairs (Suc (length kvs)) (concat (map pair_bytes kvs)) = kvs"
    using assms(5) by (intro decode_pairs_bytes) simp_all
  ultimately show ?thesis
    using assms(1,2) w by (simp add: ClearApc_Run_def fcgi_Request_def read_record_bytes [OF assms(3)] flip: assms(4))
qed

text \<open>The address is empty unless the network is one that \<open>open_fpm\<close> knows: the callback does not use a missing connection.\<close>

lemma open_fpm_after_detection:
  assumes "GetFpmHost linux netstat = Ok h" and "fh_Addr h \<noteq> []"
  shows "fh_Net h = ''tcp'' \<or> fh_Net h = ''unix''"
  using assms
  by (auto simp: GetFpmHost_def parse_fpm_line_def Let_def split: if_splits option.splits)

end
