(* ===== verification/MainProgram.thy ===== *)
theory MainProgram
  imports Instances CallbackRun ConfigSetup
begin

text \<open>
  \<^verbatim>\<open>main\<close> (\<^verbatim>\<open>main.go\<close>) from the command line to the running service, composed of the parts of \<^verbatim>\<open>doveclient.go\<close>: setting up, starting in the
  background, the commands, the check for another instance, and the start and the end of the service.
\<close>

record 'o main_env =
  me_host :: "'o host"
  me_write :: "string \<Rightarrow> goerr option"
  me_linux :: bool
  me_netstat :: "string \<times> goerr option"
  me_pid :: int
  me_uid :: int
  me_later :: "machine \<Rightarrow> machine"
  me_looks :: "look list"
  me_cmdErr :: "goerr option"
  me_out :: string

datatype outcome = Exits int | Serves

definition main_setup :: "'o main_env \<Rightarrow> flags \<Rightarrow> (Config \<times> zk_config \<times> callback_host) res" where
  "main_setup E f =
     res_bind (Setup (me_host E) (configFile f) (if runAsBi f then zero_config\<lparr>RunAsBi := True\<rparr> else zero_config)) (\<lambda>(c, zk).
       case InitCallbacks (me_write E) (me_linux E) (me_netstat E) c \<lparr>apcClearScriptFile = [], fpmHost = no_fpm\<rparr> of
         (Ok u, s, files) \<Rightarrow> Ok (c, zk, s)
       | (Err e, s, files) \<Rightarrow> Err e
       | (Panic m, s, files) \<Rightarrow> Panic m)"

text \<open>The rest of \<^verbatim>\<open>main\<close> up to the start of the service.  A panic ends a Go program with status 2.\<close>

definition main_command :: "'o main_env \<Rightarrow> flags \<Rightarrow> string \<Rightarrow> Config \<Rightarrow> machine \<Rightarrow> outcome \<times> machine" where
  "main_command E f cmd c M =
     (if runAsDaemon f \<or> runBi f then
        (case StartDaemonInstance c (me_uid E) (me_looks E) (me_cmdErr E) (me_out E) of
           Ok u \<Rightarrow> (Exits 0, M) | Err e \<Rightarrow> (Exits 1, M) | Panic m \<Rightarrow> (Exits 2, M))
      else if cmd = ''restart'' then
        (case Restart c (me_uid E) (me_later E) M of (ok, M1) \<Rightarrow> (if ok then Exits 0 else Exits 1, M1))
      else if cmd = ''stop'' then (Exits 0, StopClient c (me_pid E) (me_uid E) M)
      else if cmd = ''status'' then (Exits 0, M)
      else if cmd = ''reload'' then (Exits 0, M)
      else if fst (Status c (me_uid E) M) = ''running'' \<and> getenv (me_host E) ''RESTART'' = [] then (Exits 1, M)
      else (case SavePid c (me_pid E) M of (Some e, M1) \<Rightarrow> (Exits 1, M1) | (None, M1) \<Rightarrow> (Serves, M1)))"

definition main :: "'o main_env \<Rightarrow> string list \<Rightarrow> machine \<Rightarrow> outcome \<times> machine" where
  "main E args M =
     (case main_parse args of
        Exit n \<Rightarrow> (Exits n, M)
      | Proceed f cmd \<Rightarrow>
          (case main_setup E f of
             Ok (c, zk, s) \<Rightarrow> main_command E f cmd c M
           | Err e \<Rightarrow> (Exits 2, M)
           | Panic m \<Rightarrow> (Exits 2, M)))"

text \<open>
  The service: \<open>watcher\<close> is the error of \<^verbatim>\<open>StartWatcher\<close>.  The result is the error that \<^verbatim>\<open>main\<close> reports, if the service ends
  by itself; \<^verbatim>\<open>StopClient\<close> is called then by the deferred function, or by \<^verbatim>\<open>StartLocalServer\<close> when the socket cannot be opened.
\<close>

definition main_serve ::
    "'o main_env \<Rightarrow> sockets \<Rightarrow> string \<Rightarrow> goerr option \<Rightarrow> Config \<Rightarrow> listeners \<Rightarrow> machine \<Rightarrow> goerr option \<times> listeners \<times> machine" where
  "main_serve E N goos watcher c L M =
     (let L1 = (if RunAsBi c then L else StartPProf N c L);
          stop = StopClient c (me_pid E) (me_uid E)
      in case (if RunAsBi c then None else watcher) of
           Some e \<Rightarrow> (Some e, L1, stop M)
         | None \<Rightarrow>
             (case StartLocalServer N goos (getenv (me_host E) ''RESTART'') c L1 M of
                (Ok u, L2, M2) \<Rightarrow> (None, L2, M2)
              | (Err e, L2, M2) \<Rightarrow> (Some e, L2, stop M2)
              | (Panic m, L2, M2) \<Rightarrow> (Some (ErrText m), L2, stop M2)))"

definition validCliCmds :: "string list" where
  "validCliCmds = [''start'', ''restart'', ''stop'', ''status'', ''reload'']"

section \<open>The backup instance\<close>

text \<open>
  \<^verbatim>\<open>startTransiIntance\<close>, which no command calls any more: a copy of the program is started with the flags for the
  backup instance, and its pid file is looked at every 100 milliseconds for five seconds.
\<close>

definition getTransiInstanceExecBin :: "'o main_env \<Rightarrow> string" where
  "getTransiInstanceExecBin E = args0 (me_host E) @ ''-bi''"

fun transi_poll :: "string \<Rightarrow> machine list \<Rightarrow> int option" where
  "transi_poll file [] = None"
| "transi_poll file (M # Ms) =
     (case ReadFile file M of
        Ok biPidB \<Rightarrow> (case res_bind (Atoi biPidB) FindProcess of Ok p \<Rightarrow> Some p | _ \<Rightarrow> None)
      | _ \<Rightarrow> transi_poll file Ms)"

definition startTransiIntance ::
    "'o main_env \<Rightarrow> (string \<Rightarrow> string list \<Rightarrow> (bool \<times> bytes) list \<times> goerr option) \<Rightarrow> Config \<Rightarrow> goerr option \<Rightarrow> machine list
     \<Rightarrow> bool \<times> int option" where
  "startTransiIntance E exec c startErr Ms =
     (if snd (ExtCall exec ''cp'' [args0 (me_host E), getTransiInstanceExecBin E]) \<noteq> None then (False, None)
      else if startErr \<noteq> None then (False, None)
      else (case transi_poll (GetBiPidFile c) Ms of Some p \<Rightarrow> (True, Some p) | None \<Rightarrow> (False, None)))"

section \<open>What the commands do\<close>

text \<open>
  While an instance runs, a further one ends with status 1 and changes nothing, unless it is the successor in
  a restart.
\<close>

lemma main_refuses_second:
  assumes "main_parse args = Proceed f cmd" and "main_setup E f = Ok (c, zk, s)" and "\<not> runAsDaemon f" and "\<not> runBi f"
    and "cmd \<notin> set validCliCmds" and "Status c (me_uid E) M = (''running'', None)" and "getenv (me_host E) ''RESTART'' = []"
  shows "main E args M = (Exits 1, M)"
  using assms by (simp add: main_def main_command_def validCliCmds_def)

text \<open>
  The list of valid commands is only printed: a misspelled command starts the service.
\<close>

lemma main_serves:
  assumes "main_parse args = Proceed f cmd" and "main_setup E f = Ok (c, zk, s)" and "\<not> runAsDaemon f" and "\<not> runBi f"
    and "cmd \<notin> set validCliCmds" and "fst (Status c (me_uid E) M) \<noteq> ''running''" and "m_writable M (PidFile c)"
    and "0 < me_pid E" and "me_pid E < 2 ^ 63"
  shows "\<exists>M'. main E args M = (Serves, M') \<and> GetPid c M' = Ok (me_pid E)"
proof -
  have s: "SavePid c (me_pid E) M = (None, M\<lparr>m_files := mset (m_files M) (PidFile c) (Itoa (me_pid E))\<rparr>)"
    using assms(7) by (simp add: SavePid_def WriteFile_def)
  then show ?thesis using assms SavePid_GetPid [OF s] by (simp add: main_def main_command_def validCliCmds_def)
qed

text \<open>
  The deferred call sends the signal to the process that the pid file names: an instance that fails to open its
  socket after another one has written its pid stops that one.
\<close>

lemma failed_start_stops_other:
  assumes "\<not> RunAsBi c" and "watcher = Some e" and "GetPid c M = Ok other" and "0 < other"
    and "mget (m_procs M) other = Some p" and "may_signal (me_uid E) p"
  shows "\<exists>L' M'. main_serve E N goos watcher c L M = (Some e, L', M') \<and> (other, SIGQUIT) \<in> set (m_signals M')"
proof -
  let ?r = "filter (\<lambda>(q, p). may_signal (me_uid E) p) (kill_targets other M)"
  have r: "(other, p) \<in> set ?r" using kill_targets_in [OF assms(4,5)] assms(6) by simp
  then have "kill_targets other M \<noteq> []" "?r \<noteq> []" by force+
  then have "Signal (me_uid E) other SIGQUIT M = (None, M\<lparr>m_signals := m_signals M @ map (\<lambda>(q, p). (q, SIGQUIT)) ?r\<rparr>)"
    using assms(4) by (simp add: Signal_def Let_def)
  then show ?thesis
    using assms(1,2,3) r by (force simp: main_serve_def StopClient_def FindProcess_def)
qed

end
