(* ===== verification/Reports.thy ===== *)
theory Reports
  imports Registry
begin

text \<open>
  The registration of the client at the configuration server and the report of the results of an update
  (\<^verbatim>\<open>configwatcher/zk_watcher.go\<close>: \<^verbatim>\<open>registerMonitor\<close>, \<^verbatim>\<open>saveUpdateResults\<close>, \<^verbatim>\<open>getLockOfExecCallback\<close>,
  \<^verbatim>\<open>getLockOfExecResultReporting\<close>).
\<close>

section \<open>Only the last request counts\<close>

text \<open>
  Both locks record the time of the request, wait for two seconds and look whether theirs is still the recorded
  time.  A schedule is the order in which the goroutines record and look; the request \<open>i\<close> records the time \<open>t\<close>.
\<close>

datatype tag_op = Record nat int | Look nat

record tags =
  lastPostUpdateCallbackReqtime :: int
  myTag :: "nat \<Rightarrow> int option"
  answers :: "(nat \<times> bool) list"

definition setLastPostUpdateCallbackReqtime :: "int \<Rightarrow> tags \<Rightarrow> tags" where
  "setLastPostUpdateCallbackReqtime t s = s\<lparr>lastPostUpdateCallbackReqtime := t\<rparr>"

definition GetLastPostUpdateCallbackReqtime :: "tags \<Rightarrow> int" where
  "GetLastPostUpdateCallbackReqtime s = lastPostUpdateCallbackReqtime s"

fun getLockOfExecCallback :: "tag_op \<Rightarrow> tags \<Rightarrow> tags" where
  "getLockOfExecCallback (Record i t) s = (setLastPostUpdateCallbackReqtime t s)\<lparr>myTag := (myTag s)(i \<mapsto> t)\<rparr>"
| "getLockOfExecCallback (Look i) s =
     (case myTag s i of
        None \<Rightarrow> s
      | Some t \<Rightarrow> s\<lparr>answers := answers s @ [(i, GetLastPostUpdateCallbackReqtime s = t)]\<rparr>)"

definition no_requests :: tags where
  "no_requests = \<lparr>lastPostUpdateCallbackReqtime = 0, myTag = Map.empty, answers = []\<rparr>"

definition run_tags :: "tag_op list \<Rightarrow> tags" where
  "run_tags ops = fold getLockOfExecCallback ops no_requests"

definition recorded :: "tag_op list \<Rightarrow> (nat \<times> int) list" where
  "recorded ops = List.map_filter (\<lambda>op. case op of Record i t \<Rightarrow> Some (i, t) | Look i \<Rightarrow> None) ops"

text \<open>Every request records once, at its own time.\<close>

definition one_each :: "tag_op list \<Rightarrow> bool" where
  "one_each ops \<longleftrightarrow> distinct (map fst (recorded ops)) \<and> distinct (map snd (recorded ops))"

lemma recorded_simps [simp]:
  "recorded [] = []" "recorded (ops @ [Record i t]) = recorded ops @ [(i, t)]" "recorded (ops @ [Look i]) = recorded ops"
  by (simp_all add: recorded_def List.map_filter_def)

lemma run_tags_snoc [simp]: "run_tags [] = no_requests" "run_tags (ops @ [op]) = getLockOfExecCallback op (run_tags ops)"
  by (simp_all add: run_tags_def)

lemma run_tags_state:
  "one_each ops \<Longrightarrow> myTag (run_tags ops) = map_of (recorded ops)
     \<and> (recorded ops \<noteq> [] \<longrightarrow> lastPostUpdateCallbackReqtime (run_tags ops) = snd (last (recorded ops)))"
proof (induction ops rule: rev_induct)
  case (snoc op ops)
  then have "one_each ops" by (cases op) (simp_all add: one_each_def)
  with snoc show ?case
    by (cases op) (auto simp: one_each_def no_requests_def setLastPostUpdateCallbackReqtime_def map_add_def fun_eq_iff
        map_of_eq_None_iff image_iff split: option.splits dest: map_of_SomeD)
qed (simp add: no_requests_def)

text \<open>
  A request is granted if and only if no other one has been recorded after it when it looks: of the requests that come within two seconds of each
  other only the last one runs.
\<close>

lemma granted_iff_last:
  assumes "one_each ops" and "(i, t) \<in> set (recorded ops)"
  shows "answers (run_tags (ops @ [Look i])) = answers (run_tags ops) @ [(i, last (recorded ops) = (i, t))]"
proof -
  have ne: "recorded ops \<noteq> []" using assms(2) by auto
  have tag: "myTag (run_tags ops) i = Some t" and last: "lastPostUpdateCallbackReqtime (run_tags ops) = snd (last (recorded ops))"
    using run_tags_state [OF assms(1)] assms ne by (auto simp: one_each_def)
  have "last (recorded ops) \<in> set (recorded ops)" using ne by simp
  then have "snd (last (recorded ops)) = t \<longleftrightarrow> last (recorded ops) = (i, t)"
    using assms by (auto simp: one_each_def distinct_map inj_on_def)
  then show ?thesis using tag last by (simp add: GetLastPostUpdateCallbackReqtime_def)
qed

section \<open>Registration\<close>

text \<open>
  The server with its leases: \<open>mo_grant\<close> gives a lease for a number of seconds, \<open>mo_keepAlive\<close> is the error of keeping one alive.
  \<open>mo_node\<close> is the result of \<^verbatim>\<open>MyMonitorNode\<close> and \<open>mo_md5\<close> the one of \<^verbatim>\<open>Md5File\<close> for the program.
\<close>

record 'e monitor_env =
  mo_root :: string
  mo_node :: "string res"
  mo_md5 :: "string res"
  mo_etcd :: "'e etcd"
  mo_grant :: "'e \<Rightarrow> int \<Rightarrow> (int \<times> 'e) res"
  mo_keepAlive :: "'e \<Rightarrow> int \<Rightarrow> goerr option"

record 'e monitor =
  monitorNodeLease :: int
  srv_state :: 'e

definition Grant :: "'e monitor_env \<Rightarrow> int \<Rightarrow> 'e \<Rightarrow> (int \<times> 'e) res" where
  "Grant E ttl srv = mo_grant E srv ttl"

definition saveMonitorNodeLease :: "int \<Rightarrow> 'e monitor \<Rightarrow> 'e monitor" where
  "saveMonitorNodeLease lease m = m\<lparr>monitorNodeLease := lease\<rparr>"

definition getMonitorNodeLease :: "'e monitor \<Rightarrow> int" where
  "getMonitorNodeLease m = monitorNodeLease m"

definition KeepAlive :: "'e monitor_env \<Rightarrow> int \<Rightarrow> 'e \<Rightarrow> unit res" where
  "KeepAlive E lease srv = (case mo_keepAlive E srv lease of None \<Rightarrow> Ok () | Some e \<Rightarrow> Err e)"

text \<open>A nil slice of strings is encoded as \<^verbatim>\<open>null\<close>.\<close>

definition strings_json :: "string list \<Rightarrow> json" where
  "strings_json xs = (if xs = [] then JNull else JArr (map JStr xs))"

definition registerationInfo :: "string \<Rightarrow> Config \<Rightarrow> json" where
  "registerationInfo clientMd5 c =
     JObj [(''client_md5'', JStr (clientMd5 @ [CHR 0x0A] @ ''VER:'' @ ClientVer c)), (''config_dir'', strings_json (CONFIG_DIR c))]"

text \<open>Whether the node exists; an error counts as no.\<close>

definition node_exists :: "'e monitor_env \<Rightarrow> 'e \<Rightarrow> string \<Rightarrow> bool" where
  "node_exists E srv node = (case zk_Exists (mo_etcd E) (mo_root E) srv node of Ok b \<Rightarrow> b | _ \<Rightarrow> False)"

definition write_registration :: "'e monitor_env \<Rightarrow> Config \<Rightarrow> string \<Rightarrow> string \<Rightarrow> 'e monitor \<Rightarrow> unit res \<times> 'e monitor" where
  "write_registration E c node clientMd5 m =
     (let lease = getMonitorNodeLease m in
      case (if node_exists E (srv_state m) node then Ok (srv_state m)
            else zk_Create (mo_etcd E) (mo_root E) (srv_state m) node [] lease) of
        Ok srv \<Rightarrow>
          (case zk_Set (mo_etcd E) (mo_root E) srv node (marshal (\<lambda>_. []) (registerationInfo clientMd5 c)) [lease] of
             Ok srv' \<Rightarrow> (KeepAlive E lease srv', m\<lparr>srv_state := srv'\<rparr>)
           | Err e \<Rightarrow> (Err e, m\<lparr>srv_state := srv\<rparr>)
           | Panic x \<Rightarrow> (Panic x, m\<lparr>srv_state := srv\<rparr>))
      | Err e \<Rightarrow> (Err e, m)
      | Panic x \<Rightarrow> (Panic x, m))"

definition registerMonitor :: "'e monitor_env \<Rightarrow> Config \<Rightarrow> 'e monitor \<Rightarrow> unit res \<times> 'e monitor" where
  "registerMonitor E c m =
     (case mo_node E of
        Err e \<Rightarrow> (Err (ErrText (''Failed to get monitor node: '' @ err_text e)), m)
      | Panic x \<Rightarrow> (Panic x, m)
      | Ok node \<Rightarrow>
          (case mo_md5 E of
             Err e \<Rightarrow> (Err (ErrText (''Failed to get client md5: '' @ err_text e)), m)
           | Panic x \<Rightarrow> (Panic x, m)
           | Ok clientMd5 \<Rightarrow>
               (case Grant E 45 (srv_state m) of
                  Err e \<Rightarrow> (Err e, m)
                | Panic x \<Rightarrow> (Panic x, m)
                | Ok (lease, srv) \<Rightarrow> write_registration E c node clientMd5 (saveMonitorNodeLease lease (m\<lparr>srv_state := srv\<rparr>)))))"

section \<open>The report\<close>

definition strings_map :: "(string, string) gomap option \<Rightarrow> json" where
  "strings_map r = (case r of None \<Rightarrow> JNull | Some m \<Rightarrow> JObj (map (map_prod id JStr) m))"

definition result_entries ::
    "Config \<Rightarrow> int \<Rightarrow> goerr option \<Rightarrow> (string, string) gomap option \<Rightarrow> (string, string) gomap option \<Rightarrow> (string \<times> json) list" where
  "result_entries c now updateErr callbackResults callbackScriptResults =
     [(''app_path'', JStr (Join (CONFIG_DIR c) '':'')),
      (''config_last_update_time'', JInt now),
      (''config_last_update_result'', JStr (if updateErr = None then ''complete'' else ''not-complete'')),
      (''config_last_update_error_msg'', JStr (case updateErr of None \<Rightarrow> [] | Some e \<Rightarrow> err_text e)),
      (''callback_result'', strings_map callbackResults),
      (''callback_script'', strings_map callbackScriptResults)]"

definition set_entries :: "(string \<times> json) list \<Rightarrow> (string \<times> json) list \<Rightarrow> (string \<times> json) list" where
  "set_entries es result = foldl (\<lambda>m (k, v). mset m k v) result es"

text \<open>
  The information that is there: a text that is not an object is replaced by an empty map, but \<^verbatim>\<open>null\<close> is decoded without an
  error to a nil map, to which the first assignment is a panic.
\<close>

definition old_result :: "bytes \<Rightarrow> (string \<times> json) list res" where
  "old_result infoB =
     (case Unmarshal infoB of
        Ok (JObj m) \<Rightarrow> Ok m
      | Ok JNull \<Rightarrow> Panic ''assignment to entry in nil map''
      | _ \<Rightarrow> Ok [])"

definition saveUpdateResults ::
    "'e monitor_env \<Rightarrow> (rat \<Rightarrow> string) \<Rightarrow> Config \<Rightarrow> int \<Rightarrow> goerr option \<Rightarrow> (string, string) gomap option \<Rightarrow> (string, string) gomap option
     \<Rightarrow> 'e monitor \<Rightarrow> unit res \<times> 'e monitor" where
  "saveUpdateResults E fmt_num c now updateErr callbackResults callbackScriptResults m =
     (case mo_node E of
        Err e \<Rightarrow> (Err (ErrText (''Failed to get monitor node when save update results: '' @ err_text e)), m)
      | Panic x \<Rightarrow> (Panic x, m)
      | Ok node \<Rightarrow>
          (case (if node_exists E (srv_state m) node then (Ok (), m) else registerMonitor E c m) of
             (Err e, m1) \<Rightarrow> (Err (ErrText (''Cannot get registeration node: '' @ err_text e)), m1)
           | (Panic x, m1) \<Rightarrow> (Panic x, m1)
           | (Ok u, m1) \<Rightarrow>
               (case zk_Get (mo_etcd E) (mo_root E) (srv_state m1) node of
                  Err e \<Rightarrow> (Err (ErrText (''Cannot get registeration info: '' @ err_text e)), m1)
                | Panic x \<Rightarrow> (Panic x, m1)
                | Ok infoB \<Rightarrow>
                    (case old_result infoB of
                       Ok old \<Rightarrow>
                         (case zk_Set (mo_etcd E) (mo_root E) (srv_state m1) node
                                 (marshal fmt_num (JObj (set_entries (result_entries c now updateErr callbackResults callbackScriptResults) old)))
                                 [getMonitorNodeLease m1] of
                            Ok srv \<Rightarrow> (Ok (), m1\<lparr>srv_state := srv\<rparr>)
                          | Err e \<Rightarrow> (Err (ErrText (''Failed to save update results: '' @ err_text e)), m1)
                          | Panic x \<Rightarrow> (Panic x, m1))
                     | Err e \<Rightarrow> (Err e, m1)
                     | Panic x \<Rightarrow> (Panic x, m1)))))"

section \<open>Reports arrive\<close>

text \<open>
  The documented behaviour of a server that answers: a put without a lease, or with a lease that the server knows, stores the value
  under the key, leaves the other keys as they are and keeps the leases; a put with a lease that it does not know (one that has
  expired) is refused.  \<open>live\<close> are the leases the server knows; the lease 0 stands for none.
\<close>

definition etcd_ok :: "('e \<Rightarrow> int \<Rightarrow> bool) \<Rightarrow> 'e etcd \<Rightarrow> bool" where
  "etcd_ok live et \<longleftrightarrow>
     (\<forall>srv k v lease. case lease of
          Some l \<Rightarrow> if l = 0 \<or> live srv l then \<exists>srv'. et_put et srv k v lease = Ok srv' \<and> live srv' = live srv
                       \<and> (\<forall>k'. et_get et srv' k' = (if k' = k then Ok [v] else et_get et srv k'))
                     else \<exists>e. et_put et srv k v lease = Err e
        | None \<Rightarrow> \<exists>srv'. et_put et srv k v lease = Ok srv' \<and> live srv' = live srv
                       \<and> (\<forall>k'. et_get et srv' k' = (if k' = k then Ok [v] else et_get et srv k')))"

lemma etcd_okE:
  assumes "etcd_ok live et" and "l = 0 \<or> live srv l"
  obtains srv' where "et_put et srv k v (Some l) = Ok srv'" "live srv' = live srv"
    "\<And>k'. et_get et srv' k' = (if k' = k then Ok [v] else et_get et srv k')"
proof -
  have "\<exists>srv'. et_put et srv k v (Some l) = Ok srv' \<and> live srv' = live srv
      \<and> (\<forall>k'. et_get et srv' k' = (if k' = k then Ok [v] else et_get et srv k'))"
    using assms(1) [unfolded etcd_ok_def, THEN spec, THEN spec, THEN spec, THEN spec, of srv k v "Some l"] assms(2)
    by (simp only: option.case if_True if_P)
  then show ?thesis using that by blast
qed

lemma etcd_ok_refused: "etcd_ok live et \<Longrightarrow> l \<noteq> 0 \<Longrightarrow> \<not> live srv l \<Longrightarrow> \<exists>e. et_put et srv k v (Some l) = Err e"
  unfolding etcd_ok_def by (drule spec [of _ srv], drule spec [of _ k], drule spec [of _ v], drule spec [of _ "Some l"]) simp

definition lease_works :: "('e \<Rightarrow> int \<Rightarrow> bool) \<Rightarrow> 'e monitor \<Rightarrow> bool" where
  "lease_works live m \<longleftrightarrow> monitorNodeLease m = 0 \<or> live (srv_state m) (monitorNodeLease m)"

definition result_keys :: "string list" where
  "result_keys = [''app_path'', ''config_last_update_time'', ''config_last_update_result'', ''config_last_update_error_msg'',
     ''callback_result'', ''callback_script'']"

primrec text_value :: "json \<Rightarrow> bool" where
  "text_value JNull = True"
| "text_value (JBool b) = False"
| "text_value (JNum r) = False"
| "text_value (JInt i) = False"
| "text_value (JStr s) = True"
| "text_value (JArr xs) = (\<forall>x \<in> set xs. \<exists>s. x = JStr s)"
| "text_value (JObj m) = False"
| "text_value (JStruct m) = False"

lemma text_value_norm: "text_value v \<Longrightarrow> json_norm v = v"
  by (cases v) (auto intro!: map_idI)

text \<open>The information at the server: an object whose entries, apart from those of a report, are texts or lists of texts.\<close>

definition good_info :: "(string \<times> json) list \<Rightarrow> bool" where
  "good_info m \<longleftrightarrow> plain_json (JObj m) \<and> (\<forall>(k, v) \<in> set m. k \<in> set result_keys \<or> text_value v)"

definition registered :: "'e monitor_env \<Rightarrow> string \<Rightarrow> 'e monitor \<Rightarrow> (string \<times> json) list \<Rightarrow> bool" where
  "registered E node m info \<longleftrightarrow> good_info info
     \<and> (\<exists>fn. et_get (mo_etcd E) (srv_state m) (P2CN (mo_root E) node) = Ok [marshal fn (JObj info)])"

lemma plain_json_JObj:
  "plain_json (JObj m) \<longleftrightarrow> wf_map m \<and> (\<forall>(k, v) \<in> set m. ascii k \<and> plain_json v)"
  by (auto simp: list_all_iff)

lemma strings_json_plain: "list_all ascii xs \<Longrightarrow> plain_json (strings_json xs) \<and> text_value (strings_json xs)"
  by (auto simp: strings_json_def list_all_iff)

lemma mget_set_entries:
  "distinct (map fst es) \<Longrightarrow> mget (set_entries es m) k = (case mget es k of Some v \<Rightarrow> Some v | None \<Rightarrow> mget m k)"
proof (induction es arbitrary: m)
  case (Cons e es)
  obtain a b where e: "e = (a, b)" by (cases e)
  with Cons.prems have "mget es a = None" by (auto intro: mget_NoneI)
  then show ?case using Cons e by (auto simp: set_entries_def split: option.splits)
qed (simp add: set_entries_def)

lemma wf_map_set_entries: "wf_map m \<Longrightarrow> wf_map (set_entries es m)"
  by (induction es arbitrary: m) (auto simp: set_entries_def)

lemma result_entries_keys: "map fst (result_entries c now e cb scr) = result_keys"
  by (simp add: result_entries_def result_keys_def)

lemma distinct_result_keys: "distinct result_keys"
  by (simp add: result_keys_def)

lemma mget_norm: "wf_map m \<Longrightarrow> mget (sort_keys (map (map_prod id f) m)) k = map_option f (mget m k)"
proof -
  assume "wf_map m"
  then have "wf_map (map (map_prod id f) m)" by (simp add: wf_map_def comp_def)
  then have "mget (sort_keys (map (map_prod id f) m)) k = mget (map (map_prod id f) m) k" by (rule mget_sort_keys)
  also have "\<dots> = map_option f (mget m k)" by (induction m) auto
  finally show ?thesis .
qed

text \<open>A report put on top of what was there.\<close>

lemma good_info_report:
  assumes good: "good_info info" and es: "es = result_entries c now e cb scr" "plain_json (JObj es)"
    and new: "new = set_entries es (sort_keys (map (map_prod id json_norm) info))"
  shows "good_info new" and "mget new k = (case mget es k of Some v \<Rightarrow> Some v | None \<Rightarrow> mget info k)"
proof -
  have wf: "wf_map info" using good by (simp add: good_info_def plain_json_JObj)
  have keys: "map fst es = result_keys" using es(1) by (simp add: result_entries_keys)
  have m: "mget new k = (case mget es k of Some v \<Rightarrow> Some v | None \<Rightarrow> map_option json_norm (mget info k))" for k
    using distinct_result_keys keys by (simp add: new mget_set_entries mget_norm [OF wf] split: option.split)
  have outside: "mget es k = None \<Longrightarrow> k \<notin> set result_keys" for k by (simp add: map_of_eq_None_iff flip: keys)
  have old: "mget es k = None \<Longrightarrow> map_option json_norm (mget info k) = mget info k" for k
    using outside [of k] good by (cases "mget info k") (auto simp: good_info_def text_value_norm dest!: map_of_SomeD)
  show get: "mget new k = (case mget es k of Some v \<Rightarrow> Some v | None \<Rightarrow> mget info k)" for k
    using m [of k] old [of k] by (auto split: option.splits)
  have "wf_map (map (map_prod id json_norm) info)" using wf by (simp add: wf_map_def comp_def)
  then have wfn: "wf_map new" by (simp add: new wf_map_set_entries wf_map_sort_keys)
  have "ascii k \<and> plain_json v \<and> (k \<in> set result_keys \<or> text_value v)" if "(k, v) \<in> set new" for k v
  proof -
    have "mget new k = Some v" using that wfn by (simp add: mget_in_set)
    then consider "mget es k = Some v" | "mget es k = None" "mget info k = Some v" using get [of k] by (auto split: option.splits)
    then show ?thesis
    proof cases
      case 1
      then have "(k, v) \<in> set es" by (rule map_of_SomeD)
      moreover from this have "k \<in> set result_keys" unfolding keys [symmetric] by force
      ultimately show ?thesis using es(2) [unfolded plain_json_JObj] by auto
    next
      case 2
      then have "(k, v) \<in> set info" by (auto dest: map_of_SomeD)
      then show ?thesis using good [unfolded good_info_def plain_json_JObj] by auto
    qed
  qed
  then show "good_info new" using wfn unfolding good_info_def plain_json_JObj by auto
qed

text \<open>C37: a report of an update arrives: when the client's node is at the server and its lease is one the server knows (or it has none),
  saving the results succeeds and the information at the server has the outcome, the time, the message and the results of the
  callbacks, next to what the registration wrote; the node and the lease stay, so the next report arrives too.  When the
  server no longer knows the lease, the report is lost with an error, and so is every later one while the node stays, since only a
  missing node makes the client register again.\<close>

theorem saveUpdateResults_arrives:
  assumes "etcd_ok live (mo_etcd E)" and "mo_node E = Ok node" and "registered E node m info"
    and "es = result_entries c now updateErr cb scr" and "plain_json (JObj es)"
  shows "(lease_works live m \<longrightarrow>
      (\<exists>m' info'. saveUpdateResults E fmt_num c now updateErr cb scr m = (Ok (), m')
        \<and> registered E node m' info' \<and> lease_works live m'
        \<and> (\<forall>k. mget info' k = (case mget es k of Some v \<Rightarrow> Some v | None \<Rightarrow> mget info k))
        \<and> (\<forall>k. k \<noteq> P2CN (mo_root E) node \<longrightarrow> et_get (mo_etcd E) (srv_state m') k = et_get (mo_etcd E) (srv_state m) k)))
    \<and> (\<not> lease_works live m \<longrightarrow> (\<exists>e. saveUpdateResults E fmt_num c now updateErr cb scr m = (Err e, m)))"
proof -
  obtain fn where get: "et_get (mo_etcd E) (srv_state m) (P2CN (mo_root E) node) = Ok [marshal fn (JObj info)]"
    and good: "good_info info" using assms(3) by (auto simp: registered_def)
  then have old: "old_result (marshal fn (JObj info)) = Ok (sort_keys (map (map_prod id json_norm) info))"
    using Unmarshal_marshal [of "JObj info" fn] by (simp add: old_result_def good_info_def del: plain_json.simps)
  let ?new = "set_entries es (sort_keys (map (map_prod id json_norm) info))"
  let ?put = "et_put (mo_etcd E) (srv_state m) (P2CN (mo_root E) node) (marshal fmt_num (JObj ?new)) (Some (monitorNodeLease m))"
  have save: "saveUpdateResults E fmt_num c now updateErr cb scr m =
      (case ?put of Ok srv \<Rightarrow> (Ok (), m\<lparr>srv_state := srv\<rparr>)
       | Err e \<Rightarrow> (Err (ErrText (''Failed to save update results: '' @ err_text e)), m) | Panic x \<Rightarrow> (Panic x, m))"
    using get old assms(2,4)
    by (simp add: saveUpdateResults_def node_exists_def zk_Exists_def zk_Get_def zk_Set_def getMonitorNodeLease_def)
  have arrives: "\<exists>m' info'. saveUpdateResults E fmt_num c now updateErr cb scr m = (Ok (), m')
        \<and> registered E node m' info' \<and> lease_works live m'
        \<and> (\<forall>k. mget info' k = (case mget es k of Some v \<Rightarrow> Some v | None \<Rightarrow> mget info k))
        \<and> (\<forall>k. k \<noteq> P2CN (mo_root E) node \<longrightarrow> et_get (mo_etcd E) (srv_state m') k = et_get (mo_etcd E) (srv_state m) k)"
    if l: "lease_works live m"
  proof -
    obtain srv where put: "?put = Ok srv" and lv: "live srv = live (srv_state m)"
      and gets: "\<And>k. et_get (mo_etcd E) srv k = (if k = P2CN (mo_root E) node then Ok [marshal fmt_num (JObj ?new)] else et_get (mo_etcd E) (srv_state m) k)"
      using etcd_okE [OF assms(1) l [unfolded lease_works_def], of "P2CN (mo_root E) node" "marshal fmt_num (JObj ?new)"] by blast
    have "registered E node (m\<lparr>srv_state := srv\<rparr>) ?new"
      using gets good_info_report(1) [OF good assms(4,5) refl] by (auto simp: registered_def)
    moreover have "mget ?new k = (case mget es k of Some v \<Rightarrow> Some v | None \<Rightarrow> mget info k)" for k
      by (rule good_info_report(2) [OF good assms(4,5) refl])
    moreover have "lease_works live (m\<lparr>srv_state := srv\<rparr>)" using l lv by (simp add: lease_works_def)
    ultimately show ?thesis using gets save put by (intro exI [of _ "m\<lparr>srv_state := srv\<rparr>"] exI [of _ ?new]) simp
  qed
  have "\<exists>e. saveUpdateResults E fmt_num c now updateErr cb scr m = (Err e, m)" if "\<not> lease_works live m"
  proof -
    have "\<exists>e. ?put = Err e" using that by (intro etcd_ok_refused [OF assms(1)]) (simp_all add: lease_works_def)
    then show ?thesis using save by auto
  qed
  with arrives show ?thesis by blast
qed

text \<open>A server that keeps the leases it has granted.\<close>

definition lease_etcd :: "((string, bytes) gomap \<times> int list) etcd" where
  "lease_etcd =
     \<lparr>et_get = (\<lambda>(m, ls) k. Ok (case mget m k of None \<Rightarrow> [] | Some v \<Rightarrow> [v])),
      et_put = (\<lambda>(m, ls) k v lease.
        if (case lease of None \<Rightarrow> True | Some l \<Rightarrow> l = 0 \<or> l \<in> set ls) then Ok (mset m k v, ls)
        else Err (ErrText ''etcdserver: requested lease not found''))\<rparr>"

definition live_leases :: "(string, bytes) gomap \<times> int list \<Rightarrow> int \<Rightarrow> bool" where
  "live_leases srv l \<longleftrightarrow> l \<in> set (snd srv)"

definition demo_monitor :: "((string, bytes) gomap \<times> int list) monitor_env" where
  "demo_monitor = \<lparr>mo_root = ''/c'', mo_node = Ok ''/c_monitor/h'', mo_md5 = Ok ''d41d'', mo_etcd = lease_etcd,
     mo_grant = (\<lambda>srv ttl. Ok (7, fst srv, 7 # snd srv)), mo_keepAlive = (\<lambda>srv lease. None)\<rparr>"

lemma etcd_ok_lease: "etcd_ok live_leases lease_etcd"
  by (auto simp: etcd_ok_def lease_etcd_def live_leases_def fun_eq_iff split: option.split)

definition demo_registered :: "((string, bytes) gomap \<times> int list) monitor" where
  "demo_registered = \<lparr>monitorNodeLease = 7,
     srv_state = ([(P2CN ''/c'' ''/c_monitor/h'', marshal (\<lambda>_. []) (JObj [(''client_md5'', JStr ''d41d'')]))], [7])\<rparr>"

theorem saveUpdateResults_arrives_witness:
  "(\<exists>m' info'. saveUpdateResults demo_monitor (\<lambda>_. []) zero_config 1700000000 (Some (ErrText ''x'')) None None demo_registered = (Ok (), m')
     \<and> registered demo_monitor ''/c_monitor/h'' m' info'
     \<and> mget info' ''config_last_update_result'' = Some (JStr ''not-complete'') \<and> mget info' ''client_md5'' = Some (JStr ''d41d''))
   \<and> (\<exists>e. saveUpdateResults demo_monitor (\<lambda>_. []) zero_config 1700000000 (Some (ErrText ''x'')) None None
         (demo_registered\<lparr>monitorNodeLease := 6\<rparr>) = (Err e, demo_registered\<lparr>monitorNodeLease := 6\<rparr>))"
proof -
  let ?es = "result_entries zero_config 1700000000 (Some (ErrText ''x'')) None None"
  let ?info = "[(''client_md5'', JStr ''d41d'')]"
  have "good_info ?info" by (simp add: good_info_def plain_json_JObj wf_map_def)
  then have r: "registered demo_monitor ''/c_monitor/h'' demo_registered ?info"
    "registered demo_monitor ''/c_monitor/h'' (demo_registered\<lparr>monitorNodeLease := 6\<rparr>) ?info"
    by (auto simp: registered_def demo_monitor_def demo_registered_def lease_etcd_def)
  have p: "plain_json (JObj ?es)"
    by (simp add: plain_json_JObj wf_map_def result_entries_def strings_map_def zero_config_def)
  have e: "etcd_ok live_leases (mo_etcd demo_monitor)" "mo_node demo_monitor = Ok ''/c_monitor/h''"
    by (simp_all add: demo_monitor_def etcd_ok_lease)
  have lw: "lease_works live_leases demo_registered" "\<not> lease_works live_leases (demo_registered\<lparr>monitorNodeLease := 6\<rparr>)"
    by (simp_all add: lease_works_def live_leases_def demo_registered_def)
  obtain m' info' where a: "saveUpdateResults demo_monitor (\<lambda>_. []) zero_config 1700000000 (Some (ErrText ''x'')) None None demo_registered = (Ok (), m')"
    "registered demo_monitor ''/c_monitor/h'' m' info'"
    "\<And>k. mget info' k = (case mget ?es k of Some v \<Rightarrow> Some v | None \<Rightarrow> mget ?info k)"
    using saveUpdateResults_arrives [OF e r(1) refl p, of "\<lambda>_. []"] lw(1) by blast
  have "mget info' ''config_last_update_result'' = Some (JStr ''not-complete'')" "mget info' ''client_md5'' = Some (JStr ''d41d'')"
    by (simp_all add: a(3) result_entries_def)
  with a(1,2) saveUpdateResults_arrives [OF e r(2) refl p, of "\<lambda>_. []"] lw(2) show ?thesis by blast
qed

lemma registerMonitor_registers:
  assumes "etcd_ok live (mo_etcd E)" and "mo_node E = Ok node" and "mo_md5 E = Ok md5" and "mo_grant E (srv_state m) 45 = Ok (lease, srv)"
    and "live srv lease" and "\<And>s. mo_keepAlive E s lease = None" and "ascii md5" and "ascii (ClientVer c)" and "list_all ascii (CONFIG_DIR c)"
  shows "\<exists>m'. registerMonitor E c m = (Ok (), m') \<and> monitorNodeLease m' = lease \<and> lease_works live m'
    \<and> registered E node m' [(''client_md5'', JStr (md5 @ [CHR 0x0A] @ ''VER:'' @ ClientVer c)), (''config_dir'', strings_json (CONFIG_DIR c))]"
proof -
  let ?info = "[(''client_md5'', JStr (md5 @ [CHR 0x0A] @ ''VER:'' @ ClientVer c)), (''config_dir'', strings_json (CONFIG_DIR c))]"
  have good: "good_info ?info"
    using assms(7,8) strings_json_plain [OF assms(9)] by (auto simp: good_info_def plain_json_JObj wf_map_def)
  have "\<exists>srv1. zk_Create (mo_etcd E) (mo_root E) srv node [] lease = Ok srv1 \<and> live srv1 = live srv"
    using etcd_okE [OF assms(1) disjI2, OF assms(5)] unfolding zk_Create_def by metis
  then obtain srv1 where srv1: "(if node_exists E srv node then Ok srv else zk_Create (mo_etcd E) (mo_root E) srv node [] lease) = Ok srv1"
    "live srv1 lease" using assms(5) by (cases "node_exists E srv node") auto
  obtain srv2 where put: "et_put (mo_etcd E) srv1 (P2CN (mo_root E) node) (marshal (\<lambda>_. []) (JObj ?info)) (Some lease) = Ok srv2"
    and lv: "live srv2 = live srv1"
    and gets: "\<And>k. et_get (mo_etcd E) srv2 k = (if k = P2CN (mo_root E) node then Ok [marshal (\<lambda>_. []) (JObj ?info)] else et_get (mo_etcd E) srv1 k)"
    using etcd_okE [OF assms(1) disjI2, OF srv1(2), where k = "P2CN (mo_root E) node"] by blast
  have "registerMonitor E c m = (Ok (), \<lparr>monitorNodeLease = lease, srv_state = srv2, \<dots> = monitor.more m\<rparr>)"
    using assms(2-4,6) srv1(1) put
    by (cases "node_exists E srv node") (simp_all add: registerMonitor_def Grant_def write_registration_def saveMonitorNodeLease_def getMonitorNodeLease_def zk_Set_def
        registerationInfo_def KeepAlive_def)
  then show ?thesis using gets good srv1(2) lv by (auto simp: registered_def lease_works_def)
qed

end
