(* ===== verification/ZkConn.thy ===== *)
theory ZkConn
  imports ZkStore ConfigSetup
begin

text \<open>
  The connection to the configuration server (\<^verbatim>\<open>storage/zk/storage.go\<close>): the one connection of the process, its test
  and replacement by a goroutine, and what a watcher of a root node (\<^verbatim>\<open>watchItem\<close> in \<^verbatim>\<open>configwatcher/zk_watcher.go\<close>)
  sees of a replacement.  A client of etcd and a channel are known by a number.
\<close>

record Conn =
  zkConn :: nat
  DriverReset :: nat

record Storage =
  st_Conn :: "Conn option"

text \<open>
  The package: the storage, whether and with which callback the testing goroutine was started (\<^verbatim>\<open>once\<close>), the numbers
  that were given out, and the channels that are closed.
\<close>

record 'cb zk_package =
  storage :: "Storage option"
  tester :: "'cb option option"
  clients :: nat
  channels :: nat
  closed_channels :: "nat list"
  closed_clients :: "nat list"

definition zk_unused :: "'cb zk_package" where
  "zk_unused = \<lparr>storage = None, tester = None, clients = 0, channels = 0, closed_channels = [], closed_clients = []\<rparr>"

section \<open>The connection of the process\<close>

text \<open>\<open>dial\<close> is the error of \<^verbatim>\<open>clientv3.New\<close> with the addresses of the environment.\<close>

definition CreateConn :: "zk_config \<Rightarrow> Config \<Rightarrow> (string list \<Rightarrow> goerr option) \<Rightarrow> 'cb option \<Rightarrow> 'cb zk_package \<Rightarrow> (Storage option \<times> goerr option) \<times> 'cb zk_package" where
  "CreateConn zk c dial callback P =
     (case mget (zk_hosts zk) (ENV c) of
        None \<Rightarrow> ((None, Some (ErrText (''Defined ENV('' @ ENV c @ '') is not valid, it must one of ['' @ Join (map fst (zk_hosts zk)) '' '' @ '']''))), P)
      | Some hosts \<Rightarrow>
          (case dial hosts of
             Some e \<Rightarrow> ((Some \<lparr>st_Conn = None\<rparr>, Some e), P)
           | None \<Rightarrow>
               ((Some \<lparr>st_Conn = Some \<lparr>zkConn = clients P, DriverReset = channels P\<rparr>\<rparr>, None),
                P\<lparr>clients := Suc (clients P), channels := Suc (channels P),
                  tester := (case tester P of None \<Rightarrow> Some callback | t \<Rightarrow> t)\<rparr>)))"

definition GetConn :: "zk_config \<Rightarrow> Config \<Rightarrow> (string list \<Rightarrow> goerr option) \<Rightarrow> 'cb option \<Rightarrow> 'cb zk_package \<Rightarrow> (Storage option \<times> goerr option) \<times> 'cb zk_package" where
  "GetConn zk c dial callback P =
     (case storage P of
        Some st \<Rightarrow> ((Some st, None), P)
      | None \<Rightarrow> (case CreateConn zk c dial callback P of (r, P1) \<Rightarrow> (r, P1\<lparr>storage := fst r\<rparr>)))"

text \<open>An operation that reads a field of the connection of a storage, as every operation but \<^verbatim>\<open>Close\<close> does (its body is empty).\<close>

definition with_conn :: "Storage option \<Rightarrow> (Conn \<Rightarrow> 'a res) \<Rightarrow> 'a res" where
  "with_conn st f =
     (case st of
        None \<Rightarrow> Panic ''invalid memory address or nil pointer dereference''
      | Some s \<Rightarrow> (case st_Conn s of None \<Rightarrow> Panic ''invalid memory address or nil pointer dereference'' | Some conn \<Rightarrow> f conn))"

definition GetOneHost :: "zk_config \<Rightarrow> Config \<Rightarrow> string res" where
  "GetOneHost zk c =
     (case mget (zk_hosts zk) (ENV c) of
        Some (h # hs) \<Rightarrow> Ok h
      | _ \<Rightarrow> Panic ''index out of range'')"

section \<open>Testing the connection\<close>

datatype test_action = Sleep int | Refresh string bool

definition CreateDriverResetChan :: "Conn \<Rightarrow> 'cb zk_package \<Rightarrow> Conn \<times> 'cb zk_package" where
  "CreateDriverResetChan conn P = (conn\<lparr>DriverReset := channels P\<rparr>, P\<lparr>channels := Suc (channels P)\<rparr>)"

text \<open>
  The replacement of the client: the old one is closed, the new one takes its place, the channel is
  closed, which wakes all that wait for it, and a new one is made.
\<close>

definition replace_client :: "Conn \<Rightarrow> 'cb zk_package \<Rightarrow> Conn \<times> 'cb zk_package" where
  "replace_client conn P =
     (let P1 = P\<lparr>closed_clients := zkConn conn # closed_clients P, clients := Suc (clients P),
                 closed_channels := DriverReset conn # closed_channels P\<rparr>
      in CreateDriverResetChan (conn\<lparr>zkConn := clients P\<rparr>) P1)"

text \<open>
  One round of the test.  \<open>heartbeat\<close> and \<open>dial\<close> are the errors of the request for the heartbeat key and of a new
  connection, \<open>r\<close> is the random number, which \<^verbatim>\<open>Int63n\<close> takes from \<open>0\<close> up to the given range.
\<close>

definition test_conn ::
    "Config \<Rightarrow> int \<Rightarrow> goerr option \<Rightarrow> goerr option \<Rightarrow> 'cb option \<Rightarrow> Conn \<Rightarrow> 'cb zk_package
     \<Rightarrow> (test_action list \<times> Conn \<times> 'cb zk_package) res" where
  "test_conn c r heartbeat dial callback conn P =
     (case heartbeat of
        None \<Rightarrow>
          (if ETCD_RETRY_INTERVAL_RANGE c \<le> 0 then Panic ''invalid argument to Int63n''
           else Ok ([Sleep (r mod ETCD_RETRY_INTERVAL_RANGE c + 1 + ETCD_MIN_RETRY_INTERVAL c)], conn, P))
      | Some e \<Rightarrow>
          (case dial of
             Some e' \<Rightarrow> Ok ([Sleep 1], conn, P)
           | None \<Rightarrow>
               (case replace_client conn P of (conn', P') \<Rightarrow>
                  Ok ((case callback of None \<Rightarrow> [] | Some cb \<Rightarrow> [Refresh ''*'' True]) @ [Sleep 1], conn', P'))))"

text \<open>The channels that are in use are those that are not closed.\<close>

definition conn_ok :: "Conn \<Rightarrow> 'cb zk_package \<Rightarrow> bool" where
  "conn_ok conn P \<longleftrightarrow> zkConn conn < clients P \<and> DriverReset conn < channels P
     \<and> DriverReset conn \<notin> set (closed_channels P) \<and> zkConn conn \<notin> set (closed_clients P)
     \<and> (\<forall>n \<in> set (closed_channels P). n < channels P) \<and> (\<forall>n \<in> set (closed_clients P). n < clients P)"

lemma CreateConn_ok:
  assumes "CreateConn zk c dial callback zk_unused = ((Some st, None), P)"
  shows "\<exists>conn. st_Conn st = Some conn \<and> conn_ok conn P \<and> tester P = Some callback"
  using assms by (auto simp: CreateConn_def zk_unused_def conn_ok_def split: option.splits)

lemma test_conn_ok:
  "test_conn c r heartbeat dial callback conn P = Ok (acts, conn', P') \<Longrightarrow> conn_ok conn P \<Longrightarrow> conn_ok conn' P'"
  by (auto simp: test_conn_def replace_client_def CreateDriverResetChan_def conn_ok_def Let_def less_Suc_eq
      split: option.splits if_splits)

text \<open>A round replaces the client exactly if the test fails and a new connection succeeds; then every watcher that waits
  for the channel is woken and all configurations are refreshed, if the goroutine has the callback.\<close>

lemma test_conn_replaces:
  assumes "test_conn c r heartbeat dial callback conn P = Ok (acts, conn', P')" and "conn_ok conn P"
  shows "(DriverReset conn \<in> set (closed_channels P')) = (heartbeat \<noteq> None \<and> dial = None)"
    and "(zkConn conn' \<noteq> zkConn conn) = (heartbeat \<noteq> None \<and> dial = None)"
    and "(Refresh ''*'' True \<in> set acts) = (heartbeat \<noteq> None \<and> dial = None \<and> callback \<noteq> None)"
  using assms
  by (auto simp: test_conn_def replace_client_def CreateDriverResetChan_def conn_ok_def Let_def
      split: option.splits if_splits)

lemma test_conn_sleep_bounds:
  assumes "test_conn c r None dial callback conn P = Ok (acts, conn', P')"
  shows "\<exists>n. acts = [Sleep n] \<and> ETCD_MIN_RETRY_INTERVAL c < n \<and> n \<le> ETCD_MIN_RETRY_INTERVAL c + ETCD_RETRY_INTERVAL_RANGE c"
proof -
  have pos: "0 < ETCD_RETRY_INTERVAL_RANGE c" and a: "acts = [Sleep (r mod ETCD_RETRY_INTERVAL_RANGE c + 1 + ETCD_MIN_RETRY_INTERVAL c)]"
    using assms by (auto simp: test_conn_def split: if_splits)
  from pos have "0 \<le> r mod ETCD_RETRY_INTERVAL_RANGE c" "r mod ETCD_RETRY_INTERVAL_RANGE c < ETCD_RETRY_INTERVAL_RANGE c"
    by (simp_all add: pos_mod_sign pos_mod_bound)
  then show ?thesis using a by auto
qed

section \<open>The testing goroutine\<close>

text \<open>
  The loop of the goroutine over the first rounds of its life: each round has its random number and the outcomes of the
  heartbeat and of a new connection.
\<close>

type_synonym round = "int \<times> goerr option \<times> goerr option"

fun test_loop :: "Config \<Rightarrow> 'cb option \<Rightarrow> round list \<Rightarrow> Conn \<Rightarrow> 'cb zk_package \<Rightarrow> (test_action list \<times> Conn \<times> 'cb zk_package) res" where
  "test_loop c callback [] conn P = Ok ([], conn, P)"
| "test_loop c callback ((r, heartbeat, dial) # rs) conn P =
     (case test_conn c r heartbeat dial callback conn P of
        Ok (acts, conn1, P1) \<Rightarrow>
          (case test_loop c callback rs conn1 P1 of
             Ok (acts', conn2, P2) \<Rightarrow> Ok (acts @ acts', conn2, P2)
           | Err e \<Rightarrow> Err e | Panic m \<Rightarrow> Panic m)
      | Err e \<Rightarrow> Err e | Panic m \<Rightarrow> Panic m)"

fun replaces :: "round \<Rightarrow> bool" where
  "replaces (r, heartbeat, dial) \<longleftrightarrow> heartbeat \<noteq> None \<and> dial = None"

definition refreshes :: "test_action list \<Rightarrow> nat" where
  "refreshes acts = count_list acts (Refresh ''*'' True)"

text \<open>One round of the test: it is a panic only for an empty range of waiting times, and a replacement closes the channel and the client in use.\<close>

lemma test_conn_round:
  assumes "0 < ETCD_RETRY_INTERVAL_RANGE c" and "conn_ok conn P" and "distinct (closed_channels P)" and "distinct (closed_clients P)"
  obtains acts conn' P' where "test_conn c r heartbeat dial callback conn P = Ok (acts, conn', P')"
    and "conn_ok conn' P'" and "distinct (closed_channels P')" and "distinct (closed_clients P')"
    and "length (closed_channels P') = length (closed_channels P) + of_bool (replaces (r, heartbeat, dial))"
    and "length (closed_clients P') = length (closed_clients P) + of_bool (replaces (r, heartbeat, dial))"
    and "refreshes acts = of_bool (replaces (r, heartbeat, dial) \<and> callback \<noteq> None)"
proof -
  have "\<exists>acts conn' P'. test_conn c r heartbeat dial callback conn P = Ok (acts, conn', P')"
    using assms(1) by (auto simp: test_conn_def split: option.split prod.split)
  then obtain acts conn' P' where t: "test_conn c r heartbeat dial callback conn P = Ok (acts, conn', P')" by blast
  have ok: "conn_ok conn' P'" using test_conn_ok [OF t assms(2)] .
  show thesis
    by (rule that [OF t ok])
      (use t assms in \<open>auto simp: test_conn_def replace_client_def CreateDriverResetChan_def conn_ok_def refreshes_def Let_def
         split: option.splits if_splits\<close>)
qed

lemma test_loop_rounds:
  assumes "0 < ETCD_RETRY_INTERVAL_RANGE c" and "conn_ok conn P" and "distinct (closed_channels P)" and "distinct (closed_clients P)"
  shows "\<exists>acts conn' P'. test_loop c callback rs conn P = Ok (acts, conn', P') \<and> conn_ok conn' P'
    \<and> distinct (closed_channels P') \<and> distinct (closed_clients P')
    \<and> length (closed_channels P') = length (closed_channels P) + length (filter replaces rs)
    \<and> length (closed_clients P') = length (closed_clients P) + length (filter replaces rs)
    \<and> refreshes acts = (if callback = None then 0 else length (filter replaces rs))"
  using assms(2-)
proof (induction rs arbitrary: conn P)
  case Nil
  then show ?case by (simp add: refreshes_def)
next
  case (Cons x rs)
  obtain r heartbeat dial where x: "x = (r, heartbeat, dial)" by (cases x)
  obtain acts conn1 P1 where t: "test_conn c r heartbeat dial callback conn P = Ok (acts, conn1, P1)"
    and ok: "conn_ok conn1 P1" "distinct (closed_channels P1)" "distinct (closed_clients P1)"
    and n: "length (closed_channels P1) = length (closed_channels P) + of_bool (replaces (r, heartbeat, dial))"
      "length (closed_clients P1) = length (closed_clients P) + of_bool (replaces (r, heartbeat, dial))"
      "refreshes acts = of_bool (replaces (r, heartbeat, dial) \<and> callback \<noteq> None)"
    using test_conn_round [OF assms(1) Cons.prems] by blast
  obtain acts' conn2 P2 where "test_loop c callback rs conn1 P1 = Ok (acts', conn2, P2)" and "conn_ok conn2 P2"
    and "distinct (closed_channels P2)" "distinct (closed_clients P2)"
    and "length (closed_channels P2) = length (closed_channels P1) + length (filter replaces rs)"
    and "length (closed_clients P2) = length (closed_clients P1) + length (filter replaces rs)"
    and "refreshes acts' = (if callback = None then 0 else length (filter replaces rs))"
    using Cons.IH [OF ok] by blast
  with t n show ?case by (auto simp: x refreshes_def)
qed

text \<open>C20: however the tests of the connection turn out, the testing goroutine never panics when the range of waiting times is positive, it never closes
  a channel or a client twice, and the client and the channel in use are always open ones; each replacement of the client closes one
  channel and one client and refreshes all configurations once, if the first user of the connection gave a callback.\<close>

theorem test_loop_well_formed:
  assumes "CreateConn zk c dial callback zk_unused = ((Some st, None), P)" and "st_Conn st = Some conn"
    and "0 < ETCD_RETRY_INTERVAL_RANGE c"
  shows "\<exists>acts conn' P'. test_loop c callback rs conn P = Ok (acts, conn', P') \<and> conn_ok conn' P'
    \<and> distinct (closed_channels P') \<and> distinct (closed_clients P')
    \<and> length (closed_channels P') = length (filter replaces rs)
    \<and> length (closed_clients P') = length (filter replaces rs)
    \<and> refreshes acts = (if callback = None then 0 else length (filter replaces rs))"
proof -
  have "conn_ok conn P" using CreateConn_ok [OF assms(1)] assms(2) by simp
  moreover have "closed_channels P = []" "closed_clients P = []"
    using assms(1) by (auto simp: CreateConn_def zk_unused_def split: option.splits)
  ultimately show ?thesis using test_loop_rounds [OF assms(3), of conn P callback rs] by simp
qed

theorem test_loop_well_formed_witness:
  "\<exists>acts conn' P'. test_loop (zero_config\<lparr>ETCD_RETRY_INTERVAL_RANGE := 3\<rparr>) (Some ())
       [(7, None, None), (7, Some (ErrText ''timeout''), Some (ErrText ''refused'')), (7, Some (ErrText ''timeout''), None)]
       \<lparr>zkConn = 0, DriverReset = 0\<rparr> \<lparr>storage = None, tester = Some (Some ()), clients = 1, channels = 1, closed_channels = [], closed_clients = []\<rparr>
     = Ok (acts, conn', P') \<and> conn_ok conn' P' \<and> length (closed_clients P') = 1 \<and> refreshes acts = 1"
proof -
  let ?c = "zero_config\<lparr>ETCD_RETRY_INTERVAL_RANGE := 3\<rparr>"
  let ?P = "\<lparr>storage = None, tester = Some (Some ()), clients = 1, channels = 1, closed_channels = [], closed_clients = []\<rparr>"
  have "CreateConn \<lparr>zk_hosts = [('''', [''10.1.2.57:2379''])], zk_root = ''/c''\<rparr> ?c (\<lambda>_. None) (Some ()) zk_unused
      = ((Some \<lparr>st_Conn = Some \<lparr>zkConn = 0, DriverReset = 0\<rparr>\<rparr>, None), ?P)"
    by (simp add: CreateConn_def zk_unused_def zero_config_def)
  from test_loop_well_formed [OF this, of "\<lparr>zkConn = 0, DriverReset = 0\<rparr>"
      "[(7, None, None), (7, Some (ErrText ''timeout''), Some (ErrText ''refused'')), (7, Some (ErrText ''timeout''), None)]"]
  show ?thesis by auto
qed

section \<open>A failed first connection\<close>

text \<open>C40: the connection is made once: after a success every later call gets the same connection, and the callback of
  the first call is the one that refreshes the configurations.  After a failure to connect every later call
  gets a storage without a connection and no error, and the first use of a field of it is a panic; the connection is never tried again.\<close>

theorem GetConn_once:
  assumes "GetConn zk c dial callback zk_unused = ((st, e), P)" and "mget (zk_hosts zk) (ENV c) = Some hosts"
  shows "GetConn zk c dial' callback' P = ((st, None), P)
    \<and> (e = None \<longrightarrow> (\<exists>conn. (\<forall>f :: Conn \<Rightarrow> 'a res. with_conn st f = f conn) \<and> conn_ok conn P \<and> tester P = Some callback))
    \<and> (e \<noteq> None \<longrightarrow> (\<forall>f :: Conn \<Rightarrow> 'a res. is_panic (with_conn st f)))"
proof (cases "dial hosts")
  case None
  with assms have "st = Some \<lparr>st_Conn = Some \<lparr>zkConn = 0, DriverReset = 0\<rparr>\<rparr>" "e = None"
    "P = \<lparr>storage = st, tester = Some callback, clients = 1, channels = 1, closed_channels = [], closed_clients = []\<rparr>"
    by (auto simp: GetConn_def CreateConn_def zk_unused_def)
  then show ?thesis by (simp add: GetConn_def with_conn_def conn_ok_def exI [of _ "\<lparr>zkConn = 0, DriverReset = 0\<rparr>"])
next
  case (Some x)
  with assms have "st = Some \<lparr>st_Conn = None\<rparr>" "e = Some x" "storage P = st"
    by (auto simp: GetConn_def CreateConn_def zk_unused_def)
  then show ?thesis by (simp add: GetConn_def with_conn_def)
qed

theorem GetConn_once_witness:
  "GetConn \<lparr>zk_hosts = [(''PROD'', [''10.1.2.57:2379''])], zk_root = ''/c''\<rparr> (zero_config\<lparr>ENV := ''PROD''\<rparr>) (\<lambda>_. None) (None :: unit option)
     (snd (GetConn \<lparr>zk_hosts = [(''PROD'', [''10.1.2.57:2379''])], zk_root = ''/c''\<rparr> (zero_config\<lparr>ENV := ''PROD''\<rparr>)
        (\<lambda>_. Some (ErrText ''timeout'')) None zk_unused))
   = ((Some \<lparr>st_Conn = None\<rparr>, None), snd (GetConn \<lparr>zk_hosts = [(''PROD'', [''10.1.2.57:2379''])], zk_root = ''/c''\<rparr> (zero_config\<lparr>ENV := ''PROD''\<rparr>)
        (\<lambda>_. Some (ErrText ''timeout'')) None zk_unused))"
proof -
  let ?zk = "\<lparr>zk_hosts = [(''PROD'', [''10.1.2.57:2379''])], zk_root = ''/c''\<rparr>"
  let ?c = "zero_config\<lparr>ENV := ''PROD''\<rparr>"
  let ?P = "snd (GetConn ?zk ?c (\<lambda>_. Some (ErrText ''timeout'')) (None :: unit option) zk_unused)"
  have "GetConn ?zk ?c (\<lambda>_. Some (ErrText ''timeout'')) (None :: unit option) zk_unused
      = ((Some \<lparr>st_Conn = None\<rparr>, Some (ErrText ''timeout'')), ?P)"
    by (simp add: GetConn_def CreateConn_def zk_unused_def)
  from GetConn_once [OF this, where dial' = "\<lambda>_. None" and callback' = None and ?'a = unit] show ?thesis by simp
qed

end
