(* ===== verification/Startup.thy ===== *)
theory Startup
  imports UpdateLaws Reports ZkConn
begin

text \<open>
  The start of the watchers (\<^verbatim>\<open>configwatcher/zk_watcher.go\<close>: \<^verbatim>\<open>Start\<close>): the connection to the server, and then, in a goroutine, the
  registration of the client, the nodes that were registered before, the update of all configurations and the
  watchers of the roots that the schema files name.  A failed registration is only logged.
\<close>

definition watch_roots :: "string list \<Rightarrow> registry \<Rightarrow> registry" where
  "watch_roots items r = foldl (\<lambda>r rootNode. snd (AddToWatchList rootNode r)) r items"

definition start_routine ::
    "('d, 'e, 'o) env \<Rightarrow> tools \<Rightarrow> 'm monitor_env \<Rightarrow> 'm monitor \<Rightarrow> registry \<Rightarrow> ('d, 'e) world
     \<Rightarrow> (registry \<times> ('d, 'e) world \<times> bool) res option \<times> 'm monitor" where
  "start_routine E T mon m r w =
     (case registerMonitor mon (cfg E) m of
        (Panic x, m1) \<Rightarrow> (Some (Panic x), m1)
      | (_, m1) \<Rightarrow>
          (case LoadRegisteredNodesFromDisk E r (cl w) of
             (Ok (loaded, r1), s) \<Rightarrow>
               ((case updateProjectConfigByRootNode E T True ''*'' True r1 (w\<lparr>cl := s\<rparr>) of
                   None \<Rightarrow> None
                 | Some (Ok (u, recheck)) \<Rightarrow>
                     Some (Ok (watch_roots (GetAllSchemaItemRootNodes (md5_hex T) (files E) (cfg E)) r1, uw u, recheck))
                 | Some (Err e) \<Rightarrow> Some (Err e)
                 | Some (Panic x) \<Rightarrow> Some (Panic x)), m1)
           | (Err e, s) \<Rightarrow> (Some (Err e), m1)
           | (Panic x, s) \<Rightarrow> (Some (Panic x), m1)))"

text \<open>\<^verbatim>\<open>Start\<close> itself returns the error of the connection; the goroutine runs only without one.\<close>

definition Start ::
    "zk_config \<Rightarrow> Config \<Rightarrow> (string list \<Rightarrow> goerr option) \<Rightarrow> 'cb \<Rightarrow> 'cb zk_package \<Rightarrow> unit res \<times> Storage option \<times> 'cb zk_package" where
  "Start zk c dial updateAll P =
     (case GetConn zk c dial (Some updateAll) P of
        ((st, Some e), P1) \<Rightarrow> (Err e, st, P1)
      | ((st, None), P1) \<Rightarrow> (Ok (), st, P1))"

section \<open>What the start reaches\<close>

lemma watch_roots_attended: "attended rt (watch_roots items r) \<longleftrightarrow> attended rt r \<or> rt \<in> set items"
  by (induction items arbitrary: r) (auto simp: watch_roots_def attended_AddToWatchList)

lemma AddToWatchList_nodes [simp]: "registeredNodes (snd (AddToWatchList n r)) = registeredNodes r"
  by (simp add: AddToWatchList_def)

lemma watch_roots_nodes [simp]: "registeredNodes (watch_roots items r) = registeredNodes r"
  by (induction items arbitrary: r) (simp_all add: watch_roots_def)

definition nodes_attended :: "registry \<Rightarrow> bool" where
  "nodes_attended r \<longleftrightarrow> (\<forall>n \<in> fst ` set (registeredNodes r). attended (root_of n) r)"

lemma load_node_attended:
  assumes "nodes_attended r" and "load_node (Ok r) nj = Ok r'"
  shows "nodes_attended r'"
proof -
  obtain node where r': "r' = snd (AddToWatchList (root_of (fst nj)) (setRegisterdNodeInfo (fst nj) node r))"
    using assms(2) by (auto simp: load_node_def res_bind_eq_Ok Let_def)
  have "fst ` set (registeredNodes r') = insert (fst nj) (fst ` set (registeredNodes r))"
    by (simp add: r' setRegisterdNodeInfo_def keys_mset)
  then show ?thesis using assms(1) by (simp only: nodes_attended_def r' attended_AddToWatchList attended_setRegisterd) blast
qed

lemma load_nodes_attended:
  "foldl load_node (Ok r) nodes = Ok r' \<Longrightarrow> nodes_attended r \<Longrightarrow> nodes_attended r'"
proof (induction nodes arbitrary: r)
  case (Cons nj nodes)
  have stuck: "foldl load_node x nodes \<noteq> Ok r'" if "\<And>v. x \<noteq> Ok v" for x
    using that by (induction nodes arbitrary: x) (auto simp: load_node_def res_bind_def split: res.splits)
  obtain r1 where "load_node (Ok r) nj = Ok r1" using Cons.prems(1) stuck [of "load_node (Ok r) nj"] by (cases "load_node (Ok r) nj") auto
  then show ?case using Cons load_node_attended by auto
qed simp

text \<open>Loading the nodes reads the open database and leaves it as it is.\<close>

lemma load_keeps_client:
  assumes "db_open E is_open s" and "LoadRegisteredNodesFromDisk E r s = (x, s')"
  shows "s' = s"
proof -
  have "ldb_ready (engine E) is_open (disk s)" using assms(1) by (simp add: db_open_def)
  then have "snd (Conn_Get (engine E) (reopen_db E) KEY_NAME_OF_STORE_DYNAMIC_REG_CONF_NODES (disk s)) = disk s"
    using Conn_Get_open by (metis snd_conv)
  then show ?thesis
    using assms(2) getLocalStorage_open [OF assms(1)] by (auto simp: LoadRegisteredNodesFromDisk_def split: prod.splits)
qed

text \<open>C3: when the start has gone through, the database has the version of the server of every item that a schema file names or that a program
  had registered before, no matter what it held; a later process hands this version out even when the server cannot be reached.  The
  roots of all of them are watched or about to be: those that the schema files name and those of the registered nodes,
  which were loaded from the database.\<close>

theorem start_up_to_date:
  assumes "db_open E is_open (cl w)" and "keys_ok E" and "\<not> DEVMODE (cfg E)" and "registeredNodes r = []"
    and st: "start_routine E T mon m r w = (Some (Ok (r', w', recheck)), m')"
  shows "(\<forall>n c j. looked_at E T ''*'' r' n \<and> readable E (cl w) n c j \<longrightarrow> disk_of E n (cl w') = Ok c
        \<and> (\<forall>m e sf t1 t2. GetFromMem n m = None \<longrightarrow>
             (\<exists>s. GetConfig (E\<lparr>remote := Err e\<rparr>) t1 t2 n None sf False ((cl w')\<lparr>mem := m\<rparr>) = Some (Ok j, s))))
    \<and> (\<forall>n \<in> fst ` set (registeredNodes r'). attended (root_of n) r')
    \<and> (\<forall>rt \<in> set (GetAllSchemaItemRootNodes (md5_hex T) (files E) (cfg E)). attended rt r')"
proof -
  obtain loaded r1 s u where load: "LoadRegisteredNodesFromDisk E r (cl w) = (Ok (loaded, r1), s)"
    and up: "updateProjectConfigByRootNode E T True ''*'' True r1 (w\<lparr>cl := s\<rparr>) = Some (Ok (u, recheck))"
    and r': "r' = watch_roots (GetAllSchemaItemRootNodes (md5_hex T) (files E) (cfg E)) r1" and w': "w' = uw u"
    using st by (auto simp: start_routine_def split: prod.splits res.splits option.splits)
  have s: "s = cl w" using load_keeps_client [OF assms(1) load] .
  have "nodes_attended r" using assms(4) by (simp add: nodes_attended_def)
  then have "nodes_attended r1" using load
    by (auto simp: LoadRegisteredNodesFromDisk_def res_bind_eq_Ok split: prod.splits res.splits dest: load_nodes_attended)
  then have nodes: "nodes_attended r'" by (auto simp: r' nodes_attended_def watch_roots_attended)
  have disk: "disk_of E n (cl w') = Ok c" if "looked_at E T ''*'' r' n" "readable E (cl w) n c j" for n c j
  proof -
    have "looked_at E T ''*'' r1 n" using that(1) by (simp add: looked_at_def r')
    then show ?thesis using root_update_stored [OF _ assms(2,3) up] assms(1) that(2) by (simp add: s w')
  qed
  have later: "\<exists>s. GetConfig (E\<lparr>remote := Err e\<rparr>) t1 t2 n None sf False ((cl w')\<lparr>mem := m\<rparr>) = Some (Ok j, s)"
    if "looked_at E T ''*'' r' n" "readable E (cl w) n c j" "GetFromMem n m = None" for n c j m e sf t1 t2
    by (rule GetConfig_from_disk [OF _ _ that(3), of _ _ c])
      (use disk [OF that(1,2)] that(2) in \<open>simp_all add: disk_of_def readable_def\<close>)
  have roots: "attended rt r'" if "rt \<in> set (GetAllSchemaItemRootNodes (md5_hex T) (files E) (cfg E))" for rt
    using that by (simp add: r' watch_roots_attended)
  show ?thesis
    by (intro conjI allI impI ballI; (elim conjE)?)
      (rule disk later roots nodes [unfolded nodes_attended_def, rule_format]; assumption)+
qed

theorem start_up_to_date_witness:
  "\<exists>s r' w' recheck m'. SaveRegisteredNodesToDisk (demo_env (Ok ())) demo_pay (demo_client demo_server) = (Ok True, s)
     \<and> start_routine (demo_env (Ok ())) demo_tools demo_monitor \<lparr>monitorNodeLease = 0, srv_state = ([], [])\<rparr> empty_registry (demo_world\<lparr>cl := s\<rparr>)
         = (Some (Ok (r', w', recheck)), m')
     \<and> disk_of (demo_env (Ok ())) ''Pay.Db.host'' (cl w') = Ok ''x'' \<and> attended ''Pay'' r'"
proof -
  let ?E = "demo_env (Ok ())" and ?n = "''Pay.Db.host''" and ?m = "\<lparr>monitorNodeLease = 0, srv_state = ([], [])\<rparr>"
  have ok: "wf_map (registeredNodes demo_pay)" "\<forall>(n, i) \<in> set (registeredNodes demo_pay). ascii n \<and> ascii (ni_Name i)"
    "registeredNodes empty_registry = []" by (simp_all add: demo_pay_def wf_map_def empty_registry_def)
  obtain s r1 where save: "SaveRegisteredNodesToDisk ?E demo_pay (demo_client demo_server) = (Ok True, s)"
    and load: "LoadRegisteredNodesFromDisk ?E empty_registry s = (Ok (True, r1), s)"
    and nodes: "\<And>n. mget (registeredNodes r1) n = map_option reloaded (mget (registeredNodes demo_pay) n)"
    using registered_nodes_reload [OF demo_open ok, of "Ok ()" demo_server] by blast
  have key: "fst ` set (registeredNodes r1) = {?n}"
  proof -
    have "n \<in> fst ` set (registeredNodes r1) \<longleftrightarrow> n = ?n" for n
      using nodes [of n] map_of_eq_None_iff [of "registeredNodes r1" n] by (auto simp: demo_pay_def split: if_splits)
    then show ?thesis by blast
  qed
  have s: "s = (demo_client demo_server)\<lparr>disk := (disk (demo_client demo_server))\<lparr>rconn :=
      Some (True, [(KEY_NAME_OF_STORE_DYNAMIC_REG_CONF_NODES, marshal (\<lambda>_. []) (nodes_json demo_pay))])\<rparr>\<rparr>"
    using save getLocalStorage_open [OF demo_open, of "Ok ()" demo_server]
    by (simp add: SaveRegisteredNodesToDisk_def demo_client_def demo_env_def Conn_Put_def getDbRWLock_def conn_put_def map_engine_def releasedbRWLock_def)
  have op: "db_open ?E fst (cl (demo_world\<lparr>cl := s\<rparr>))"
    using map_engine_ok by (simp add: db_open_def s demo_client_def demo_env_def ldb_ready_def)
  have dev: "\<not> DEVMODE (cfg ?E)" by (simp add: demo_env_def demo_config_def zero_config_def)
  have ns: "LoadSchemaFiles (md5_hex demo_tools) (files ?E) (cfg ?E) = []"
    by (simp add: LoadSchemaFiles_def demo_env_def demo_config_def zero_config_def)
  have srv: "GetFromServer ?E ?n s = Ok ''x''"
    using demo_facts(4) GetFromServer_server [of s "demo_client demo_server" ?E ?n] by (simp add: s)
  have "\<exists>e. disk_of ?E ?n s = Err e"
    using getLocalStorage_open [OF op]
    by (simp add: disk_of_def GetFromDisk_def, simp add: s demo_env_def demo_client_def Conn_Get_def getDbRWLock_def conn_get_def map_engine_def
        KEY_NAME_OF_STORE_DYNAMIC_REG_CONF_NODES_def)
  then obtain e where e: "disk_of ?E ?n s = Err e" by blast
  have "all_quiet ?E (map fst (registeredNodes r1)) (cl (demo_world\<lparr>cl := s\<rparr>))"
    using key e srv demo_facts(5) by (simp add: all_quiet_def quiet_def)
  from registered_update_returns [OF op demo_keys dev ns this] obtain u rc where
    u: "updateProjectConfigByRootNode ?E demo_tools True ''*'' True r1 (demo_world\<lparr>cl := s\<rparr>) = Some (Ok (u, rc))" by blast
  obtain m1 where reg: "registerMonitor demo_monitor (cfg ?E) ?m = (Ok (), m1)"
    using registerMonitor_registers [of live_leases demo_monitor "''/c_monitor/h''" "''d41d''" ?m 7 "([], [7])" "cfg ?E"] etcd_ok_lease
    by (auto simp: demo_monitor_def live_leases_def demo_env_def demo_config_def zero_config_def)
  let ?r' = "watch_roots (GetAllSchemaItemRootNodes (md5_hex demo_tools) (files ?E) (cfg ?E)) r1"
  have st: "start_routine ?E demo_tools demo_monitor ?m empty_registry (demo_world\<lparr>cl := s\<rparr>) = (Some (Ok (?r', uw u, rc)), m1)"
    using reg load u by (simp add: start_routine_def)
  have "looked_at ?E demo_tools ''*'' ?r' ?n" using key by (simp add: looked_at_def of_root_node_def)
  moreover have "readable ?E s ?n ''x'' (Some [CHR 0x22, CHR ''x'', CHR 0x22])"
    using srv demo_facts(1,5) by (simp add: readable_def)
  ultimately have "disk_of ?E ?n (cl (uw u)) = Ok ''x''"
    using start_up_to_date [OF op demo_keys dev ok(3) st, THEN conjunct1, rule_format, of ?n "''x''"] by simp
  moreover have "attended (root_of ?n) ?r'"
    using start_up_to_date [OF op demo_keys dev ok(3) st, THEN conjunct2, THEN conjunct1] key by (simp only: watch_roots_nodes) blast
  moreover have "root_of ?n = ''Pay''" by code_simp
  ultimately show ?thesis using save st by force
qed

text \<open>
  The entry of a root is made by its watcher, not by the call that starts it: two nodes of one root that are loaded one after the other start two
  watchers of it.
\<close>

lemma two_watchers_of_root:
  assumes "\<not> watching (root_of a) r" and "root_of a = root_of b"
  shows "launched (snd (AddToWatchList (root_of b) (snd (AddToWatchList (root_of a) r)))) = launched r @ [root_of a, root_of a]"
  using assms by (simp add: AddToWatchList_def watching_def getWatchNodeFromWatchList_def)

end
