(* ===== verification/WatchLink.thy ===== *)
theory WatchLink
  imports ZkConn Steps
begin

text \<open>
  How a published version of a configuration reaches the stores: the watcher of its root (\<^verbatim>\<open>watchItem\<close> in \<^verbatim>\<open>configwatcher/zk_watcher.go\<close>) and the
  goroutine that tests and replaces the connection (\<^verbatim>\<open>CreateConn\<close> in \<^verbatim>\<open>storage/zk/storage.go\<close>), as a transition system.  The watcher
  waits for an event of its stream, for the closing of the channel that it read from the connection when it began to wait, or,
  after its stream was cancelled or has broken, for five seconds.  The start of the client
  (\<^verbatim>\<open>Start\<close>) refreshes all configurations and starts the watchers after that.  A refresh that cannot read the server is queued for a
  recheck, so it is still to be done.

  The etcd client: a watch is on exactly one key, on the client it was made with.  A stream that was open when the connection to the
  server failed is resumed when the same client recovers and then delivers what it missed; one that was asked for while
  the connection was down begins at the recovery.  The server may cancel a stream.
\<close>

text \<open>
  \<open>version\<close> counts the writes to keys of the root, \<open>announced\<close> is the version when the key of the root itself was written last,
  \<open>stored\<close> the version that was read last.
\<close>

record link =
  version :: nat
  announced :: nat
  stored :: nat
  conn :: Conn
  pkg :: "unit zk_package"
  up :: bool
  refreshing :: nat
  stream :: "(nat \<times> string) option"
  attached :: bool
  backlog :: nat
  waits_on :: nat
  events :: nat
  resting :: bool

abbreviation current :: "link \<Rightarrow> nat" where
  "current s \<equiv> zkConn (conn s)"

text \<open>The key that the watcher of a root watches, and the keys of the configurations of the root.\<close>

definition watched :: "string \<Rightarrow> string \<Rightarrow> string" where
  "watched zr name = P2CN zr (CN2P zr name)"

definition under_root :: "string \<Rightarrow> string \<Rightarrow> string \<Rightarrow> bool" where
  "under_root zr name k \<longleftrightarrow> k = watched zr name \<or> prefix (watched zr name @ ''.'') k"

definition listening :: "string \<Rightarrow> string \<Rightarrow> link \<Rightarrow> bool" where
  "listening zr name s \<longleftrightarrow> up s \<and> attached s \<and> stream s = Some (current s, watched zr name)"

text \<open>A write to the key \<open>k\<close> at the server.\<close>

definition put_key :: "string \<Rightarrow> string \<Rightarrow> string \<Rightarrow> link \<Rightarrow> link" where
  "put_key zr name k s =
     (let v = (if under_root zr name k then Suc (version s) else version s);
          seen = (attached s \<and> stream s = Some (current s, k))
      in s\<lparr>version := v, announced := (if k = watched zr name then v else announced s),
           events := (if seen \<and> up s then Suc (events s) else events s),
           backlog := (if seen \<and> \<not> up s then Suc (backlog s) else backlog s)\<rparr>)"

text \<open>\<^verbatim>\<open>Conn.ExistsW\<close>, and the return of the watcher to its \<^verbatim>\<open>select\<close>.\<close>

definition ExistsW :: "string \<Rightarrow> string \<Rightarrow> link \<Rightarrow> link" where
  "ExistsW zr path s =
     s\<lparr>stream := Some (current s, P2CN zr path), attached := up s, backlog := 0, events := 0,
       waits_on := DriverReset (conn s), resting := False\<rparr>"

inductive link_step :: "Config \<Rightarrow> string \<Rightarrow> string \<Rightarrow> link \<Rightarrow> link \<Rightarrow> bool" for c zr name where
  ls_put: "link_step c zr name s (put_key zr name k s)"
| ls_event: "\<not> resting s \<Longrightarrow> 0 < n \<Longrightarrow> n \<le> events s
    \<Longrightarrow> link_step c zr name s (s\<lparr>events := events s - n, refreshing := Suc (refreshing s), waits_on := DriverReset (conn s)\<rparr>)"
| ls_read: "0 < refreshing s \<Longrightarrow> up s \<Longrightarrow> link_step c zr name s (s\<lparr>refreshing := refreshing s - 1, stored := version s\<rparr>)"
| ls_unreadable: "0 < refreshing s \<Longrightarrow> \<not> up s \<Longrightarrow> link_step c zr name s s"
| ls_test: "test_conn c r heartbeat dial (Some ()) (conn s) (pkg s) = Ok (acts, conn', pkg') \<Longrightarrow> (heartbeat = None \<Longrightarrow> up s)
    \<Longrightarrow> link_step c zr name s (s\<lparr>conn := conn', pkg := pkg', up := (up s \<or> replaces (r, heartbeat, dial)),
          refreshing := refreshing s + refreshes acts\<rparr>)"
| ls_reset: "\<not> resting s \<Longrightarrow> waits_on s \<in> set (closed_channels (pkg s)) \<Longrightarrow> link_step c zr name s (ExistsW zr (CN2P zr name) s)"
| ls_cancelled: "\<not> resting s \<Longrightarrow> stream s = None \<Longrightarrow> events s = 0 \<Longrightarrow> link_step c zr name s (s\<lparr>resting := True\<rparr>)"
| ls_broken: "\<not> resting s \<Longrightarrow> stream s = Some (cl, k) \<Longrightarrow> cl \<noteq> current s \<Longrightarrow> link_step c zr name s (s\<lparr>resting := True\<rparr>)"
| ls_rewatch: "resting s \<Longrightarrow> link_step c zr name s (ExistsW zr (CN2P zr name) s)"
| ls_cancel: "stream s \<noteq> None \<Longrightarrow> link_step c zr name s (s\<lparr>stream := None\<rparr>)"
| ls_down: "link_step c zr name s (s\<lparr>up := False\<rparr>)"
| ls_recover: "\<not> up s
    \<Longrightarrow> link_step c zr name s (s\<lparr>up := True, attached := True, events := events s + (if stream s \<noteq> None then backlog s else 0), backlog := 0\<rparr>)"

inductive_cases link_stepE: "link_step c zr name s s'"

lemmas link_defs = put_key_def ExistsW_def listening_def watched_def Let_def


section \<open>While the watcher listens\<close>








lemma put_key_listening [simp]: "listening zr name (put_key zr name k s) = listening zr name s"
  by (simp add: link_defs)




section \<open>The gaps\<close>
















end
