(* ===== verification/Logger.thy ===== *)
theory Logger
  imports GoPath ConfigTypes Util
begin

text \<open>
  The log files (\<^verbatim>\<open>logger/logger.go\<close>): the loggers by level, the format of a line, and the writer that appends to a file
  per day and level or to one file for all levels.  The text of the date and of the time in front of a line, the
  place of the call and the errors of opening and writing a file are parameters.
\<close>

definition validLevels :: "string list" where
  "validLevels = [''INFO'', ''ERROR'', ''WARN'', ''DEFAULT'']"

record DatetimeLogFileWriter =
  logDir :: string
  level :: string

record CoSafeLogger =
  rl :: DatetimeLogFileWriter
  short_file :: bool

record log_state =
  loggers :: "(string, CoSafeLogger) gomap"
  logAsSingleFile :: bool
  log_files :: "(string, bytes) gomap"
  defaultOut :: "DatetimeLogFileWriter option"

record log_env =
  today :: string
  stamp :: string
  caller :: "(string \<times> int) option"
  open_log :: "string \<Rightarrow> goerr option"

section \<open>The writer\<close>

definition logFilename :: "bool \<Rightarrow> DatetimeLogFileWriter \<Rightarrow> string \<Rightarrow> string" where
  "logFilename single w dat =
     TrimRight (logDir w) ''/'' @ ''/'' @ (if single then ''all'' else ToLower (level w)) @ ''.'' @ dat @ ''.log''"

definition log_Write :: "log_env \<Rightarrow> DatetimeLogFileWriter \<Rightarrow> bytes \<Rightarrow> log_state \<Rightarrow> goerr option \<times> log_state" where
  "log_Write E w p s =
     (let file = logFilename (logAsSingleFile s) w (today E);
          q = (if logAsSingleFile s then [CHR 0x5B] @ level w @ [CHR 0x5D] @ '' '' @ p else p)
      in case open_log E file of
           Some e \<Rightarrow> (Some (ErrText (''Failed to open log file: '' @ file @ '' with error: '' @ err_text e)), s)
         | None \<Rightarrow> (None, s\<lparr>log_files := mset (log_files s) file ((case mget (log_files s) file of None \<Rightarrow> [] | Some b \<Rightarrow> b) @ q)\<rparr>))"

section \<open>Lines\<close>

definition getFormatHeader :: "log_env \<Rightarrow> CoSafeLogger \<Rightarrow> string" where
  "getFormatHeader E cl =
     (if \<not> short_file cl then []
      else (case caller E of
              None \<Rightarrow> ''???'' @ '':'' @ Itoa 0 @ '':''
            | Some (file, lineno) \<Rightarrow> path_Base file @ '':'' @ Itoa lineno @ '':''))"

text \<open>\<^verbatim>\<open>log.Logger.Output\<close> with \<^verbatim>\<open>LstdFlags\<close>: the time, the text, and a line break if the text does not end with one.\<close>

definition log_line :: "log_env \<Rightarrow> string \<Rightarrow> string" where
  "log_line E s = stamp E @ s @ (if s = [] \<or> last s \<noteq> CHR 0x0A then [CHR 0x0A] else [])"

text \<open>
  \<^verbatim>\<open>Printf\<close>, \<^verbatim>\<open>Print\<close> and \<^verbatim>\<open>Println\<close>; \<open>formatted\<close> is what the format makes of its arguments, which are strings for the other two.  An
  error of the writer is dropped.
\<close>

definition Printf :: "log_env \<Rightarrow> CoSafeLogger \<Rightarrow> string \<Rightarrow> log_state \<Rightarrow> log_state" where
  "Printf E cl formatted s = snd (log_Write E (rl cl) (log_line E (getFormatHeader E cl @ formatted)) s)"

definition Print :: "log_env \<Rightarrow> CoSafeLogger \<Rightarrow> string list \<Rightarrow> log_state \<Rightarrow> log_state" where
  "Print E cl v s = snd (log_Write E (rl cl) (log_line E (concat (getFormatHeader E cl # v))) s)"

definition Println :: "log_env \<Rightarrow> CoSafeLogger \<Rightarrow> string list \<Rightarrow> log_state \<Rightarrow> log_state" where
  "Println E cl v s = snd (log_Write E (rl cl) (log_line E (Join (getFormatHeader E cl # v) '' '' @ [CHR 0x0A])) s)"

section \<open>Loggers\<close>

definition CreateLogger :: "Config \<Rightarrow> string \<Rightarrow> CoSafeLogger" where
  "CreateLogger c lev = \<lparr>rl = \<lparr>logDir = LOG_DIR c, level = lev\<rparr>, short_file = True\<rparr>"

definition getLoggerByLevel :: "string \<Rightarrow> log_state \<Rightarrow> CoSafeLogger option" where
  "getLoggerByLevel lev s = mget (loggers s) lev"

definition addToLoggers :: "string \<Rightarrow> CoSafeLogger \<Rightarrow> log_state \<Rightarrow> log_state" where
  "addToLoggers lev cl s = s\<lparr>loggers := mset (loggers s) lev cl\<rparr>"

definition GetLogger :: "Config \<Rightarrow> string \<Rightarrow> log_state \<Rightarrow> CoSafeLogger res \<times> log_state" where
  "GetLogger c lev s =
     (if \<not> list_ex (\<lambda>dLevel. lev = dLevel) validLevels then (Panic (''Invalid logger level('' @ lev @ '')''), s)
      else case getLoggerByLevel lev s of
             Some cl \<Rightarrow> (Ok cl, s)
           | None \<Rightarrow> (let cl = CreateLogger c lev in (Ok cl, addToLoggers lev cl s)))"

definition InitDefaultLogger :: "Config \<Rightarrow> bool \<Rightarrow> log_state \<Rightarrow> log_state" where
  "InitDefaultLogger c debugEnabled s =
     s\<lparr>defaultOut := (if debugEnabled then Some \<lparr>logDir = LOG_DIR c, level = ''DEFAULT''\<rparr> else None)\<rparr>"

definition SetSingleFile :: "log_state \<Rightarrow> log_state" where
  "SetSingleFile s = s\<lparr>logAsSingleFile := True\<rparr>"

section \<open>Lines are kept\<close>

text \<open>A line that is written is the end of its file, after everything that was there, and no other file changes.\<close>

definition log_content :: "log_state \<Rightarrow> string \<Rightarrow> bytes" where
  "log_content s file = (case mget (log_files s) file of None \<Rightarrow> [] | Some b \<Rightarrow> b)"

lemma Printf_appends:
  assumes "open_log E (logFilename (logAsSingleFile s) (rl cl) (today E)) = None" and "\<not> logAsSingleFile s"
  shows "log_content (Printf E cl formatted s) (logFilename False (rl cl) (today E))
      = log_content s (logFilename False (rl cl) (today E)) @ log_line E (getFormatHeader E cl @ formatted)"
    and "f \<noteq> logFilename False (rl cl) (today E) \<Longrightarrow> log_content (Printf E cl formatted s) f = log_content s f"
  using assms by (simp_all add: Printf_def log_Write_def log_content_def Let_def)

text \<open>The files of two levels are different, unless all go to one file.\<close>

lemma level_files_distinct:
  assumes "a \<in> set validLevels" and "b \<in> set validLevels" and "a \<noteq> b"
  shows "logFilename False (rl (CreateLogger c a)) d \<noteq> logFilename False (rl (CreateLogger c b)) d"
proof -
  have "inj_on ToLower (set validLevels)"
    by (simp add: validLevels_def inj_on_def ToLower_def lower_def)
  then have "ToLower a \<noteq> ToLower b" using assms by (meson inj_onD)
  then show ?thesis by (simp add: logFilename_def CreateLogger_def)
qed

text \<open>A level that is known always has the logger that was made for it first.\<close>

lemma GetLogger_again:
  assumes "GetLogger c lev s = (Ok cl, s')"
  shows "GetLogger c' lev s' = (Ok cl, s') \<and> lev \<in> set validLevels"
  using assms by (auto simp: GetLogger_def getLoggerByLevel_def addToLoggers_def list_ex_iff Let_def split: if_splits option.splits)

end
