(* ===== verification/Owners.thy ===== *)
theory Owners
  imports GoPath
begin

text \<open>
  Owners and modes of directories (\<^verbatim>\<open>config/utils.go\<close>: \<^verbatim>\<open>Rchown\<close>, \<^verbatim>\<open>Rchmod\<close>, in the build for Linux): a walk over a directory,
  the system calls it makes, and what they leave when all of them succeed or one of them fails.
\<close>

section \<open>Walking over a directory\<close>

text \<open>
  What \<^verbatim>\<open>Lstat\<close> sees of a path: a file or a link, a directory that cannot be read, or a directory with its sorted names, of
  which one may have vanished before it is looked at.
\<close>

datatype fnode = NFile | NUnreadable | NDir "(string \<times> fnode option) list"

definition filepath_Join :: "string \<Rightarrow> string \<Rightarrow> string" where
  "filepath_Join a b = path_Clean (if a = [] then b else if b = [] then a else a @ ''/'' @ b)"

text \<open>
  \<^verbatim>\<open>filepath.Walk\<close> with a function that looks at the path only, as both of the callers' do.  The function works on a state
  and returns an error, which ends the walk.
\<close>

type_synonym 's visitor = "string \<Rightarrow> 's \<Rightarrow> goerr option \<times> 's"

definition and_then :: "goerr option \<times> 's \<Rightarrow> ('s \<Rightarrow> goerr option \<times> 's) \<Rightarrow> goerr option \<times> 's" where
  "and_then r k = (case r of (Some e, s) \<Rightarrow> (Some e, s) | (None, s) \<Rightarrow> k s)"

lemma and_then_cong [fundef_cong]:
  "r = r' \<Longrightarrow> (\<And>s. r' = (None, s) \<Longrightarrow> k s = k' s) \<Longrightarrow> and_then r k = and_then r' k'"
  by (auto simp: and_then_def split: prod.split option.split)

function walk :: "'s visitor \<Rightarrow> string \<Rightarrow> fnode \<Rightarrow> 's \<Rightarrow> goerr option \<times> 's"
  and walk_names :: "'s visitor \<Rightarrow> string \<Rightarrow> (string \<times> fnode option) list \<Rightarrow> 's \<Rightarrow> goerr option \<times> 's" where
  "walk f p NFile s = f p s"
| "walk f p NUnreadable s = and_then (f p s) (f p)"
| "walk f p (NDir es) s = and_then (f p s) (walk_names f p es)"
| "walk_names f p [] s = (None, s)"
| "walk_names f p ((n, None) # es) s = and_then (f (filepath_Join p n) s) (walk_names f p es)"
| "walk_names f p ((n, Some d) # es) s = and_then (walk f (filepath_Join p n) d s) (walk_names f p es)"
  by pat_completeness auto
termination
  by (relation "measure (\<lambda>x. case x of Inl (f, p, d, s) \<Rightarrow> size d | Inr (f, p, es, s) \<Rightarrow> size_list (size_prod (\<lambda>_. 0) (size_option size)) es)") auto

definition Walk :: "'s visitor \<Rightarrow> string \<Rightarrow> fnode option \<Rightarrow> 's \<Rightarrow> goerr option \<times> 's" where
  "Walk f p d s = (case d of None \<Rightarrow> f p s | Some d' \<Rightarrow> walk f p d' s)"

definition Rch :: "'s visitor \<Rightarrow> string \<Rightarrow> fnode option \<Rightarrow> 's \<Rightarrow> goerr option \<times> 's" where
  "Rch f dir d s = and_then (Walk f dir d s) (f dir)"

section \<open>The paths of a walk\<close>

fun visits :: "string \<Rightarrow> fnode \<Rightarrow> string list"
  and visits_names :: "string \<Rightarrow> (string \<times> fnode option) list \<Rightarrow> string list" where
  "visits p NFile = [p]"
| "visits p NUnreadable = [p, p]"
| "visits p (NDir es) = p # visits_names p es"
| "visits_names p [] = []"
| "visits_names p ((n, None) # es) = filepath_Join p n # visits_names p es"
| "visits_names p ((n, Some d) # es) = visits (filepath_Join p n) d @ visits_names p es"

fun each :: "'s visitor \<Rightarrow> string list \<Rightarrow> 's \<Rightarrow> goerr option \<times> 's" where
  "each f [] s = (None, s)"
| "each f (p # ps) s = and_then (f p s) (each f ps)"

lemma and_then_assoc: "and_then (and_then r k) l = and_then r (\<lambda>s. and_then (k s) l)"
  by (auto simp: and_then_def split: prod.split option.split)

lemma and_then_return: "and_then r (\<lambda>s. (None, s)) = r"
  by (auto simp: and_then_def split: prod.split option.split)

lemma each_append: "each f (ps @ qs) s = and_then (each f ps s) (each f qs)"
proof (induction ps arbitrary: s)
  case (Cons p ps)
  then have "each f (ps @ qs) = (\<lambda>s. and_then (each f ps s) (each f qs))" by blast
  then show ?case by (simp add: and_then_assoc)
qed (simp add: and_then_def)

lemma each_single: "each f [p] = f p"
  by (rule ext) (simp add: and_then_def split: prod.split option.split)

lemma walk_each:
  "walk f p d s = each f (visits p d) s"
  "walk_names f p es s = each f (visits_names p es) s"
proof (induction f p d s and f p es s rule: walk_walk_names.induct)
  case (2 f p s)
  show ?case by (simp add: and_then_return [unfolded and_then_def] and_then_def split: prod.split option.split)
next
  case (6 f p n d es s)
  then show ?case by (auto simp: each_append and_then_def split: prod.split option.split)
qed (auto simp: and_then_def split: prod.split option.split)

definition dir_visits :: "string \<Rightarrow> fnode option \<Rightarrow> string list" where
  "dir_visits dir d = (case d of None \<Rightarrow> [dir] | Some d' \<Rightarrow> visits dir d') @ [dir]"

lemma Rch_each: "Rch f dir d s = each f (dir_visits dir d) s"
proof -
  have "each f (dir_visits dir d) s = and_then (each f (case d of None \<Rightarrow> [dir] | Some d' \<Rightarrow> visits dir d') s) (f dir)"
    unfolding dir_visits_def by (simp only: each_append each_single)
  then show ?thesis by (cases d) (simp_all add: Rch_def Walk_def walk_each each_single del: each.simps)
qed

section \<open>Owners and modes\<close>

text \<open>
  The system: the file that a path leads to when its links are followed, and the error of a change to a file.
  Both calls follow links (\<^verbatim>\<open>os.Chown\<close>, not \<^verbatim>\<open>os.Lchown\<close>).
\<close>

record file_system =
  resolve :: "string \<Rightarrow> string option"
  denied :: "string \<Rightarrow> goerr option"

definition change :: "file_system \<Rightarrow> string \<Rightarrow> 'v \<Rightarrow> (string \<Rightarrow> 'v) visitor" where
  "change F op v p own =
     (case resolve F p of
        None \<Rightarrow> (Some (ErrText (op @ '' '' @ p @ '': no such file or directory'')), own)
      | Some q \<Rightarrow> (case denied F q of Some e \<Rightarrow> (Some e, own) | None \<Rightarrow> (None, own(q := v))))"

definition Rchown :: "file_system \<Rightarrow> string \<Rightarrow> fnode option \<Rightarrow> int \<Rightarrow> int \<Rightarrow> (string \<Rightarrow> int \<times> int) \<Rightarrow> goerr option \<times> (string \<Rightarrow> int \<times> int)" where
  "Rchown F dir d uid gid own = Rch (change F ''chown'' (uid, gid)) dir d own"

definition Rchmod :: "file_system \<Rightarrow> string \<Rightarrow> fnode option \<Rightarrow> nat \<Rightarrow> (string \<Rightarrow> nat) \<Rightarrow> goerr option \<times> (string \<Rightarrow> nat)" where
  "Rchmod F dir d mode modes = Rch (change F ''chmod'' mode) dir d modes"

definition changeable :: "file_system \<Rightarrow> string \<Rightarrow> bool" where
  "changeable F p \<longleftrightarrow> (case resolve F p of None \<Rightarrow> False | Some q \<Rightarrow> denied F q = None)"

text \<open>The calls up to the first one that fails take effect, and the others are not made.\<close>

lemma each_change:
  "each (change F op v) ps own = (e, own') \<Longrightarrow>
     (e = None) = (\<forall>p\<in>set ps. changeable F p)
     \<and> (\<forall>q. own' q = (if \<exists>p\<in>set (takeWhile (changeable F) ps). resolve F p = Some q then v else own q))"
proof (induction ps arbitrary: own)
  case (Cons p ps)
  show ?case
  proof (cases "changeable F p")
    case True
    then obtain q where q: "resolve F p = Some q" "denied F q = None"
      by (auto simp: changeable_def split: option.splits)
    then have "each (change F op v) ps (own(q := v)) = (e, own')"
      using Cons.prems by (simp add: and_then_def change_def [of F op v p])
    from Cons.IH [OF this] True q(1) show ?thesis by auto
  next
    case False
    then show ?thesis using Cons.prems
      by (cases "resolve F p"; cases "denied F (the (resolve F p))") (auto simp: changeable_def change_def and_then_def)
  qed
qed simp

lemma Rchown_result:
  assumes "Rchown F dir d uid gid own = (e, own')"
  shows "(e = None) = (\<forall>p\<in>set (dir_visits dir d). changeable F p)"
    and "own' q = (if \<exists>p\<in>set (takeWhile (changeable F) (dir_visits dir d)). resolve F p = Some q then (uid, gid) else own q)"
  using each_change [of F "''chown''" "(uid, gid)" "dir_visits dir d" own e own'] assms by (simp_all add: Rchown_def Rch_each)

text \<open>A directory that holds a link to a file elsewhere: the file elsewhere gets the new owner.\<close>

lemma visits_names_entry: "(n, Some NFile) \<in> set es \<Longrightarrow> filepath_Join dir n \<in> set (visits_names dir es)"
proof (induction es)
  case (Cons x es)
  obtain m d where x: "x = (m, d)" by (cases x)
  show ?case using Cons by (cases d) (auto simp: x)
qed simp

lemma Rchown_follows_links:
  assumes "Rchown F dir (Some (NDir es)) uid gid own = (None, own')" and "(n, Some NFile) \<in> set es"
    and "resolve F (filepath_Join dir n) = Some target"
  shows "own' target = (uid, gid)"
proof -
  have "filepath_Join dir n \<in> set (visits_names dir es)"
    using assms(2) by (rule visits_names_entry)
  then have in_dir: "filepath_Join dir n \<in> set (dir_visits dir (Some (NDir es)))" by (simp add: dir_visits_def)
  have "\<forall>p\<in>set (dir_visits dir (Some (NDir es))). changeable F p"
    using Rchown_result(1) [OF assms(1)] by simp
  then have "takeWhile (changeable F) (dir_visits dir (Some (NDir es))) = dir_visits dir (Some (NDir es))"
    by (simp add: takeWhile_eq_all_conv)
  then have "\<exists>p\<in>set (takeWhile (changeable F) (dir_visits dir (Some (NDir es)))). resolve F p = Some target"
    using in_dir assms(3) by metis
  then show ?thesis using Rchown_result(2) [OF assms(1), of target] by simp
qed

end
