(* ===== verification/NodeMap.thy ===== *)
theory NodeMap
  imports Registry Steps
begin

text \<open>
  The map of the registered nodes as goroutines share it (\<^verbatim>\<open>configwatcher/zk_watcher.go\<close>).  \<^verbatim>\<open>getRegisteredNodeInfo\<close>, \<^verbatim>\<open>setRegisterdNodeInfo\<close>
  and \<^verbatim>\<open>deleteRegisteredNodeInfo\<close> hold \<^verbatim>\<open>registeredNodesRWLock\<close> while they touch the map.  \<^verbatim>\<open>getAllRegisteredNodeInfo\<close> holds it only while it copies
  the reference to the map; its callers range over the map without the lock, \<^verbatim>\<open>updateProjectConfigByRootNode\<close> with requests to the
  server between two entries.  A Go program in which one goroutine writes a map while another one uses it may be ended by
  the runtime.
\<close>

datatype node_write = SetNode string registeredNodeInfo | DeleteNode string

fun apply_write :: "node_write \<Rightarrow> registry \<Rightarrow> registry" where
  "apply_write (SetNode n info) r = setRegisterdNodeInfo n info r"
| "apply_write (DeleteNode n) r = deleteRegisteredNodeInfo n r"

datatype map_access = Outside | Reading string | Writing node_write | Ranging "string list"

fun holds_lock :: "map_access \<Rightarrow> bool" where
  "holds_lock (Reading n) = True"
| "holds_lock (Writing op) = True"
| "holds_lock _ = False"

record node_map =
  nodes :: registry
  node_lock :: "nat option"
  accesses :: "nat \<Rightarrow> map_access"
  fatal :: bool

definition node_map_init :: "registry \<Rightarrow> node_map" where
  "node_map_init r = \<lparr>nodes = r, node_lock = None, accesses = (\<lambda>_. Outside), fatal = False\<rparr>"

definition access :: "nat \<Rightarrow> map_access \<Rightarrow> node_map \<Rightarrow> node_map" where
  "access g a s = s\<lparr>accesses := (accesses s)(g := a)\<rparr>"

text \<open>
  A step of goroutine \<open>g\<close>.  A range visits the names that are there at its start; whether it also visits those that come
  meanwhile, which the language leaves open, makes no difference here.
\<close>

inductive node_step :: "node_map \<Rightarrow> node_map \<Rightarrow> bool" where
  ns_lock_read: "\<not> fatal s \<Longrightarrow> accesses s g = Outside \<Longrightarrow> node_lock s = None
    \<Longrightarrow> node_step s (access g (Reading n) (s\<lparr>node_lock := Some g\<rparr>))"
| ns_lock_write: "\<not> fatal s \<Longrightarrow> accesses s g = Outside \<Longrightarrow> node_lock s = None
    \<Longrightarrow> node_step s (access g (Writing op) (s\<lparr>node_lock := Some g\<rparr>))"
| ns_read: "\<not> fatal s \<Longrightarrow> accesses s g = Reading n \<Longrightarrow> node_step s (access g Outside (s\<lparr>node_lock := None\<rparr>))"
| ns_write: "\<not> fatal s \<Longrightarrow> accesses s g = Writing op
    \<Longrightarrow> node_step s (access g Outside (s\<lparr>nodes := apply_write op (nodes s), node_lock := None\<rparr>))"
| ns_range: "\<not> fatal s \<Longrightarrow> accesses s g = Outside \<Longrightarrow> node_lock s = None
    \<Longrightarrow> node_step s (access g (Ranging (map fst (registeredNodes (nodes s)))) s)"
| ns_next: "\<not> fatal s \<Longrightarrow> accesses s g = Ranging (n # ns) \<Longrightarrow> node_step s (access g (Ranging ns) s)"
| ns_end: "\<not> fatal s \<Longrightarrow> accesses s g = Ranging [] \<Longrightarrow> node_step s (access g Outside s)"
| ns_fatal: "\<not> fatal s \<Longrightarrow> accesses s g = Writing op \<Longrightarrow> g \<noteq> h \<Longrightarrow> accesses s h \<noteq> Outside \<Longrightarrow> node_step s (s\<lparr>fatal := True\<rparr>)"

inductive_cases node_stepE: "node_step s s'"

abbreviation node_reach :: "registry \<Rightarrow> node_map \<Rightarrow> bool" where
  "node_reach r s \<equiv> node_step\<^sup>*\<^sup>* (node_map_init r) s"

text \<open>The goroutine that reads or writes by name has the lock.\<close>

definition lock_inv :: "node_map \<Rightarrow> bool" where
  "lock_inv s \<longleftrightarrow> (\<forall>g. holds_lock (accesses s g) \<longleftrightarrow> node_lock s = Some g)"

lemma lock_inv_step: "node_step s s' \<Longrightarrow> lock_inv s \<Longrightarrow> lock_inv s'"
proof (induction rule: node_step.induct)
  case (ns_read s g n)
  then have "node_lock s = Some g" by (metis holds_lock.simps(1) lock_inv_def)
  with ns_read show ?case by (auto simp: lock_inv_def access_def)
next
  case (ns_write s g op)
  then have "node_lock s = Some g" by (metis holds_lock.simps(2) lock_inv_def)
  with ns_write show ?case by (auto simp: lock_inv_def access_def)
next
  case (ns_next s g n ns)
  then have "node_lock s \<noteq> Some g" by (metis holds_lock.simps(4) lock_inv_def)
  with ns_next show ?case by (auto simp: lock_inv_def access_def)
next
  case (ns_end s g)
  then have "node_lock s \<noteq> Some g" by (metis holds_lock.simps(4) lock_inv_def)
  with ns_end show ?case by (auto simp: lock_inv_def access_def)
qed (auto simp: lock_inv_def access_def)

interpretation shared: reachable_invariant node_step lock_inv "\<lambda>s. s = node_map_init r" for r
  by unfold_locales (rule lock_inv_step, simp_all add: lock_inv_def node_map_init_def)

lemma lock_inv_reach: "node_reach r s \<Longrightarrow> lock_inv s"
  by (rule shared.inv_reach) simp_all

lemma locked_once: "lock_inv s \<Longrightarrow> holds_lock (accesses s g) \<Longrightarrow> holds_lock (accesses s h) \<Longrightarrow> g = h"
  by (simp add: lock_inv_def)

lemma fatal_ranging:
  assumes "lock_inv s" and "node_step s s'" and "\<not> fatal s" and "fatal s'"
  shows "\<exists>g h op ns. accesses s g = Writing op \<and> accesses s h = Ranging ns"
  using assms(2)
proof cases
  case (ns_fatal g op h)
  then have "\<not> holds_lock (accesses s h)" using locked_once [OF assms(1), of g h] by auto
  with ns_fatal show ?thesis by (cases "accesses s h") auto
qed (use assms(3,4) in \<open>simp_all add: access_def\<close>)

text \<open>An update ranges over the nodes, and a request registers one.\<close>

lemma fatal_reached: "\<exists>s. node_reach r s \<and> fatal s"
proof -
  let ?a = "access 0 (Ranging (map fst (registeredNodes r))) (node_map_init r)"
  let ?b = "access 1 (Writing (DeleteNode [])) (?a\<lparr>node_lock := Some 1\<rparr>)"
  have "node_step (node_map_init r) ?a" using ns_range [of "node_map_init r" 0] by (simp add: node_map_init_def)
  moreover have "node_step ?a (?b)" by (rule ns_lock_write) (simp_all add: access_def node_map_init_def)
  moreover have "node_step (?b) (?b\<lparr>fatal := True\<rparr>)"
    by (rule ns_fatal [of _ 1 _ 0]) (simp_all add: access_def node_map_init_def)
  ultimately have "node_reach r (?b\<lparr>fatal := True\<rparr>)" by (meson r_into_rtranclp rtranclp.rtrancl_into_rtrancl)
  then show ?thesis by (intro exI) (auto simp: access_def)
qed

text \<open>C26: of the goroutines that read and write the registered nodes by name at most one is at it at any time, in any interleaving, so
  these never end the program.  Ranging over all nodes is not protected: the program is ended
  only when one goroutine ranges over the nodes while another one writes, and such a run exists from every content of the map.\<close>

theorem node_map_race:
  "(\<forall>r s g h. node_reach r s \<and> holds_lock (accesses s g) \<and> holds_lock (accesses s h) \<longrightarrow> g = h)
   \<and> (\<forall>r s s'. node_reach r s \<and> \<not> fatal s \<and> node_step s s' \<and> fatal s' \<longrightarrow>
        (\<exists>g h op ns. accesses s g = Writing op \<and> accesses s h = Ranging ns))
   \<and> (\<forall>r. \<exists>s. node_reach r s \<and> fatal s)"
proof (intro conjI allI impI; (elim conjE)?)
  fix r s g h
  assume "node_reach r s" "holds_lock (accesses s g)" "holds_lock (accesses s h)"
  then show "g = h" using locked_once [OF lock_inv_reach] by blast
next
  fix r s s'
  assume "node_reach r s" "\<not> fatal s" "node_step s s'" "fatal s'"
  then show "\<exists>g h op ns. accesses s g = Writing op \<and> accesses s h = Ranging ns"
    using fatal_ranging [OF lock_inv_reach] by blast
qed (rule fatal_reached)

theorem node_map_race_witness:
  "{h. holds_lock (accesses (access 0 (Reading ''Pay.Key'') (node_map_init empty_registry\<lparr>node_lock := Some 0\<rparr>)) h)} = {0}
   \<and> (\<exists>s. node_reach empty_registry s \<and> fatal s)"
proof -
  let ?s = "access 0 (Reading ''Pay.Key'') (node_map_init empty_registry\<lparr>node_lock := Some 0\<rparr>)"
  have "node_step (node_map_init empty_registry) ?s" by (rule ns_lock_read) (simp_all add: node_map_init_def)
  then have "node_reach empty_registry ?s" by blast
  moreover have "holds_lock (accesses ?s 0)" by (simp add: access_def)
  ultimately have "{h. holds_lock (accesses ?s h)} = {0}" using node_map_race [THEN conjunct1] by blast
  then show ?thesis using node_map_race by blast
qed

end
