(* ===== verification/Spec2Isabelle.thy ===== *)
theory Spec2Isabelle
  imports Encrypt TomlJson Watch UpdateLock RecheckAll Service StopServer UpdateLaws SetupLaws LocalWatcher
    MainProgram Startup WatchLink Logger Owners NodeMap
begin

text \<open>
  A model of DoveClient, the client of a configuration system, with the theorems that make it correct.

  \<^bold>\<open>The program.\<close>  DoveClient runs on the machines of an application.  It keeps configurations, which an etcd server
  publishes, in the memory of the process and in a local LevelDB database; it serves them to programs over a local socket;
  it compiles templates (schema files) into configuration files of the projects; it watches the server, the templates and
  debug files for changes and updates all of these; and it runs callbacks after an update.  Values are TOML texts, optionally
  encrypted with Blowfish in CBC mode, and are handed out as JSON texts.

  \<^bold>\<open>Conventions\<close> (\<^verbatim>\<open>Prelude\<close>).  Strings and byte slices are lists of \<^typ>\<open>char\<close>.  A call that can fail returns a \<open>res\<close>: a value,
  an error, or a panic.  A Go map is an association list with distinct keys whose order is the order of iteration, so that a
  theorem about all lists covers all orders.  An \<open>option\<close> around a result stands for a call that may wait for another goroutine
  (\<open>None\<close>).  Code that is not part of the repository is a parameter, collected in the records \<open>env\<close> (\<^verbatim>\<open>ProjConfig\<close>: database
  engine, etcd client, TOML parser, tables of the cipher, file system), \<open>tools\<close> (\<^verbatim>\<open>Compile\<close>: PHP, temporary files,
  regular expressions that are not plain text, MD5, clock), \<open>host\<close> (\<^verbatim>\<open>ConfigSetup\<close>: the operating system), \<open>conn_env\<close>
  (\<^verbatim>\<open>Service\<close>: deadlines and errors of a connection), \<open>sockets\<close> (\<^verbatim>\<open>Listener\<close>), \<open>callback_host\<close> (\<^verbatim>\<open>CallbackRun\<close>: the servers that
  callbacks talk to) and \<open>monitor_env\<close> (\<^verbatim>\<open>Reports\<close>).  The machine on which the client runs is the record \<open>machine\<close> of \<^verbatim>\<open>ProcControl\<close>: its
  files, its process table, in which an ended process stays until its parent takes notice, and the signals sent.

  \<^bold>\<open>Libraries of the language.\<close>  \<^verbatim>\<open>GoStrings\<close>, \<^verbatim>\<open>GoFmt\<close>, \<^verbatim>\<open>GoPath\<close>, \<^verbatim>\<open>GoRegexp\<close>, \<^verbatim>\<open>Binary\<close>, \<^verbatim>\<open>Base64\<close>, \<^verbatim>\<open>Json\<close> and \<^verbatim>\<open>JsonLaws\<close>
  model what the source uses of \<^verbatim>\<open>strings\<close>, \<^verbatim>\<open>strconv\<close>, \<^verbatim>\<open>fmt\<close>, \<^verbatim>\<open>path\<close>, \<^verbatim>\<open>regexp\<close>, \<^verbatim>\<open>encoding/binary\<close>, \<^verbatim>\<open>encoding/base64\<close> and
  \<^verbatim>\<open>encoding/json\<close>: definitions that compute, and the laws of splitting, trimming, replacing, matching and parsing that the
  components need.  The JSON parser has fuel; \<open>Unmarshal_fuel\<close> shows that the fuel it is given is enough.

  \<^bold>\<open>Step relations.\<close>  Goroutines and processes that interleave are \<open>inductive\<close> relations between states.  \<^verbatim>\<open>Steps\<close> has the locales for them
  (\<open>step_invariant\<close>, \<open>reachable_invariant\<close>, \<open>step_progress\<close>); every component with such a relation interprets one of them with its
  own steps and invariant, and its theorems use the facts of that interpretation.

  \<^bold>\<open>The components\<close>, with the files under \<^verbatim>\<open>src/\<close>.

  \<^item> \<^verbatim>\<open>Util\<close>, \<^verbatim>\<open>Toml\<close>, \<^verbatim>\<open>TomlJson\<close> (\<^verbatim>\<open>util/utils.go\<close>): slices that share an array; TOML trees and their JSON text.  The recursion of
    \<^verbatim>\<open>TraverseTomlAsJson\<close> carries fuel; it ends within the size of the tree, unless it enters a table with an empty key, when it
    never ends.
    The JSON text of a clean tree decodes to the values of the tree.
  \<^item> \<^verbatim>\<open>Blowfish\<close>, \<^verbatim>\<open>Encrypt\<close> (\<^verbatim>\<open>encrypt/encrypt.go\<close> and the vendored cipher): key expansion, the rounds on 32-bit words, CBC, padding;
    decryption inverts encryption up to zero bytes at the end.
  \<^item> \<^verbatim>\<open>KvStore\<close> states the contract of a key-value store as a locale; \<^verbatim>\<open>MemStore\<close> (\<^verbatim>\<open>storage/mem.go\<close>), \<^verbatim>\<open>LevelDb\<close>
    (\<^verbatim>\<open>storage/leveldb\<close>) and the database with encryption in \<^verbatim>\<open>ProjConfig\<close> interpret it.  \<^verbatim>\<open>ZkStore\<close>, \<^verbatim>\<open>ZkConn\<close>, \<^verbatim>\<open>WatchLink\<close>
    (\<^verbatim>\<open>storage/zk\<close>): names of configurations as keys of the server; the one connection of the process with the goroutine that tests
    and replaces it; what a watcher of one key sees of published versions, of replacements and of cancelled streams, as a step relation.
  \<^item> \<^verbatim>\<open>ConfigTypes\<close>, \<^verbatim>\<open>ConfigSetup\<close>, \<^verbatim>\<open>SetupLaws\<close> (\<^verbatim>\<open>config\<close>, \<^verbatim>\<open>scripts/create_settings.go\<close>): the settings, from the packed
    table, the configuration file, the environment and the configuration centre; \<^verbatim>\<open>Owners\<close>: the recursive change of owners and
    modes, a model beside \<^verbatim>\<open>Setup\<close>, which only logs its errors.
  \<^item> \<^verbatim>\<open>ConfigSchema\<close> (\<^verbatim>\<open>configschema\<close>): schema files and the items they name; \<^verbatim>\<open>DebugConfig\<close> (\<^verbatim>\<open>projconfig/debugconfig.go\<close>): debug files.
  \<^item> \<^verbatim>\<open>FetchLock\<close>, \<^verbatim>\<open>ProjConfig\<close> (\<^verbatim>\<open>projconfig/projconfig.go\<close>): a configuration from memory, database or server; the token that
    some of the goroutines ask for before they fetch it is a step relation, with those that do not ask.
  \<^item> \<^verbatim>\<open>Registry\<close>, \<^verbatim>\<open>NodeMap\<close>, \<^verbatim>\<open>Watch\<close>, \<^verbatim>\<open>UpdateLock\<close>, \<^verbatim>\<open>Recheck\<close>, \<^verbatim>\<open>RecheckAll\<close>, \<^verbatim>\<open>LocalWatcher\<close> (\<^verbatim>\<open>configwatcher\<close>): registered nodes,
    how goroutines share them, and the watch list, the watchers and their collector, the lock of updates and the two queues of failed ones as step relations with
    invariants; events of local files and the retries of directories.
  \<^item> \<^verbatim>\<open>NewValue\<close>, \<^verbatim>\<open>Compile\<close>, \<^verbatim>\<open>CompileToml\<close>, \<^verbatim>\<open>Updater\<close>, \<^verbatim>\<open>UpdateLaws\<close> (\<^verbatim>\<open>configwatcher/zk_watcher.go\<close>): the newest version of a
    configuration, the compilation of PHP and TOML templates, and the updates of a root node and of a schema file, which
    compose all of the above.  The locale \<open>client_frame\<close> carries a relation between states of the client through every
    read and compilation; with it an update is shown to leave the server's versions in the stores.
  \<^item> \<^verbatim>\<open>Reports\<close>, \<^verbatim>\<open>Startup\<close> (\<^verbatim>\<open>configwatcher/zk_watcher.go\<close>): the registration of the client at the server, the report of results, the
    delay of callbacks while updates follow each other, and the start, which composes registration, registered nodes, the update of
    everything and the watch list.
  \<^item> \<^verbatim>\<open>Callbacks\<close>, \<^verbatim>\<open>Fcgi\<close>, \<^verbatim>\<open>CallbackRun\<close> (\<^verbatim>\<open>callbacks\<close>): the record of updates, the rules for scripts, the FastCGI client, and the two
    built-in callbacks with their dialogues.
  \<^item> \<^verbatim>\<open>Framing\<close>, \<^verbatim>\<open>Service\<close>, \<^verbatim>\<open>Statistics\<close>, \<^verbatim>\<open>StopServer\<close> (\<^verbatim>\<open>connection\<close>, \<^verbatim>\<open>handler\<close>): frames over a connection that delivers
    packets, a session of requests, the counters and the console, and stopping, which is a step relation with any number of handlers;
    \<^verbatim>\<open>Listener\<close>: the listening sockets and the count of connections, whose messages are on their way for a while.
  \<^item> \<^verbatim>\<open>Cli\<close>, \<^verbatim>\<open>ProcControl\<close>, \<^verbatim>\<open>Instance\<close>, \<^verbatim>\<open>Instances\<close>, \<^verbatim>\<open>MainProgram\<close> (\<^verbatim>\<open>main.go\<close>, \<^verbatim>\<open>doveclient.go\<close>, \<^verbatim>\<open>proc\<close>): flags and
    commands, and what of them comes through the shell to a background instance; the pid file, the signals to a running client and the start in the background; stopping and handing over the socket to a
    successor; all instances of a machine as a step relation; the main program over these.
  \<^item> \<^verbatim>\<open>Logger\<close> (\<^verbatim>\<open>logger\<close>): the loggers by level and the lines in their files.

  \<^bold>\<open>What the theorems show.\<close>  Round trips: encryption, the database, published contents, frames, FastCGI requests,
  registered nodes across a restart.  Refinements: the database against a map, the newest value against its specification,
  a session against the sequence of its requests.  Functional behaviour: reading by any means, compiling templates, updating, the state
  after the start, reports that arrive while the lease is known to the server, collecting unused nodes, choosing scripts, the settings that a
  configuration file leaves, the arguments of a background instance.  Invariants and
  safety of the step relations: one fetch with the token and one update at a time, one serving instance in orderly use beside those that hand over,
  the count of connections, the state of the connection to the server, no announced version lost while a watcher listens.  Termination of the TOML conversion, with the exact condition.  Errors and liveness: what makes
  the program panic, leak a lock, wait for ever, lose a version or a directory, or restart into nothing, each with a run that reaches it.

  \<^bold>\<open>Bounds.\<close>  Fuel occurs in the JSON parser, the TOML conversion and the loops that read records and packets; each is given the length of its
  input or the size of its tree, and lemmas show that this is enough.  A loop over time (the start in the background, the testing
  goroutine, the retries of directories) takes the list of what it meets at its rounds, of any length.

  \<^bold>\<open>Not modelled.\<close>  The texts of help and log messages; the branches for Windows apart from the listening address; the unused
  \<^verbatim>\<open>storage/etcd\<close>; the programs under \<^verbatim>\<open>test\<close>, which exercise a running client by hand, and the TOML checker under \<^verbatim>\<open>scripts\<close>, which only
  calls the parser.
\<close>

end
